(* ===== verification/Prelude.thy ===== *)
theory Prelude
  imports Main "HOL-Library.Word" "HOL-Library.AList"
begin

text \<open>
  Shared vocabulary of the development: the machine integers of the Go code (\<open>uint\<close> is
  64 bits wide on the platforms the program runs on), the conventions for results, the
  generic lemmas on lists, options and association lists that the components share, and
  the named collections their proofs draw on.

  Conventions for results. A Go function that returns \<open>(T, error)\<close> becomes a function into
  \<open>error + T\<close>, with \<open>Inl\<close> for the error; one that returns \<open>error\<close> becomes a function into
  \<open>error option\<close>, with \<open>None\<close> for \<open>nil\<close>. Where the Go code can panic or may fail to return
  at all, the whole result is wrapped once more in \<open>option\<close>, and \<open>None\<close> stands for that.
\<close>

section \<open>Integers\<close>

type_synonym u8 = "8 word"

type_synonym u32 = "32 word"

type_synonym u64 = "64 word"

section \<open>Collections of facts\<close>

named_theorems frame_simps \<open>what an operation leaves unchanged\<close>

named_theorems inv_intros \<open>every operation keeps the invariant of its component\<close>

named_theorems str_simps \<open>evaluation of the string operations\<close>

section \<open>Errors\<close>

text \<open>
  \<open>Errorf f es\<close> is \<open>fmt.Errorf\<close> with the literal format \<open>f\<close> of the source and the errors among its
  arguments; \<open>Aggregate\<close> is the slice of errors of \<open>kerrors\<close>; \<open>ExitError\<close> is \<open>*exec.ExitError\<close>,
  the one dynamic type the code tests for; \<open>Foreign\<close> is any error made by code outside the
  repository (an API client, the operating system).
\<close>

datatype error =
    Errorf string "error list"
  | Aggregate "error list"
  | ExitError
  | Foreign string

text \<open>\<open>kerrors.NewAggregate\<close>: no error for an empty list.\<close>

definition NewAggregate :: "error list \<Rightarrow> error option" where
  "NewAggregate errlist = (if length errlist = 0 then None else Some (Aggregate errlist))"

lemma NewAggregate_None [simp]: "NewAggregate es = None \<longleftrightarrow> es = []"
  by (simp add: NewAggregate_def)

lemma NewAggregate_Nil [simp]: "NewAggregate [] = None"
  by simp

lemma NewAggregate_Cons [simp]: "NewAggregate (e # es) = Some (Aggregate (e # es))"
  by (simp add: NewAggregate_def)

section \<open>Go maps\<close>

text \<open>
  A Go map that is only indexed is a map \<open>'k \<rightharpoonup> 'v\<close>; reading a missing key gives the zero
  value. A Go map that is also ranged over is an association list with distinct keys, whose
  order is the order the range statement happens to use: Go leaves it open, so a theorem
  about all lists is a theorem about all orders.
\<close>

definition get_bool :: "('k \<rightharpoonup> bool) \<Rightarrow> 'k \<Rightarrow> bool" where
  "get_bool m k = (case m k of None \<Rightarrow> False | Some b \<Rightarrow> b)"

lemma get_bool_empty [simp]: "get_bool Map.empty k = False"
  by (simp add: get_bool_def)

lemma get_bool_upd [simp]: "get_bool (m(k \<mapsto> b)) k' = (if k' = k then b else get_bool m k')"
  by (simp add: get_bool_def)

lemma get_bool_True: "get_bool m k \<longleftrightarrow> m k = Some True"
  by (auto simp: get_bool_def split: option.splits)

declare distinct_update [intro] and distinct_delete [intro]

lemma map_of_delete [simp]: "map_of (AList.delete k al) = (map_of al)(k := None)"
  by (simp add: delete_conv')

lemma map_of_update [simp]: "map_of (AList.update k v al) = (map_of al)(k \<mapsto> v)"
  by (rule update_conv')

lemma set_snd_map_of:
  "distinct (map fst al) \<Longrightarrow> snd ` set al = ran (map_of al)"
  by (simp add: ran_distinct)

section \<open>Runs of a handler\<close>

text \<open>
  Every watch loop of the program pops one event after another and handles it with the
  state the loop keeps. A finite run is the fold of the handler over the events.
\<close>

fun run :: "('ev \<Rightarrow> 's \<Rightarrow> 's) \<Rightarrow> 'ev list \<Rightarrow> 's \<Rightarrow> 's" where
  "run h [] s = s"
| "run h (e # es) s = run h es (h e s)"

lemma run_append [simp]: "run h (es @ es') s = run h es' (run h es s)"
  by (induction es arbitrary: s) simp_all

text \<open>The interface every watch loop meets: an invariant that the handling of an event keeps.\<close>

locale watch_loop =
  fixes handle :: "'ev \<Rightarrow> 's \<Rightarrow> 's"
    and wf_event :: "'ev \<Rightarrow> bool"
    and inv :: "'s \<Rightarrow> bool"
  assumes handle_inv: "inv s \<Longrightarrow> wf_event e \<Longrightarrow> inv (handle e s)"
begin

lemma run_inv: "inv s \<Longrightarrow> \<forall>e\<in>set es. wf_event e \<Longrightarrow> inv (run handle es s)"
  by (induction es arbitrary: s) (auto intro: handle_inv)

end

end
