(* ===== verification/GoStrings.thy ===== *)
theory GoStrings
  imports Prelude
begin

text \<open>
  The part of Go's \<open>strings\<close> and \<open>strconv\<close> packages that the program uses, on strings as
  lists of bytes: \<open>Index\<close>, \<open>Contains\<close>, \<open>Split\<close>, \<open>Join\<close>, \<open>HasPrefix\<close>, \<open>ToLower\<close> (for ASCII
  letters), and the printing of unsigned numbers in base 10 and 16. The lemmas give the
  round trips the allocators rest on.
\<close>

section \<open>Searching and splitting\<close>

definition HasPrefix :: "string \<Rightarrow> string \<Rightarrow> bool" where
  "HasPrefix s p \<longleftrightarrow> take (length p) s = p"

fun Index :: "string \<Rightarrow> string \<Rightarrow> nat option" where
  "Index [] sub = (if sub = [] then Some 0 else None)"
| "Index (c # cs) sub =
     (if HasPrefix (c # cs) sub then Some 0 else map_option Suc (Index cs sub))"

definition Contains :: "string \<Rightarrow> string \<Rightarrow> bool" where
  "Contains s sub \<longleftrightarrow> Index s sub \<noteq> None"

lemma Index_bound: "Index s sub = Some i \<Longrightarrow> i + length sub \<le> length s"
proof (induction s arbitrary: i)
  case Nil
  then show ?case by (simp split: if_splits)
next
  case (Cons c cs)
  show ?case
  proof (cases "HasPrefix (c # cs) sub")
    case True
    then have "length (take (length sub) (c # cs)) = length sub" by (simp add: HasPrefix_def)
    with True Cons.prems show ?thesis by simp
  next
    case False
    with Cons show ?thesis by auto
  qed
qed

lemma Index_split: "Index s sub = Some i \<Longrightarrow> s = take i s @ sub @ drop (i + length sub) s"
proof (induction s arbitrary: i)
  case Nil
  then show ?case by (simp split: if_splits)
next
  case (Cons c cs)
  show ?case
  proof (cases "HasPrefix (c # cs) sub")
    case True
    with Cons.prems show ?thesis by (simp add: HasPrefix_def) (metis append_take_drop_id)
  next
    case False
    with Cons show ?thesis by auto
  qed
qed

text \<open>\<open>strings.Split\<close> for a non-empty separator, the only way the program calls it.\<close>

function Split :: "string \<Rightarrow> string \<Rightarrow> string list" where
  "Split s sep =
     (if sep = [] then map (\<lambda>c. [c]) s
      else case Index s sep of
             None \<Rightarrow> [s]
           | Some i \<Rightarrow> take i s # Split (drop (i + length sep) s) sep)"
  by pat_completeness auto
termination
proof (relation "measure (\<lambda>(s, sep). length s)", goal_cases)
  case (2 s sep i)
  then have "i + length sep \<le> length s" and "0 < length sep" by (auto dest: Index_bound)
  then have "length s - (i + length sep) < length s" by linarith
  then show ?case by simp
qed simp

declare Split.simps [simp del]

fun Join :: "string list \<Rightarrow> string \<Rightarrow> string" where
  "Join [] sep = []"
| "Join [s] sep = s"
| "Join (s # t # ss) sep = s @ sep @ Join (t # ss) sep"

lemma Split_not_Nil: "sep \<noteq> [] \<Longrightarrow> Split s sep \<noteq> []"
  by (subst Split.simps) (simp split: option.split)

lemma Join_Cons: "ss \<noteq> [] \<Longrightarrow> Join (s # ss) sep = s @ sep @ Join ss sep"
  by (cases ss) simp_all

lemma Join_Split: "sep \<noteq> [] \<Longrightarrow> Join (Split s sep) sep = s"
proof (induction s sep rule: Split.induct)
  case (1 s sep)
  show ?case
  proof (cases "Index s sep")
    case None
    with 1 show ?thesis by (simp add: Split.simps [of s])
  next
    case (Some i)
    with 1 have "Join (Split (drop (i + length sep) s) sep) sep = drop (i + length sep) s" by simp
    moreover have "Split s sep = take i s # Split (drop (i + length sep) s) sep"
      using Some 1 by (simp add: Split.simps [of s])
    ultimately show ?thesis
      using Some 1 by (simp add: Join_Cons Split_not_Nil Index_split [symmetric])
  qed
qed

lemma Index_single: "c \<notin> set xs \<Longrightarrow> Index (xs @ c # ys) [c] = Some (length xs)"
  by (induction xs) (auto simp: HasPrefix_def)

lemma Index_single_None: "c \<notin> set xs \<Longrightarrow> Index xs [c] = None"
  by (induction xs) (auto simp: HasPrefix_def)

lemma Split_Join:
  "ls \<noteq> [] \<Longrightarrow> \<forall>l\<in>set ls. c \<notin> set l \<Longrightarrow> Split (Join ls [c]) [c] = ls"
proof (induction ls)
  case (Cons l ls)
  show ?case
  proof (cases "ls = []")
    case True
    with Cons.prems show ?thesis by (simp add: Split.simps [of l] Index_single_None)
  next
    case False
    with Cons show ?thesis
      by (simp add: Join_Cons Split.simps [of "l @ _"] Index_single)
  qed
qed simp

section \<open>Case\<close>

definition to_lower_char :: "char \<Rightarrow> char" where
  "to_lower_char c =
     (let n = of_char c :: nat in if 65 \<le> n \<and> n \<le> 90 then char_of (n + 32) else c)"

definition ToLower :: "string \<Rightarrow> string" where
  "ToLower s = map to_lower_char s"

section \<open>Numbers in base 10 and 16\<close>

definition digit :: "nat \<Rightarrow> char" where
  "digit n = ''0123456789abcdef'' ! n"

fun itod :: "nat \<Rightarrow> string" where
  "itod n = (if n < 10 then [digit n] else itod (n div 10) @ [digit (n mod 10)])"

fun itox :: "nat \<Rightarrow> string" where
  "itox n = (if n < 16 then [digit n] else itox (n div 16) @ [digit (n mod 16)])"

declare itod.simps [simp del] itox.simps [simp del]

definition is_digit :: "char \<Rightarrow> bool" where
  "is_digit c \<longleftrightarrow> 48 \<le> (of_char c :: nat) \<and> (of_char c :: nat) \<le> 57"

definition dval :: "char \<Rightarrow> nat" where
  "dval c = of_char c - 48"

text \<open>The value of a hexadecimal digit, if it is one.\<close>

definition xval :: "char \<Rightarrow> nat option" where
  "xval c =
     (let n = of_char c :: nat in
      if 48 \<le> n \<and> n \<le> 57 then Some (n - 48)
      else if 97 \<le> n \<and> n \<le> 102 then Some (n - 87)
      else if 65 \<le> n \<and> n \<le> 70 then Some (n - 55)
      else None)"

text \<open>
  \<open>dtoi\<close> and \<open>xtoi\<close> of package \<open>net\<close>: the number at the front of a string and what follows it,
  or nothing where there is no digit or the number reaches \<open>big\<close>.
\<close>

definition big :: nat where
  "big = 16777215"

fun dtoi_loop :: "nat \<Rightarrow> string \<Rightarrow> (nat \<times> string) option" where
  "dtoi_loop n [] = Some (n, [])"
| "dtoi_loop n (c # cs) =
     (if is_digit c
      then (let n' = n * 10 + dval c in if big \<le> n' then None else dtoi_loop n' cs)
      else Some (n, c # cs))"

definition dtoi :: "string \<Rightarrow> (nat \<times> string) option" where
  "dtoi s = (case s of [] \<Rightarrow> None | c # cs \<Rightarrow> if is_digit c then dtoi_loop 0 s else None)"

fun xtoi_loop :: "nat \<Rightarrow> string \<Rightarrow> (nat \<times> string) option" where
  "xtoi_loop n [] = Some (n, [])"
| "xtoi_loop n (c # cs) =
     (case xval c of
        Some d \<Rightarrow> (let n' = n * 16 + d in if big \<le> n' then None else xtoi_loop n' cs)
      | None \<Rightarrow> Some (n, c # cs))"

definition xtoi :: "string \<Rightarrow> (nat \<times> string) option" where
  "xtoi s = (case s of [] \<Rightarrow> None | c # cs \<Rightarrow> if xval c = None then None else xtoi_loop 0 s)"

subsection \<open>Reading back what was printed\<close>

lemma of_char_digit:
  assumes "n < 10"
  shows "(of_char (digit n) :: nat) = 48 + n"
proof -
  have "\<forall>k\<in>{0,1,2,3,4,5,6,7,8,9}. (of_char (digit k) :: nat) = 48 + k" by (simp add: digit_def)
  moreover have "n \<in> {0,1,2,3,4,5,6,7,8,9}" using assms by auto
  ultimately show ?thesis by blast
qed

lemma is_digit_digit [simp]: "n < 10 \<Longrightarrow> is_digit (digit n)"
  by (simp add: is_digit_def of_char_digit)

lemma dval_digit [simp]: "n < 10 \<Longrightarrow> dval (digit n) = n"
  by (simp add: dval_def of_char_digit)

lemma itod_digits: "c \<in> set (itod n) \<Longrightarrow> is_digit c"
proof (induction n rule: itod.induct)
  case (1 n)
  then show ?case by (cases "n < 10") (auto simp: itod.simps [of n])
qed

lemma itod_not_Nil [simp]: "itod n \<noteq> []"
  by (simp add: itod.simps [of n])

abbreviation dec_value :: "nat \<Rightarrow> string \<Rightarrow> nat" where
  "dec_value m ds \<equiv> foldl (\<lambda>a c. a * 10 + dval c) m ds"

lemma dec_value_itod: "dec_value 0 (itod n) = n"
proof (induction n rule: itod.induct)
  case (1 n)
  then show ?case by (cases "n < 10") (simp_all add: itod.simps [of n])
qed

lemma dec_value_ge: "m \<le> dec_value m ds"
proof (induction ds arbitrary: m)
  case (Cons c ds)
  from Cons [of "m * 10 + dval c"] show ?case by simp
qed simp

lemma dtoi_loop_digits:
  "\<forall>c\<in>set ds. is_digit c \<Longrightarrow> dec_value m ds < big \<Longrightarrow>
   dtoi_loop m (ds @ rest) = dtoi_loop (dec_value m ds) rest"
proof (induction ds arbitrary: m)
  case (Cons c ds)
  have "m * 10 + dval c \<le> dec_value m (c # ds)" using dec_value_ge [of "m * 10 + dval c" ds] by simp
  with Cons.prems have "m * 10 + dval c < big" by linarith
  with Cons show ?case by simp
qed simp

definition no_digit :: "string \<Rightarrow> bool" where
  "no_digit s \<longleftrightarrow> (case s of [] \<Rightarrow> True | c # _ \<Rightarrow> \<not> is_digit c)"

lemma dtoi_itod:
  assumes "n < big" and "no_digit rest"
  shows "dtoi (itod n @ rest) = Some (n, rest)"
proof -
  have "dtoi_loop 0 (itod n @ rest) = dtoi_loop n rest"
    using dtoi_loop_digits [of "itod n" 0 rest] itod_digits dec_value_itod assms(1) by simp
  also have "\<dots> = Some (n, rest)"
    using assms(2) by (cases rest) (simp_all add: no_digit_def)
  finally show ?thesis
    using itod_digits [of "hd (itod n)" n] by (cases "itod n") (simp_all add: dtoi_def)
qed

lemma itod_inj: "itod m = itod n \<Longrightarrow> m = n"
  using dec_value_itod by metis

section \<open>Evaluation\<close>

text \<open>
  Equations with which \<open>simp\<close> evaluates the string operations on closed arguments.
\<close>

lemma digit_eval [str_simps]:
  "digit 0 = CHR ''0''" "digit 1 = CHR ''1''" "digit (Suc 0) = CHR ''1''" "digit 2 = CHR ''2''"
  "digit 3 = CHR ''3''" "digit 4 = CHR ''4''" "digit 5 = CHR ''5''" "digit 6 = CHR ''6''"
  "digit 7 = CHR ''7''" "digit 8 = CHR ''8''" "digit 9 = CHR ''9''"
  "digit 10 = CHR ''a''" "digit 11 = CHR ''b''" "digit 12 = CHR ''c''" "digit 13 = CHR ''d''"
  "digit 14 = CHR ''e''" "digit 15 = CHR ''f''"
  by (simp_all add: digit_def)

lemma itod_eval [str_simps]:
  "itod 0 = [digit 0]" "itod 1 = [digit 1]" "itod (Suc 0) = [digit 1]"
  "itod (numeral k) =
     (if (numeral k :: nat) < 10 then [digit (numeral k)]
      else itod (numeral k div 10) @ [digit (numeral k mod 10)])"
  by (simp_all add: itod.simps)

lemmas [str_simps] =
  HasPrefix_def Contains_def dtoi_def xtoi_def is_digit_def dval_def xval_def big_def

end
