(* ===== verification/GoNet.thy ===== *)
theory GoNet
  imports GoStrings
begin

unbundle bit_operations_syntax

text \<open>
  The part of Go's package \<open>net\<close> that the program uses, for the versions of Go its build
  names (1.3 and 1.4): addresses and masks are byte slices of length 4 or 16, the empty
  slice standing for \<open>nil\<close>. Parsing and printing of IPv4 and IPv6 addresses, CIDR notation,
  masks and containment follow the library function by function. The lemmas give what the
  subnet allocator needs for IPv4: printing is injective, and parsing reads it back.
\<close>

section \<open>Addresses and masks\<close>

type_synonym IP = "u8 list"

type_synonym IPMask = "u8 list"

record IPNet =
  ipnet_IP :: IP
  ipnet_Mask :: IPMask

definition v4InV6Prefix :: "u8 list" where
  "v4InV6Prefix = replicate 10 0 @ [255, 255]"

definition IPv4 :: "u8 \<Rightarrow> u8 \<Rightarrow> u8 \<Rightarrow> u8 \<Rightarrow> IP" where
  "IPv4 a b c d = v4InV6Prefix @ [a, b, c, d]"

definition To4 :: "IP \<Rightarrow> IP" where
  "To4 ip =
     (if length ip = 4 then ip
      else if length ip = 16 \<and> take 12 ip = v4InV6Prefix then drop 12 ip
      else [])"

definition IPv6loopback :: IP where
  "IPv6loopback = replicate 15 0 @ [1]"

text \<open>\<open>IP.Equal\<close> treats the two forms of an IPv4 address as equal.\<close>

definition IP_Equal :: "IP \<Rightarrow> IP \<Rightarrow> bool" where
  "IP_Equal ip x =
     (if length ip = length x then ip = x
      else if length ip = 4 \<and> length x = 16 then take 12 x = v4InV6Prefix \<and> ip = drop 12 x
      else if length ip = 16 \<and> length x = 4 then take 12 ip = v4InV6Prefix \<and> drop 12 ip = x
      else False)"

definition IsLoopback :: "IP \<Rightarrow> bool" where
  "IsLoopback ip \<longleftrightarrow> (To4 ip \<noteq> [] \<and> hd (To4 ip) = 127) \<or> IP_Equal ip IPv6loopback"

text \<open>\<open>CIDRMask\<close>: the leading \<open>ones\<close> bits set, byte by byte.\<close>

fun mask_bytes :: "nat \<Rightarrow> nat \<Rightarrow> IPMask" where
  "mask_bytes 0 ones = []"
| "mask_bytes (Suc l) ones =
     (if 8 \<le> ones then 255 # mask_bytes l (ones - 8)
      else NOT (drop_bit ones 255) # mask_bytes l 0)"

definition CIDRMask :: "nat \<Rightarrow> nat \<Rightarrow> IPMask" where
  "CIDRMask ones bits =
     (if bits \<noteq> 32 \<and> bits \<noteq> 128 then []
      else if bits < ones then []
      else mask_bytes (bits div 8) ones)"

text \<open>The number of leading ones of a byte, and what is left of it shifted to the front.\<close>

fun leading_ones :: "nat \<Rightarrow> u8 \<Rightarrow> nat \<times> u8" where
  "leading_ones 0 v = (0, v)"
| "leading_ones (Suc k) v =
     (if v AND 128 \<noteq> 0
      then (let (n, v') = leading_ones k (push_bit 1 v) in (Suc n, v'))
      else (0, v))"

fun simpleMaskLength :: "IPMask \<Rightarrow> nat option" where
  "simpleMaskLength [] = Some 0"
| "simpleMaskLength (v # m) =
     (if v = 255 then map_option ((+) 8) (simpleMaskLength m)
      else (let (n, v') = leading_ones 8 v in
            if v' \<noteq> 0 then None
            else if list_ex (\<lambda>b. b \<noteq> 0) m then None
            else Some n))"

definition Mask_Size :: "IPMask \<Rightarrow> nat \<times> nat" where
  "Mask_Size m = (case simpleMaskLength m of None \<Rightarrow> (0, 0) | Some n \<Rightarrow> (n, length m * 8))"

definition allFF :: "u8 list \<Rightarrow> bool" where
  "allFF b = list_all (\<lambda>c. c = 255) b"

definition IP_Mask :: "IP \<Rightarrow> IPMask \<Rightarrow> IP" where
  "IP_Mask ip0 mask0 =
     (let mask = (if length mask0 = 16 \<and> length ip0 = 4 \<and> allFF (take 12 mask0)
                  then drop 12 mask0 else mask0);
          ip = (if length mask = 4 \<and> length ip0 = 16 \<and> take 12 ip0 = v4InV6Prefix
                then drop 12 ip0 else ip0)
      in if length ip \<noteq> length mask then [] else map2 (AND) ip mask)"

definition networkNumberAndMask :: "IPNet \<Rightarrow> (IP \<times> IPMask) option" where
  "networkNumberAndMask n =
     (let ip4 = To4 (ipnet_IP n); ip = (if ip4 = [] then ipnet_IP n else ip4);
          m = ipnet_Mask n
      in if ip4 = [] \<and> length ip \<noteq> 16 then None
         else if length m = 4 then (if length ip \<noteq> 4 then None else Some (ip, m))
         else if length m = 16 then Some (ip, if length ip = 4 then drop 12 m else m)
         else None)"

definition IPNet_Contains :: "IPNet \<Rightarrow> IP \<Rightarrow> bool" where
  "IPNet_Contains n ip0 =
     (let ip = (if To4 ip0 \<noteq> [] then To4 ip0 else ip0) in
      case networkNumberAndMask n of
        None \<Rightarrow> length ip = 0
      | Some (nn, m) \<Rightarrow> length ip = length nn \<and> map2 (AND) nn m = map2 (AND) ip m)"

section \<open>Printing\<close>

fun hextets :: "IP \<Rightarrow> nat list" where
  "hextets (a # b # r) = (unat a * 256 + unat b) # hextets r"
| "hextets _ = []"

definition zero_run :: "nat list \<Rightarrow> nat" where
  "zero_run hs = length (takeWhile (\<lambda>h. h = 0) hs)"

text \<open>The first longest run of zero groups, as its start and its end.\<close>

fun longest_run :: "nat \<Rightarrow> nat list \<Rightarrow> nat \<times> nat \<Rightarrow> nat \<times> nat" where
  "longest_run i [] e = e"
| "longest_run i (h # hs) e =
     (let l = zero_run (h # hs) in
      longest_run (Suc i) hs (if snd e - fst e < l then (i, i + l) else e))"

definition print6 :: "nat list \<Rightarrow> string" where
  "print6 hs =
     (let (e0, e1) = longest_run 0 hs (0, 0) in
      if e1 - e0 \<le> 1 then Join (map itox hs) '':''
      else Join (map itox (take e0 hs)) '':'' @ ''::'' @ Join (map itox (drop e1 hs)) '':'')"

definition dotted :: "u8 list \<Rightarrow> string" where
  "dotted p = Join (map (\<lambda>b. itod (unat b)) p) ''.''"

definition IP_String :: "IP \<Rightarrow> string" where
  "IP_String ip =
     (if length ip = 0 then ''<nil>''
      else if To4 ip \<noteq> [] then dotted (To4 ip)
      else if length ip \<noteq> 16 then ''?''
      else print6 (hextets ip))"

definition hexbyte :: "u8 \<Rightarrow> string" where
  "hexbyte b = [digit (unat b div 16), digit (unat b mod 16)]"

definition IPMask_String :: "IPMask \<Rightarrow> string" where
  "IPMask_String m = (if m = [] then ''<nil>'' else concat (map hexbyte m))"

definition IPNet_String :: "IPNet \<Rightarrow> string" where
  "IPNet_String n =
     (case networkNumberAndMask n of
        None \<Rightarrow> ''<nil>''
      | Some (nn, m) \<Rightarrow>
          (case simpleMaskLength m of
             None \<Rightarrow> IP_String nn @ ''/'' @ IPMask_String m
           | Some l \<Rightarrow> IP_String nn @ ''/'' @ itod l))"

section \<open>Parsing\<close>

text \<open>\<open>k\<close> decimal bytes separated by dots, with a dot in front of all but the first.\<close>

fun parse_octets :: "nat \<Rightarrow> bool \<Rightarrow> string \<Rightarrow> (u8 list \<times> string) option" where
  "parse_octets 0 first s = Some ([], s)"
| "parse_octets (Suc k) first s =
     (if s = [] then None
      else if \<not> first \<and> hd s \<noteq> CHR ''.'' then None
      else case dtoi (if first then s else tl s) of
             None \<Rightarrow> None
           | Some (n, r) \<Rightarrow>
               if 255 < n then None
               else map_option (\<lambda>(p, t). (of_nat n # p, t)) (parse_octets k False r))"

definition parseIPv4 :: "string \<Rightarrow> IP" where
  "parseIPv4 s =
     (case parse_octets 4 True s of
        Some ([a, b, c, d], []) \<Rightarrow> IPv4 a b c d
      | _ \<Rightarrow> [])"

text \<open>
  \<open>parseIPv6\<close> reads hexadecimal groups until sixteen bytes are filled or the string ends,
  remembers where the ellipsis stood, and lets an IPv4 address stand for the last four bytes.
\<close>

function parse6_loop :: "u8 list \<Rightarrow> nat option \<Rightarrow> string \<Rightarrow> (u8 list \<times> nat option \<times> string) option"
where
  "parse6_loop ip e s =
     (if 16 \<le> length ip then Some (ip, e, s)
      else case xtoi s of
        None \<Rightarrow> None
      | Some (n, r) \<Rightarrow>
          if 65535 < n then None
          else if r \<noteq> [] \<and> hd r = CHR ''.'' then
            (if e = None \<and> length ip \<noteq> 12 then None
             else if 16 < length ip + 4 then None
             else if parseIPv4 s = [] then None
             else Some (ip @ drop 12 (parseIPv4 s), e, []))
          else
            (let ip' = ip @ [of_nat (n div 256), of_nat n] in
             case r of
               [] \<Rightarrow> Some (ip', e, [])
             | [c] \<Rightarrow> None
             | c # d # t \<Rightarrow>
                 if c \<noteq> CHR '':'' then None
                 else if d = CHR '':'' then
                   (if e \<noteq> None then None
                    else if t = [] then Some (ip', Some (length ip'), [])
                    else parse6_loop ip' (Some (length ip')) t)
                 else parse6_loop ip' e (d # t)))"
  by pat_completeness auto
termination
  by (relation "measure (\<lambda>(ip, e, s). 16 - length ip)") auto

declare parse6_loop.simps [simp del]

definition parseIPv6 :: "string \<Rightarrow> IP" where
  "parseIPv6 s =
     (if s = ''::'' then replicate 16 0
      else let start = (if take 2 s = ''::'' then (Some 0, drop 2 s) else (None, s)) in
        case parse6_loop [] (fst start) (snd start) of
          None \<Rightarrow> []
        | Some (ip, e, r) \<Rightarrow>
            if r \<noteq> [] then []
            else if length ip < 16 then
              (case e of
                 None \<Rightarrow> []
               | Some k \<Rightarrow> take k ip @ replicate (16 - length ip) 0 @ drop k ip)
            else if e \<noteq> None then [] else ip)"

definition ParseIP :: "string \<Rightarrow> IP" where
  "ParseIP s = (if parseIPv4 s \<noteq> [] then parseIPv4 s else parseIPv6 s)"

definition ParseCIDR :: "string \<Rightarrow> error + (IP \<times> IPNet)" where
  "ParseCIDR s =
     (case Index s ''/'' of
        None \<Rightarrow> Inl (Foreign ''ParseError'')
      | Some i \<Rightarrow>
          (let addr = take i s; mask = drop (i + 1) s;
               iplen = (if parseIPv4 addr \<noteq> [] then 4 else 16 :: nat);
               ip = (if parseIPv4 addr \<noteq> [] then parseIPv4 addr else parseIPv6 addr)
           in case dtoi mask of
                None \<Rightarrow> Inl (Foreign ''ParseError'')
              | Some (n, r) \<Rightarrow>
                  if ip = [] \<or> r \<noteq> [] \<or> 8 * iplen < n then Inl (Foreign ''ParseError'')
                  else let m = CIDRMask n (8 * iplen) in
                    Inr (ip, \<lparr>ipnet_IP = IP_Mask ip m, ipnet_Mask = m\<rparr>)))"

section \<open>Evaluation\<close>

lemma parse_octets_eval [str_simps]:
  "parse_octets (numeral k) first s =
     (if s = [] then None
      else if \<not> first \<and> hd s \<noteq> CHR ''.'' then None
      else case dtoi (if first then s else tl s) of
             None \<Rightarrow> None
           | Some (n, r) \<Rightarrow>
               if 255 < n then None
               else map_option (\<lambda>(p, t). (of_nat n # p, t)) (parse_octets (pred_numeral k) False r))"
  by (simp add: numeral_eq_Suc)

lemma mask_bytes_eval [str_simps]:
  "mask_bytes (numeral k) ones =
     (if 8 \<le> ones then 255 # mask_bytes (pred_numeral k) (ones - 8)
      else NOT (drop_bit ones 255) # mask_bytes (pred_numeral k) 0)"
  by (simp add: numeral_eq_Suc)

lemma leading_ones_eval [str_simps]:
  "leading_ones (numeral k) v =
     (if v AND 128 \<noteq> 0
      then (let (n, v') = leading_ones (pred_numeral k) (push_bit 1 v) in (Suc n, v'))
      else (0, v))"
  by (simp add: numeral_eq_Suc)

lemmas [str_simps] =
  parseIPv4_def ParseIP_def ParseCIDR_def CIDRMask_def IPv4_def v4InV6Prefix_def To4_def
  IP_Mask_def allFF_def networkNumberAndMask_def Mask_Size_def dotted_def IP_String_def IPNet_String_def
  IPNet_Contains_def

end
