(* ===== verification/NetCommon.thy ===== *)
theory NetCommon
  imports GoNet
begin

unbundle bit_operations_syntax

text \<open>
  \<open>pkg/netutils/common.go\<close>: conversion between IPv4 addresses and 32-bit numbers, the default
  gateway of a subnet, the host's IPv4 networks and the address of a node. The operating
  system's interface list and the resolver are parameters.
\<close>

section \<open>Addresses as numbers\<close>

text \<open>\<open>None\<close> is the panic of indexing the empty slice that \<open>To4\<close> gives for a non-IPv4 address.\<close>

definition IPToUint32 :: "IP \<Rightarrow> u32 option" where
  "IPToUint32 ip =
     (case To4 ip of
        [a, b, c, d] \<Rightarrow>
          Some (push_bit 24 (ucast a) OR push_bit 16 (ucast b) OR push_bit 8 (ucast c) OR ucast d)
      | _ \<Rightarrow> None)"

definition Uint32ToIP :: "u32 \<Rightarrow> IP" where
  "Uint32ToIP u =
     IPv4 (ucast (drop_bit 24 u)) (ucast (drop_bit 16 u)) (ucast (drop_bit 8 u)) (ucast u)"

definition GenerateDefaultGateway :: "IPNet \<Rightarrow> IP option" where
  "GenerateDefaultGateway sna =
     (case To4 (ipnet_IP sna) of
        [a, b, c, d] \<Rightarrow> Some (IPv4 a b c (d OR 1))
      | _ \<Rightarrow> None)"

section \<open>Networks of the host\<close>

record iface =
  iface_Name :: string
  iface_Addrs :: "error + string list"

text \<open>The two nested loops, with the networks and the errors collected so far.\<close>

fun collect_addrs :: "string list \<Rightarrow> IPNet list \<times> error list \<Rightarrow> IPNet list \<times> error list" where
  "collect_addrs [] st = st"
| "collect_addrs (addr # addrs) (nets, errs) =
     (case ParseCIDR addr of
        Inl err \<Rightarrow> collect_addrs addrs (nets, errs @ [err])
      | Inr (ip, ipNet) \<Rightarrow>
          if \<not> IsLoopback ip \<and> To4 ip \<noteq> []
          then collect_addrs addrs (nets @ [ipNet], errs)
          else collect_addrs addrs (nets, errs))"

fun collect_ifaces ::
  "(string \<rightharpoonup> bool) \<Rightarrow> iface list \<Rightarrow> IPNet list \<times> error list \<Rightarrow> IPNet list \<times> error list" where
  "collect_ifaces skip [] st = st"
| "collect_ifaces skip (i # is) (nets, errs) =
     (if get_bool skip (iface_Name i) then collect_ifaces skip is (nets, errs)
      else case iface_Addrs i of
             Inl err \<Rightarrow> collect_ifaces skip is (nets, errs @ [err])
           | Inr addrs \<Rightarrow> collect_ifaces skip is (collect_addrs addrs (nets, errs)))"

definition GetHostIPNetworks ::
  "error + iface list \<Rightarrow> string list \<Rightarrow> IPNet list \<times> error option" where
  "GetHostIPNetworks interfaces skipInterfaces =
     (case interfaces of
        Inl err \<Rightarrow> ([], Some err)
      | Inr ifs \<Rightarrow>
          (let skipMap = fold (\<lambda>n m. m(n \<mapsto> True)) skipInterfaces Map.empty;
               (nets, errs) = collect_ifaces skipMap ifs ([], [])
           in (nets, NewAggregate errs)))"

section \<open>The address of a node\<close>

definition usable_ip :: "IP \<Rightarrow> bool" where
  "usable_ip ip \<longleftrightarrow> \<not> (IsLoopback ip \<or> To4 ip = [])"

text \<open>The first usable address the resolver gives, or \<open>nil\<close>.\<close>

fun first_usable :: "IP list \<Rightarrow> IP" where
  "first_usable [] = []"
| "first_usable (a # as) = (if usable_ip a then a else first_usable as)"

definition GetNodeIP :: "(string \<Rightarrow> error + IP list) \<Rightarrow> string \<Rightarrow> error + string" where
  "GetNodeIP lookupIP nodeName =
     (let obtained =
        (if ParseIP nodeName = [] then
           (case lookupIP nodeName of
              Inl err \<Rightarrow> Inl (Errorf ''Failed to lookup IP address for node %s: %v'' [err])
            | Inr addrs \<Rightarrow> Inr (first_usable addrs))
         else if usable_ip (ParseIP nodeName) then Inr (ParseIP nodeName)
         else Inr [])
      in case obtained of
           Inl err \<Rightarrow> Inl err
         | Inr ip \<Rightarrow>
             if ip = [] \<or> length (IP_String ip) = 0
             then Inl (Errorf ''Failed to obtain IP address from node name: %s'' [])
             else Inr (IP_String ip))"

section \<open>IPv4 addresses as words\<close>

text \<open>
  On IPv4 the byte-wise operations of package \<open>net\<close> are operations on 32-bit words: these
  lemmas carry the whole development over addresses. \<open>v4net\<close> is the shape \<open>ParseCIDR\<close> gives.
\<close>

definition be32 :: "u8 \<Rightarrow> u8 \<Rightarrow> u8 \<Rightarrow> u8 \<Rightarrow> u32" where
  "be32 a b c d =
     push_bit 24 (ucast a) OR push_bit 16 (ucast b) OR push_bit 8 (ucast c) OR ucast d"

definition bytes4 :: "u32 \<Rightarrow> u8 list" where
  "bytes4 u = [ucast (drop_bit 24 u), ucast (drop_bit 16 u), ucast (drop_bit 8 u), ucast u]"

lemma bit_be32: "bit (be32 a b c d) n \<longleftrightarrow>
   (if n < 8 then bit d n else if n < 16 then bit c (n - 8)
    else if n < 24 then bit b (n - 16) else n < 32 \<and> bit a (n - 24))"
  by (auto simp: be32_def bit_simps dest: bit_imp_le_length)

lemma be32_bytes: "be32 (ucast (drop_bit 24 u)) (ucast (drop_bit 16 u)) (ucast (drop_bit 8 u)) (ucast u) = u"
  by (rule bit_word_eqI) (auto simp: bit_be32 bit_simps)

lemma bytes_be32: "bytes4 (be32 a b c d) = [a, b, c, d]"
  unfolding bytes4_def by (intro arg_cong2 [where f = Cons] bit_word_eqI refl) (auto simp: bit_be32 bit_simps dest: bit_imp_le_length)
 
lemma be32_AND: "be32 (a AND a') (b AND b') (c AND c') (d AND d') = be32 a b c d AND be32 a' b' c' d'"
  by (rule bit_word_eqI) (simp add: bit_be32 bit_simps)

lemma be32_inj: "be32 a b c d = be32 a' b' c' d' \<longleftrightarrow> a = a' \<and> b = b' \<and> c = c' \<and> d = d'"
proof
  assume "be32 a b c d = be32 a' b' c' d'"
  then have "bytes4 (be32 a b c d) = bytes4 (be32 a' b' c' d')" by simp
  then show "a = a' \<and> b = b' \<and> c = c' \<and> d = d'" by (simp only: bytes_be32 list.inject)
qed simp

lemma length_4: "length xs = 4 \<Longrightarrow> \<exists>a b c d. xs = [a, b, c, d]"
  by (auto simp: numeral_eq_Suc length_Suc_conv)

lemma To4_IPv4: "To4 (IPv4 a b c d) = [a, b, c, d]"
  by (simp add: To4_def IPv4_def v4InV6Prefix_def)

lemma To4_cases: "To4 ip = [] \<or> (\<exists>a b c d. To4 ip = [a, b, c, d])"
  by (auto simp: To4_def length_4)


lemma le_32_cases:
  assumes "n \<le> 32" and "list_all P [0, 1, 2, 3, 4, 5, 6, 7, 8, 9, 10, 11, 12, 13, 14, 15, 16,
     17, 18, 19, 20, 21, 22, 23, 24, 25, 26, 27, 28, 29, 30, 31, 32 :: nat]"
  shows "P n"
proof -
  have "[0..<33] = [0, 1, 2, 3, 4, 5, 6, 7, 8, 9, 10, 11, 12, 13, 14, 15, 16,
     17, 18, 19, 20, 21, 22, 23, 24, 25, 26, 27, 28, 29, 30, 31, 32]" by code_simp
  then have "list_all P [0..<33]" using assms(2) by (simp only:)
  with assms(1) show ?thesis by (simp add: list_all_iff)
qed

lemma simpleMaskLength_CIDRMask: "n \<le> 32 \<Longrightarrow> simpleMaskLength (CIDRMask n 32) = Some n"
  by (erule le_32_cases) (simp only: list.pred_inject, simp add: str_simps)

lemma ucast_m1: "ucast (- 1 :: u32) = (255 :: u8)"
proof -
  have "ucast (- 1 :: u32) = (- 1 :: u8)" by (rule bit_word_eqI) (simp add: bit_simps)
  then show ?thesis by simp
qed

lemma CIDRMask_bytes: "n \<le> 32 \<Longrightarrow> CIDRMask n 32 = bytes4 (NOT (mask (32 - n)))"
  by (erule le_32_cases)
    (simp only: list.pred_inject, simp add: str_simps bytes4_def mask_numeral ucast_m1)

lemma bytes4_inj [simp]: "bytes4 u = bytes4 v \<longleftrightarrow> u = v"
proof
  let ?f = "\<lambda>w. be32 (ucast (drop_bit 24 w)) (ucast (drop_bit 16 w)) (ucast (drop_bit 8 w)) (ucast w)"
  assume "bytes4 u = bytes4 v"
  then have "?f u = ?f v" by (simp only: bytes4_def list.inject)
  then show "u = v" by (simp only: be32_bytes)
qed simp

lemma bytes4_length [simp]: "length (bytes4 u) = 4"
  by (simp add: bytes4_def)

lemma bytes4_not_Nil [simp]: "bytes4 u \<noteq> []"
  by (simp add: bytes4_def)

lemma map2_bytes4 [simp]: "map2 (AND) (bytes4 u) (bytes4 v) = bytes4 (u AND v)"
  by (simp add: bytes4_def unsigned_and_eq)

lemma To4_Uint32ToIP [simp]: "To4 (Uint32ToIP u) = bytes4 u"
  by (simp add: Uint32ToIP_def To4_IPv4 bytes4_def)

lemma To4_bytes4 [simp]: "To4 (bytes4 u) = bytes4 u"
  by (simp add: To4_def)

lemma IPToUint32_bytes4: "To4 ip = bytes4 u \<Longrightarrow> IPToUint32 ip = Some u"
  using be32_bytes [of u] by (simp add: IPToUint32_def bytes4_def be32_def)

lemma IPToUint32_Some_iff: "IPToUint32 ip = Some u \<longleftrightarrow> To4 ip = bytes4 u"
proof (cases "To4 ip = []")
  case False
  then obtain a b c d where "To4 ip = [a, b, c, d]" using To4_cases by blast
  then have "To4 ip = bytes4 (be32 a b c d)" by (simp add: bytes_be32)
  with IPToUint32_bytes4 show ?thesis by fastforce
qed (simp add: IPToUint32_def bytes4_not_Nil [symmetric])

lemma IPToUint32_Uint32ToIP: "IPToUint32 (Uint32ToIP u) = Some u"
  by (simp add: IPToUint32_Some_iff)

lemma IPToUint32_None_iff: "IPToUint32 ip = None \<longleftrightarrow> To4 ip = []"
  using To4_cases [of ip] by (auto simp: IPToUint32_def)

definition v4net :: "u32 \<Rightarrow> nat \<Rightarrow> IPNet" where
  "v4net base s = \<lparr>ipnet_IP = bytes4 base, ipnet_Mask = CIDRMask s 32\<rparr>"

lemma Contains_v4:
  assumes "s \<le> 32" and "To4 (ipnet_IP n) = bytes4 base" and "ipnet_Mask n = CIDRMask s 32"
  shows "IPNet_Contains n ip \<longleftrightarrow>
    (\<exists>u. IPToUint32 ip = Some u \<and> base AND NOT (mask (32 - s)) = u AND NOT (mask (32 - s)))"
proof -
  have nm: "networkNumberAndMask n = Some (bytes4 base, bytes4 (NOT (mask (32 - s))))"
    using assms by (simp add: networkNumberAndMask_def CIDRMask_bytes)
  show ?thesis
  proof (cases "IPToUint32 ip")
    case None
    then have "To4 ip = []" by (simp add: IPToUint32_None_iff)
    moreover from this have "length ip \<noteq> 4" by (auto simp: To4_def)
    ultimately show ?thesis using None nm by (simp add: IPNet_Contains_def)
  next
    case (Some u)
    then have "To4 ip = bytes4 u" by (simp add: IPToUint32_Some_iff)
    with Some nm show ?thesis by (simp add: IPNet_Contains_def)
  qed
qed

lemma String_v4:
  assumes "s \<le> 32" and "To4 (ipnet_IP n) = bytes4 base" and "ipnet_Mask n = CIDRMask s 32"
  shows "IPNet_String n = dotted (bytes4 base) @ ''/'' @ itod s"
proof -
  have "networkNumberAndMask n = Some (bytes4 base, CIDRMask s 32)"
    using assms by (simp add: networkNumberAndMask_def CIDRMask_bytes)
  then show ?thesis using assms(1)
    by (simp add: IPNet_String_def IP_String_def simpleMaskLength_CIDRMask)
qed

lemma dtoi_byte:
  "no_digit rest \<Longrightarrow> dtoi (itod (unat (b :: u8)) @ rest) = Some (unat b, rest)"
  using unsigned_less [of b, where ?'a = nat] by (intro dtoi_itod) (simp_all add: big_def)

lemma parse_dotted: "parseIPv4 (dotted [a, b, c, d]) = IPv4 a b c d"
proof -
  have l: "\<not> 255 < unat (x :: u8)" for x using unsigned_less [of x, where ?'a = nat] by simp
  have n: "no_digit (CHR ''.'' # s)" "no_digit []" for s by (simp_all add: no_digit_def is_digit_def)
  have "parse_octets 4 True (dotted [a, b, c, d]) = Some ([a, b, c, d], [])"
    using dtoi_byte [of "[]" d] l n
    by (simp add: dotted_def parse_octets_eval dtoi_byte)
  then show ?thesis by (simp add: parseIPv4_def)
qed

lemma slash_not_digit: "CHR ''/'' \<notin> set (itod n)"
  using itod_digits [of "CHR ''/''" n] by (auto simp: is_digit_def)

lemma IP_Mask_v4: "s \<le> 32 \<Longrightarrow> IP_Mask (Uint32ToIP u) (CIDRMask s 32) = bytes4 (u AND NOT (mask (32 - s)))"
  by (simp add: IP_Mask_def CIDRMask_bytes Uint32ToIP_def IPv4_def v4InV6Prefix_def)
    (simp add: bytes4_def unsigned_and_eq)

lemma ParseCIDR_v4:
  assumes "s \<le> 32"
  shows "ParseCIDR (dotted (bytes4 u) @ ''/'' @ itod s) =
    Inr (Uint32ToIP u, v4net (u AND NOT (mask (32 - s))) s)"
proof -
  let ?d = "dotted (bytes4 u)"
  have "CHR ''/'' \<notin> set ?d" using slash_not_digit by (auto simp: dotted_def bytes4_def)
  then have i: "Index (?d @ ''/'' @ itod s) ''/'' = Some (length ?d)"
    by (simp add: Index_single)
  have p: "parseIPv4 ?d = Uint32ToIP u" by (simp add: bytes4_def parse_dotted Uint32ToIP_def)
  have nn: "Uint32ToIP u \<noteq> []" by (simp add: Uint32ToIP_def IPv4_def)
  have "dtoi (itod s @ []) = Some (s, [])" using assms by (intro dtoi_itod) (simp_all add: big_def no_digit_def)
  with i p nn assms show ?thesis by (simp add: ParseCIDR_def IP_Mask_v4 v4net_def)
qed

section \<open>Properties\<close>

text \<open>
  The two conversions are inverse to each other on IPv4 addresses, in either of the two
  representations an IPv4 address has, and \<open>IPToUint32\<close> panics exactly on the other addresses.
\<close>

lemma IPToUint32_roundtrip:
  "IPToUint32 (Uint32ToIP u) = Some u
   \<and> (IPToUint32 ip = None \<longleftrightarrow> To4 ip = [])
   \<and> (IPToUint32 ip = Some v \<longleftrightarrow> To4 ip \<noteq> [] \<and> To4 ip = To4 (Uint32ToIP v))"
  using IPToUint32_Some_iff [of ip v] bytes4_not_Nil [of v, THEN not_sym]
  by (auto simp: IPToUint32_Uint32ToIP IPToUint32_None_iff)

text \<open>What \<open>GetHostIPNetworks\<close> should give: a filter over all the addresses.\<close>

definition addr_net :: "string \<Rightarrow> IPNet option" where
  "addr_net addr =
     (case ParseCIDR addr of
        Inl err \<Rightarrow> None
      | Inr (ip, n) \<Rightarrow> if usable_ip ip then Some n else None)"

definition addr_error :: "string \<Rightarrow> error option" where
  "addr_error addr = (case ParseCIDR addr of Inl err \<Rightarrow> Some err | Inr p \<Rightarrow> None)"

definition iface_nets :: "iface \<Rightarrow> IPNet list" where
  "iface_nets i = (case iface_Addrs i of Inl err \<Rightarrow> [] | Inr addrs \<Rightarrow> List.map_filter addr_net addrs)"

definition iface_errors :: "iface \<Rightarrow> error list" where
  "iface_errors i =
     (case iface_Addrs i of Inl err \<Rightarrow> [err] | Inr addrs \<Rightarrow> List.map_filter addr_error addrs)"

lemma collect_addrs_filter:
  "collect_addrs addrs (nets, errs) =
     (nets @ List.map_filter addr_net addrs, errs @ List.map_filter addr_error addrs)"
  by (induction addrs arbitrary: nets errs)
    (auto simp: List.map_filter_simps addr_net_def addr_error_def usable_ip_def split: sum.splits)

lemma collect_ifaces_filter:
  "collect_ifaces skip ifs (nets, errs) =
     (nets @ concat (map iface_nets (filter (\<lambda>i. \<not> get_bool skip (iface_Name i)) ifs)),
      errs @ concat (map iface_errors (filter (\<lambda>i. \<not> get_bool skip (iface_Name i)) ifs)))"
  by (induction ifs arbitrary: nets errs)
    (auto simp: iface_nets_def iface_errors_def collect_addrs_filter split: sum.splits)

lemma get_bool_marks: "get_bool (fold (\<lambda>n m. m(n \<mapsto> True)) ns m) k \<longleftrightarrow> k \<in> set ns \<or> get_bool m k"
  by (induction ns arbitrary: m) auto

text \<open>
  \<open>GetHostIPNetworks\<close> gives the networks of exactly the IPv4 addresses, loopback excepted, of
  the interfaces that are not to be skipped, in the order of the interfaces, and goes on past an
  interface or an address it cannot read; it reports an error exactly when there was such a one.
\<close>

lemma GetHostIPNetworks_filter:
  "GetHostIPNetworks (Inr ifs) skip =
     (let kept = filter (\<lambda>i. iface_Name i \<notin> set skip) ifs in
        (concat (map iface_nets kept), NewAggregate (concat (map iface_errors kept))))
   \<and> GetHostIPNetworks (Inl err) skip = ([], Some err)"
  by (simp add: GetHostIPNetworks_def collect_ifaces_filter get_bool_marks Let_def)

lemma usable_ip_String:
  assumes "usable_ip ip"
  shows "IP_String ip \<noteq> [] \<and> ip \<noteq> [] \<and> To4 (ParseIP (IP_String ip)) = To4 ip"
proof -
  obtain a b c d where t: "To4 ip = [a, b, c, d]" using assms To4_cases [of ip] by (auto simp: usable_ip_def)
  then have s: "IP_String ip = dotted [a, b, c, d]"
    by (auto simp: IP_String_def To4_def)
  have "ParseIP (dotted [a, b, c, d]) = IPv4 a b c d"
    by (simp add: ParseIP_def parse_dotted IPv4_def)
  moreover have "ip \<noteq> []" using t by (auto simp: To4_def)
  ultimately show ?thesis using s t by (simp add: To4_IPv4 dotted_def)
qed

lemma first_usable_iff:
  "first_usable addrs = ip \<and> ip \<noteq> [] \<longleftrightarrow>
     (\<exists>as bs. addrs = as @ ip # bs \<and> usable_ip ip \<and> (\<forall>a\<in>set as. \<not> usable_ip a))"
proof (induction addrs)
  case (Cons a addrs)
  show ?case
  proof (cases "usable_ip a")
    case True
    then show ?thesis using usable_ip_String [OF True]
      by (auto simp: Cons_eq_append_conv)
  next
    case False
    have "a # addrs = as @ ip # bs \<and> usable_ip ip \<and> (\<forall>x\<in>set as. \<not> usable_ip x) \<longleftrightarrow>
        (\<exists>as'. as = a # as' \<and> addrs = as' @ ip # bs \<and> usable_ip ip \<and> (\<forall>x\<in>set as'. \<not> usable_ip x))"
      for as bs using False by (cases as) auto
    then show ?thesis using Cons False by simp blast
  qed
qed simp

definition node_addr :: "(string \<Rightarrow> error + IP list) \<Rightarrow> string \<Rightarrow> IP \<Rightarrow> bool" where
  "node_addr lookupIP name ip \<longleftrightarrow>
     (if ParseIP name = []
      then (\<exists>as bs. lookupIP name = Inr (as @ ip # bs) \<and> (\<forall>a\<in>set as. \<not> usable_ip a))
      else ip = ParseIP name)
     \<and> usable_ip ip"

lemma GetNodeIP_Inr_iff:
  "GetNodeIP lookupIP name = Inr s \<longleftrightarrow> (\<exists>ip. node_addr lookupIP name ip \<and> s = IP_String ip)"
proof (cases "ParseIP name = []")
  case True
  show ?thesis
  proof (cases "lookupIP name")
    case (Inl e)
    with True show ?thesis by (simp add: GetNodeIP_def node_addr_def)
  next
    case (Inr addrs)
    show ?thesis
    proof (cases "first_usable addrs = []")
      case none: True
      have "\<not> node_addr lookupIP name ip" for ip
        using first_usable_iff [of addrs ip] none True Inr usable_ip_String [of ip]
        by (auto simp: node_addr_def)
      then show ?thesis using True Inr none by (simp add: GetNodeIP_def)
    next
      case False
      then obtain as bs where "addrs = as @ first_usable addrs # bs" "usable_ip (first_usable addrs)"
          "\<forall>a\<in>set as. \<not> usable_ip a"
        using first_usable_iff [of addrs "first_usable addrs"] by blast
      then have ok: "node_addr lookupIP name (first_usable addrs)"
        using True Inr by (auto simp: node_addr_def)
      have uniq: "ip = first_usable addrs" if "node_addr lookupIP name ip" for ip
        using first_usable_iff [of addrs ip] that True Inr by (auto simp: node_addr_def)
      have "GetNodeIP lookupIP name = Inr (IP_String (first_usable addrs))"
        unfolding GetNodeIP_def Let_def if_P [OF True] Inr sum.case
        using False usable_ip_String [of "first_usable addrs"] ok [unfolded node_addr_def, THEN conjunct2]
        by simp
      with ok uniq show ?thesis by (metis sum.inject(2))
    qed
  qed
next
  case False
  have "node_addr lookupIP name ip \<longleftrightarrow> ip = ParseIP name \<and> usable_ip (ParseIP name)" for ip
    using False by (auto simp: node_addr_def)
  moreover have "GetNodeIP lookupIP name = Inr s \<longleftrightarrow> usable_ip (ParseIP name) \<and> s = IP_String (ParseIP name)"
    using False usable_ip_String [of "ParseIP name"] by (simp add: GetNodeIP_def) metis
  ultimately show ?thesis by auto
qed

text \<open>
  \<open>GetNodeIP\<close> succeeds exactly when the name is itself an IPv4 address that is not loopback or
  the resolver gives one for it, and the string it returns is then the dotted form of the first
  such address, which parses back to it.
\<close>

lemma GetNodeIP_spec:
  "(GetNodeIP lookupIP name = Inr s \<longleftrightarrow> (\<exists>ip. node_addr lookupIP name ip \<and> s = IP_String ip))
   \<and> (GetNodeIP lookupIP name = Inr s \<longrightarrow> (\<exists>ip. usable_ip ip \<and> To4 (ParseIP s) = To4 ip))"
  using GetNodeIP_Inr_iff [of lookupIP name s] usable_ip_String by (fastforce simp: node_addr_def)

lemma GetNodeIP_spec_witness:
  "\<exists>ip. usable_ip ip \<and> To4 (ParseIP ''10.0.0.7'') = To4 ip"
proof -
  have "ParseIP ''node'' = []" by code_simp
  then have "GetNodeIP (\<lambda>n. Inr [IPv4 127 0 0 1, IPv4 10 0 0 7]) ''node'' = Inr ''10.0.0.7''"
    by (simp add: GetNodeIP_def usable_ip_def IsLoopback_def IP_Equal_def IPv6loopback_def str_simps)
  with GetNodeIP_spec [of "\<lambda>n. Inr [IPv4 127 0 0 1, IPv4 10 0 0 7]" "''node''" "''10.0.0.7''"]
  show ?thesis by simp
qed

end
