(* ===== verification/Api.thy ===== *)
theory Api
  imports NetCommon
begin

text \<open>
  The objects the program exchanges with the API server, with the fields it reads or writes,
  and the interface of the client. The objects and the clients come from packages outside the
  repository: a client is a record of calls on an unknown world \<open>'w\<close> (the server, the network
  and everybody else who uses them), and each call returns a result or an error and the world
  after it. Nothing is assumed about a client unless a theorem says so.
\<close>

section \<open>Objects\<close>

record HostSubnet =
  hs_Name :: string
  hs_UID :: string
  hs_Host :: string
  hs_HostIP :: string
  hs_Subnet :: string

record NetNamespace =
  nn_Name :: string
  nn_NetName :: string
  nn_NetID :: u64

record ClusterNetwork =
  cn_Name :: string
  cn_Network :: string
  cn_HostSubnetLength :: int
  cn_ServiceNetwork :: string
  cn_PluginName :: string

record ServicePort =
  sp_Protocol :: string
  sp_Port :: int

record Service =
  svc_Name :: string
  svc_Namespace :: string
  svc_UID :: string
  svc_ClusterIP :: string
  svc_Ports :: "ServicePort list"

datatype PodPhase = PodPending | PodRunning | PodSucceeded | PodFailed | PodUnknown

text \<open>
  A container is its security context, a pointer that may be nil (\<open>None\<close>), to the flag
  \<open>Privileged\<close>, which may be nil as well. The container statuses are their container ids.
\<close>

record Pod =
  pod_Name :: string
  pod_Namespace :: string
  pod_UID :: string
  pod_Annotations :: "string \<rightharpoonup> string"
  pod_Containers :: "bool option option list"
  pod_Phase :: PodPhase
  pod_PodIP :: string
  pod_ContainerIDs :: "string list"

record Node =
  node_Name :: string
  node_UID :: string
  node_Addresses :: "string list"

text \<open>The subsets of an \<open>Endpoints\<close> object are the lists of the addresses they hold.\<close>

record Endpoints =
  ep_Name :: string
  ep_Namespace :: string
  ep_Subsets :: "string list list"

section \<open>Clients\<close>

type_synonym ('w, 'a) call = "'w \<Rightarrow> (error + 'a) \<times> 'w"

record 'w api =
  HostSubnets_List :: "('w, HostSubnet list) call"
  HostSubnets_Get :: "string \<Rightarrow> ('w, HostSubnet) call"
  HostSubnets_Create :: "HostSubnet \<Rightarrow> ('w, HostSubnet) call"
  HostSubnets_Update :: "HostSubnet \<Rightarrow> ('w, HostSubnet) call"
  HostSubnets_Delete :: "string \<Rightarrow> ('w, unit) call"
  NetNamespaces_List :: "('w, NetNamespace list) call"
  NetNamespaces_Get :: "string \<Rightarrow> ('w, NetNamespace) call"
  NetNamespaces_Create :: "NetNamespace \<Rightarrow> ('w, NetNamespace) call"
  NetNamespaces_Update :: "NetNamespace \<Rightarrow> ('w, NetNamespace) call"
  NetNamespaces_Delete :: "string \<Rightarrow> ('w, unit) call"
  ClusterNetwork_Get :: "string \<Rightarrow> ('w, ClusterNetwork) call"
  ClusterNetwork_Create :: "ClusterNetwork \<Rightarrow> ('w, ClusterNetwork) call"
  ClusterNetwork_Update :: "ClusterNetwork \<Rightarrow> ('w, ClusterNetwork) call"
  Pods_List :: "string \<Rightarrow> (string \<times> string) list \<Rightarrow> ('w, Pod list) call"
  Services_List :: "string \<Rightarrow> ('w, Service list) call"
  IsServiceIPSet :: "Service \<Rightarrow> bool"

text \<open>\<open>kapi.NamespaceAll\<close> and \<open>osapi.ClusterNetworkDefault\<close> as their packages declare them.\<close>

definition NamespaceAll :: string where
  "NamespaceAll = ''''"

definition ClusterNetworkDefault :: string where
  "ClusterNetworkDefault = ''default''"

definition err_of :: "error + 'a \<Rightarrow> error option" where
  "err_of r = (case r of Inl e \<Rightarrow> Some e | Inr x \<Rightarrow> None)"

lemma err_of_simps [simp]: "err_of (Inl e) = Some e" "err_of (Inr x) = None"
  by (simp_all add: err_of_def)

section \<open>Events\<close>

text \<open>
  What \<open>Pop\<close> of an event queue gives. When it gives an error the watch function returns, and
  \<open>utilwait.Forever\<close> calls it again, with fresh local variables.
\<close>

datatype event_type = Added | Modified | Deleted | OtherType

datatype 'o event = Event event_type 'o | QueueFailed error

section \<open>Helpers on pods\<close>

text \<open>\<open>plugins/osdn/common.go\<close>.\<close>

definition getPodContainerID :: "Pod \<Rightarrow> string" where
  "getPodContainerID pod =
     (case pod_ContainerIDs pod of
        [] \<Rightarrow> ''''
      | cid # _ \<Rightarrow>
          (let parts = Split cid ''://''
           in if length parts > 1 then parts ! 1 else ''''))"

end
