(* ===== verification/Registry.thy ===== *)
theory Registry
  imports Api
begin

text \<open>
  \<open>plugins/osdn/registry.go\<close>: the objects of the API server as the plugin uses them. The state of
  a registry is its cache of the network configuration. Operations take the client, and give
  back the cache, where they may set it, and the world.
\<close>

section \<open>State\<close>

record NetworkInfo =
  ni_ClusterNetwork :: IPNet
  ni_ServiceNetwork :: IPNet
  ni_HostSubnetLength :: int
  ni_PluginName :: string

record Registry =
  reg_NetworkInfo :: "NetworkInfo option"

definition newRegistry :: Registry where
  "newRegistry = \<lparr>reg_NetworkInfo = None\<rparr>"

section \<open>Host subnets\<close>

definition GetSubnets :: "'w api \<Rightarrow> ('w, HostSubnet list) call" where
  "GetSubnets api = HostSubnets_List api"

definition GetSubnet :: "'w api \<Rightarrow> string \<Rightarrow> ('w, HostSubnet) call" where
  "GetSubnet api nodeName = HostSubnets_Get api nodeName"

definition DeleteSubnet :: "'w api \<Rightarrow> string \<Rightarrow> 'w \<Rightarrow> error option \<times> 'w" where
  "DeleteSubnet api nodeName w = map_prod err_of id (HostSubnets_Delete api nodeName w)"

definition CreateSubnet :: "'w api \<Rightarrow> string \<Rightarrow> string \<Rightarrow> string \<Rightarrow> ('w, HostSubnet) call" where
  "CreateSubnet api nodeName nodeIP subnetCIDR =
     HostSubnets_Create api
       \<lparr>hs_Name = nodeName, hs_UID = '''', hs_Host = nodeName, hs_HostIP = nodeIP, hs_Subnet = subnetCIDR\<rparr>"

definition UpdateSubnet :: "'w api \<Rightarrow> HostSubnet \<Rightarrow> ('w, HostSubnet) call" where
  "UpdateSubnet api hs = HostSubnets_Update api hs"

section \<open>Pods\<close>

definition GetAllPods :: "'w api \<Rightarrow> ('w, Pod list) call" where
  "GetAllPods api = Pods_List api NamespaceAll []"

definition GetRunningPods :: "'w api \<Rightarrow> string \<Rightarrow> string \<Rightarrow> ('w, Pod list) call" where
  "GetRunningPods api nodeName namespace w =
     (case Pods_List api namespace [(''spec.host'', nodeName)] w of
        (Inl err, w1) \<Rightarrow> (Inl err, w1)
      | (Inr items, w1) \<Rightarrow> (Inr (filter (\<lambda>pod. pod_Phase pod = PodRunning) items), w1))"

text \<open>\<open>None\<close> inside the result is the nil pointer for no pod of that name.\<close>

definition GetPod :: "'w api \<Rightarrow> string \<Rightarrow> string \<Rightarrow> string \<Rightarrow> ('w, Pod option) call" where
  "GetPod api nodeName namespace podName w =
     (case Pods_List api namespace [(''spec.host'', nodeName)] w of
        (Inl err, w1) \<Rightarrow> (Inl err, w1)
      | (Inr items, w1) \<Rightarrow> (Inr (find (\<lambda>pod. pod_Name pod = podName) items), w1))"

section \<open>The cluster network\<close>

definition UpdateClusterNetwork :: "'w api \<Rightarrow> NetworkInfo \<Rightarrow> 'w \<Rightarrow> error option \<times> 'w" where
  "UpdateClusterNetwork api ni w =
     (case ClusterNetwork_Get api ClusterNetworkDefault w of
        (Inl err, w1) \<Rightarrow> (Some err, w1)
      | (Inr cn, w1) \<Rightarrow>
          map_prod err_of id (ClusterNetwork_Update api
            (cn\<lparr>cn_Network := IPNet_String (ni_ClusterNetwork ni),
                cn_HostSubnetLength := ni_HostSubnetLength ni,
                cn_ServiceNetwork := IPNet_String (ni_ServiceNetwork ni),
                cn_PluginName := ni_PluginName ni\<rparr>) w1))"

definition CreateClusterNetwork :: "'w api \<Rightarrow> NetworkInfo \<Rightarrow> 'w \<Rightarrow> error option \<times> 'w" where
  "CreateClusterNetwork api ni w =
     map_prod err_of id (ClusterNetwork_Create api
       \<lparr>cn_Name = ClusterNetworkDefault,
        cn_Network = IPNet_String (ni_ClusterNetwork ni),
        cn_HostSubnetLength = ni_HostSubnetLength ni,
        cn_ServiceNetwork = IPNet_String (ni_ServiceNetwork ni),
        cn_PluginName = ni_PluginName ni\<rparr> w)"

definition validateClusterNetwork ::
  "string \<Rightarrow> int \<Rightarrow> string \<Rightarrow> string \<Rightarrow> error + NetworkInfo" where
  "validateClusterNetwork network hostSubnetLength serviceNetwork pluginName =
     (case ParseCIDR network of
        Inl err \<Rightarrow> Inl (Errorf ''Failed to parse ClusterNetwork CIDR %s: %v'' [err])
      | Inr (_, cn) \<Rightarrow>
         (case ParseCIDR serviceNetwork of
            Inl err \<Rightarrow> Inl (Errorf ''Failed to parse ServiceNetwork CIDR %s: %v'' [err])
          | Inr (_, sn) \<Rightarrow>
              if hostSubnetLength \<le> 0 \<or> hostSubnetLength > 32
              then Inl (Errorf ''Invalid HostSubnetLength %d (not between 1 and 32)'' [])
              else Inr \<lparr>ni_ClusterNetwork = cn, ni_ServiceNetwork = sn,
                        ni_HostSubnetLength = hostSubnetLength, ni_PluginName = pluginName\<rparr>))"

definition GetNetworkInfo :: "'w api \<Rightarrow> Registry \<Rightarrow> 'w \<Rightarrow> (error + NetworkInfo) \<times> Registry \<times> 'w" where
  "GetNetworkInfo api registry w =
     (case reg_NetworkInfo registry of
        Some ni \<Rightarrow> (Inr ni, registry, w)
      | None \<Rightarrow>
          (case ClusterNetwork_Get api ClusterNetworkDefault w of
             (Inl err, w1) \<Rightarrow> (Inl err, registry, w1)
           | (Inr cn, w1) \<Rightarrow>
               (case validateClusterNetwork (cn_Network cn) (cn_HostSubnetLength cn)
                       (cn_ServiceNetwork cn) (cn_PluginName cn) of
                  Inl err \<Rightarrow> (Inl err, registry\<lparr>reg_NetworkInfo := None\<rparr>, w1)
                | Inr ni \<Rightarrow> (Inr ni, registry\<lparr>reg_NetworkInfo := Some ni\<rparr>, w1))))"

section \<open>Network namespaces\<close>

definition GetNetNamespaces :: "'w api \<Rightarrow> ('w, NetNamespace list) call" where
  "GetNetNamespaces api = NetNamespaces_List api"

definition GetNetNamespace :: "'w api \<Rightarrow> string \<Rightarrow> ('w, NetNamespace) call" where
  "GetNetNamespace api name = NetNamespaces_Get api name"

definition WriteNetNamespace :: "'w api \<Rightarrow> string \<Rightarrow> u64 \<Rightarrow> 'w \<Rightarrow> error option \<times> 'w" where
  "WriteNetNamespace api name netid w =
     map_prod err_of id
       (NetNamespaces_Create api \<lparr>nn_Name = name, nn_NetName = name, nn_NetID = netid\<rparr> w)"

definition DeleteNetNamespace :: "'w api \<Rightarrow> string \<Rightarrow> 'w \<Rightarrow> error option \<times> 'w" where
  "DeleteNetNamespace api name w = map_prod err_of id (NetNamespaces_Delete api name w)"

section \<open>Services\<close>

definition getServices :: "'w api \<Rightarrow> string \<Rightarrow> ('w, Service list) call" where
  "getServices api namespace w =
     (case Services_List api namespace w of
        (Inl err, w1) \<Rightarrow> (Inl err, w1)
      | (Inr items, w1) \<Rightarrow> (Inr (filter (IsServiceIPSet api) items), w1))"

definition GetServicesForNamespace :: "'w api \<Rightarrow> string \<Rightarrow> ('w, Service list) call" where
  "GetServicesForNamespace api namespace = getServices api namespace"

definition GetServices :: "'w api \<Rightarrow> ('w, Service list) call" where
  "GetServices api = getServices api NamespaceAll"

section \<open>Event queues\<close>

text \<open>
  The resource an event queue follows: the client it lists and watches with, and the path, which
  is the name in lower case. An unknown resource ends the program (\<open>None\<close>).
\<close>

datatype queue_client = OpenShiftClient | KubernetesClient

definition RunEventQueue :: "string \<Rightarrow> (queue_client \<times> string) option" where
  "RunEventQueue resourceName =
     (let client =
        (if resourceName = ''HostSubnets'' then Some OpenShiftClient
         else if resourceName = ''NetNamespaces'' then Some OpenShiftClient
         else if resourceName = ''Nodes'' then Some KubernetesClient
         else if resourceName = ''Namespaces'' then Some KubernetesClient
         else if resourceName = ''Services'' then Some KubernetesClient
         else if resourceName = ''Pods'' then Some KubernetesClient
         else None)
      in map_option (\<lambda>c. (c, ToLower resourceName)) client)"

section \<open>Validation of a node's address\<close>

definition ValidateNodeIP :: "'w api \<Rightarrow> string \<Rightarrow> Registry \<Rightarrow> 'w \<Rightarrow> error option \<times> Registry \<times> 'w" where
  "ValidateNodeIP api nodeIP registry w =
     (if nodeIP = '''' \<or> nodeIP = ''127.0.0.1''
      then (Some (Errorf ''Invalid node IP %q'' []), registry, w)
      else
        (case GetNetworkInfo api registry w of
           (Inl err, r1, w1) \<Rightarrow> (Some (Errorf ''Failed to get network information: %v'' [err]), r1, w1)
         | (Inr ni, r1, w1) \<Rightarrow>
             (let ipaddr = ParseIP nodeIP in
              if ipaddr = [] then (Some (Errorf ''Failed to parse node IP %s'' []), r1, w1)
              else if IPNet_Contains (ni_ClusterNetwork ni) ipaddr
              then (Some (Errorf ''Node IP %s conflicts with cluster network %s'' []), r1, w1)
              else (None, r1, w1))))"

section \<open>Properties\<close>

text \<open>
  \<open>validateClusterNetwork\<close> accepts exactly two parsable networks with a host subnet length from
  1 to 32, and stores the parsed networks. It does not compare the length with the mask of the
  cluster network: the constructor of the subnet allocator does.
\<close>

lemma validateClusterNetwork_iff:
  "validateClusterNetwork network len serviceNetwork plugin = Inr ni \<longleftrightarrow>
     (\<exists>ip1 cn ip2 sn. ParseCIDR network = Inr (ip1, cn) \<and> ParseCIDR serviceNetwork = Inr (ip2, sn)
        \<and> 1 \<le> len \<and> len \<le> 32
        \<and> ni = \<lparr>ni_ClusterNetwork = cn, ni_ServiceNetwork = sn, ni_HostSubnetLength = len,
                ni_PluginName = plugin\<rparr>)"
  by (auto simp: validateClusterNetwork_def split: sum.splits prod.splits if_splits)

lemma GetNetworkInfo_cached:
  "reg_NetworkInfo registry = Some ni \<Longrightarrow> GetNetworkInfo api registry w = (Inr ni, registry, w)"
  by (simp add: GetNetworkInfo_def)

lemma GetNetworkInfo_caches:
  assumes "GetNetworkInfo api registry w = (r, registry', w')"
  shows "case r of Inl e \<Rightarrow> reg_NetworkInfo registry' = None | Inr ni \<Rightarrow> reg_NetworkInfo registry' = Some ni"
  using assms by (auto simp: GetNetworkInfo_def split: option.splits sum.splits prod.splits)

text \<open>
  A node address is accepted exactly when it is neither empty nor 127.0.0.1, parses, and lies
  outside the cluster network as the registry knows it; the answer depends on the address only
  through the network that was read first, since that is cached.
\<close>

lemma ValidateNodeIP_iff:
  assumes "reg_NetworkInfo registry = Some ni"
  shows "ValidateNodeIP api nodeIP registry w = (e, registry', w') \<longleftrightarrow>
      registry' = registry \<and> w' = w \<and>
      e = (if nodeIP = '''' \<or> nodeIP = ''127.0.0.1'' then Some (Errorf ''Invalid node IP %q'' [])
           else if ParseIP nodeIP = [] then Some (Errorf ''Failed to parse node IP %s'' [])
           else if IPNet_Contains (ni_ClusterNetwork ni) (ParseIP nodeIP)
           then Some (Errorf ''Node IP %s conflicts with cluster network %s'' []) else None)"
  using assms by (auto simp: ValidateNodeIP_def GetNetworkInfo_cached Let_def)

definition sample_network :: NetworkInfo where
  "sample_network =
     \<lparr>ni_ClusterNetwork = \<lparr>ipnet_IP = [10, 1, 0, 0], ipnet_Mask = [255, 255, 0, 0]\<rparr>,
      ni_ServiceNetwork = \<lparr>ipnet_IP = [172, 30, 0, 0], ipnet_Mask = [255, 255, 0, 0]\<rparr>,
      ni_HostSubnetLength = 8, ni_PluginName = ''redhat/openshift-ovs-multitenant''\<rparr>"

lemma ValidateNodeIP_iff_witness:
  "ValidateNodeIP api ''10.1.4.9'' \<lparr>reg_NetworkInfo = Some sample_network\<rparr> w =
     (Some (Errorf ''Node IP %s conflicts with cluster network %s'' []),
      \<lparr>reg_NetworkInfo = Some sample_network\<rparr>, w)
   \<and> ValidateNodeIP api ''192.168.4.9'' \<lparr>reg_NetworkInfo = Some sample_network\<rparr> w =
     (None, \<lparr>reg_NetworkInfo = Some sample_network\<rparr>, w)"
proof -
  have "ParseIP ''10.1.4.9'' = IPv4 10 1 4 9" "ParseIP ''192.168.4.9'' = IPv4 192 168 4 9"
    by (simp_all add: ParseIP_def str_simps)
  then show ?thesis
    by (subst (1 2) ValidateNodeIP_iff [where ni = sample_network])
      (simp_all add: sample_network_def str_simps)
qed

end
