(* ===== verification/VnidMap.thy ===== *)
theory VnidMap
  imports Registry
begin

text \<open>
  The table of virtual network ids by namespace of \<open>plugins/osdn/vnids.go\<close>, which the master and
  every node keep. The Go map is ranged over, so it is an association list; a lookup that fails
  gives an id that is not valid together with the error, as in the source. \<open>WaitAndGetVNID\<close>
  looks up to twenty times while another goroutine may change the table: it takes the table as
  it is at each try.
\<close>

section \<open>The model\<close>

type_synonym vnidMap = "(string \<times> u64) list"

definition MaxVNID :: u64 where
  "MaxVNID = 16777215"

definition AdminVNID :: u64 where
  "AdminVNID = 0"

definition newVnidMap :: vnidMap where
  "newVnidMap = []"

definition vnid_error :: error where
  "vnid_error = Errorf ''Failed to find netid for namespace: %s in vnid map'' []"

definition GetVNID :: "string \<Rightarrow> vnidMap \<Rightarrow> u64 \<times> error option" where
  "GetVNID name vmap =
     (case map_of vmap name of
        Some netid \<Rightarrow> (netid, None)
      | None \<Rightarrow> (MaxVNID + 1, Some vnid_error))"

fun wait_loop :: "nat \<Rightarrow> nat \<Rightarrow> string \<Rightarrow> (nat \<Rightarrow> vnidMap) \<Rightarrow> u64 \<times> error option" where
  "wait_loop i 0 name tries = (MaxVNID + 1, Some vnid_error)"
| "wait_loop i (Suc n) name tries =
     (case GetVNID name (tries i) of
        (netid, None) \<Rightarrow> (netid, None)
      | (_, Some err) \<Rightarrow> wait_loop (Suc i) n name tries)"

definition WaitAndGetVNID :: "string \<Rightarrow> (nat \<Rightarrow> vnidMap) \<Rightarrow> u64 \<times> error option" where
  "WaitAndGetVNID name tries = wait_loop 0 20 name tries"

definition SetVNID :: "string \<Rightarrow> u64 \<Rightarrow> vnidMap \<Rightarrow> vnidMap" where
  "SetVNID name netid vmap = AList.update name netid vmap"

definition UnsetVNID :: "string \<Rightarrow> vnidMap \<Rightarrow> (u64 \<times> error option) \<times> vnidMap" where
  "UnsetVNID name vmap =
     (case map_of vmap name of
        None \<Rightarrow> ((MaxVNID + 1, Some vnid_error), vmap)
      | Some netid \<Rightarrow> ((netid, None), AList.delete name vmap))"

fun CheckVNID :: "u64 \<Rightarrow> vnidMap \<Rightarrow> bool" where
  "CheckVNID netid [] = False"
| "CheckVNID netid ((name, v) # vmap) = (if v = netid then True else CheckVNID netid vmap)"

text \<open>The loop with the ids and the set of those seen so far.\<close>

fun allocated_loop :: "vnidMap \<Rightarrow> u64 list \<Rightarrow> (u64 \<rightharpoonup> bool) \<Rightarrow> u64 list" where
  "allocated_loop [] ids idSet = ids"
| "allocated_loop ((name, netid) # vmap) ids idSet =
     (if netid \<noteq> AdminVNID \<and> \<not> get_bool idSet netid
      then allocated_loop vmap (ids @ [netid]) (idSet(netid \<mapsto> True))
      else allocated_loop vmap ids idSet)"

definition GetAllocatedVNIDs :: "vnidMap \<Rightarrow> u64 list" where
  "GetAllocatedVNIDs vmap = allocated_loop vmap [] Map.empty"

definition PopulateVNIDs :: "'w api \<Rightarrow> vnidMap \<Rightarrow> 'w \<Rightarrow> error option \<times> vnidMap \<times> 'w" where
  "PopulateVNIDs api vmap w =
     (case GetNetNamespaces api w of
        (Inl err, w1) \<Rightarrow> (Some err, vmap, w1)
      | (Inr nets, w1) \<Rightarrow> (None, fold (\<lambda>n. SetVNID (nn_Name n) (nn_NetID n)) nets vmap, w1))"

section \<open>The contract of the table\<close>

text \<open>
  What the master and the nodes rely on, stated over a lookup function: the table is a finite
  map, and the two searches through it are about the values of that map.
\<close>

locale vnid_table =
  fixes look :: "'m \<Rightarrow> string \<rightharpoonup> u64"
    and put :: "string \<Rightarrow> u64 \<Rightarrow> 'm \<Rightarrow> 'm"
    and remove :: "string \<Rightarrow> 'm \<Rightarrow> 'm"
    and check :: "u64 \<Rightarrow> 'm \<Rightarrow> bool"
    and allocated :: "'m \<Rightarrow> u64 list"
    and wf :: "'m \<Rightarrow> bool"
  assumes look_put: "look (put k v m) = (look m)(k \<mapsto> v)"
    and look_remove: "look (remove k m) = (look m)(k := None)"
    and check_iff: "wf m \<Longrightarrow> check v m \<longleftrightarrow> v \<in> ran (look m)"
    and allocated_set: "wf m \<Longrightarrow> set (allocated m) = ran (look m) - {0} \<and> distinct (allocated m)"
    and wf_put: "wf m \<Longrightarrow> wf (put k v m)"
    and wf_remove: "wf m \<Longrightarrow> wf (remove k m)"
begin

text \<open>The question the master asks before it gives an id back.\<close>

lemma last_user:
  assumes "wf m"
  shows "check v (remove k m) \<longleftrightarrow> (\<exists>k'. k' \<noteq> k \<and> look m k' = Some v)"
  using check_iff [OF wf_remove [OF assms]] by (auto simp: look_remove ran_def)

lemma put_all: "look (fold (\<lambda>(k, v). put k v) kvs m) = look m ++ map_of (rev kvs)"
  by (induction kvs arbitrary: m) (auto simp: look_put map_add_def fun_eq_iff split: option.splits)

lemma wf_put_all: "wf m \<Longrightarrow> wf (fold (\<lambda>(k, v). put k v) kvs m)"
  by (induction kvs arbitrary: m) (auto intro: wf_put)

end

definition vnid_wf :: "vnidMap \<Rightarrow> bool" where
  "vnid_wf vmap \<longleftrightarrow> distinct (map fst vmap)"

lemma CheckVNID_iff: "CheckVNID v vmap \<longleftrightarrow> v \<in> snd ` set vmap"
  by (induction vmap) auto

lemma allocated_loop_spec:
  "distinct ids \<Longrightarrow> \<forall>i. get_bool s i \<longleftrightarrow> i \<in> set ids \<Longrightarrow>
     set (allocated_loop vmap ids s) = set ids \<union> (snd ` set vmap - {0}) \<and> distinct (allocated_loop vmap ids s)"
  by (induction vmap ids s rule: allocated_loop.induct) (auto simp: AdminVNID_def)

interpretation vnids: vnid_table map_of SetVNID "\<lambda>k m. snd (UnsetVNID k m)" CheckVNID GetAllocatedVNIDs vnid_wf
proof (unfold_locales, goal_cases)
  case (1 k v m)
  show ?case by (simp add: SetVNID_def)
next
  case (2 k m)
  show ?case by (auto simp: UnsetVNID_def split: option.splits)
next
  case (3 m v)
  then show ?case by (simp add: CheckVNID_iff vnid_wf_def set_snd_map_of)
next
  case (4 m)
  then show ?case using allocated_loop_spec [of "[]" Map.empty m]
    by (simp add: GetAllocatedVNIDs_def vnid_wf_def set_snd_map_of)
next
  case (5 m k v)
  then show ?case by (simp add: SetVNID_def vnid_wf_def distinct_update)
next
  case (6 m k)
  then show ?case by (auto simp: UnsetVNID_def vnid_wf_def distinct_delete split: option.splits)
qed

section \<open>Lemmas\<close>

lemma GetVNID_simps [simp]:
  "snd (GetVNID name vmap) = None \<longleftrightarrow> map_of vmap name \<noteq> None"
  "map_of vmap name = Some i \<Longrightarrow> GetVNID name vmap = (i, None)"
  "map_of vmap name = None \<Longrightarrow> GetVNID name vmap = (MaxVNID + 1, Some vnid_error)"
  by (auto simp: GetVNID_def split: option.splits)

lemma UnsetVNID_simps [simp]:
  "map_of vmap name = Some i \<Longrightarrow> UnsetVNID name vmap = ((i, None), AList.delete name vmap)"
  "map_of vmap name = None \<Longrightarrow> UnsetVNID name vmap = ((MaxVNID + 1, Some vnid_error), vmap)"
  by (simp_all add: UnsetVNID_def)

lemma map_of_SetVNID [simp]: "map_of (SetVNID k v m) = (map_of m)(k \<mapsto> v)"
  by (rule vnids.look_put)

lemma vnid_wf_simps [simp]: "vnid_wf newVnidMap" "vnid_wf m \<Longrightarrow> vnid_wf (SetVNID k v m)"
  "vnid_wf m \<Longrightarrow> vnid_wf (AList.delete k m)"
  by (auto simp: vnid_wf_def newVnidMap_def SetVNID_def distinct_update distinct_delete)

lemma PopulateVNIDs_map:
  assumes "NetNamespaces_List api w = (Inr nets, w1)"
  shows "PopulateVNIDs api vmap w = (None, fold (\<lambda>(k, v). SetVNID k v) (map (\<lambda>n. (nn_Name n, nn_NetID n)) nets) vmap, w1)"
  using assms by (simp add: PopulateVNIDs_def GetNetNamespaces_def fold_map comp_def)

lemma wait_loop_found:
  "j < n \<Longrightarrow> map_of (tries (i + j)) name = Some v \<Longrightarrow> \<forall>l < j. map_of (tries (i + l)) name = None \<Longrightarrow>
     wait_loop i n name tries = (v, None)"
proof (induction n arbitrary: i j)
  case (Suc n)
  show ?case
  proof (cases j)
    case 0
    with Suc.prems show ?thesis by simp
  next
    case (Suc j')
    with Suc.prems(3) have "map_of (tries i) name = None" by (metis add.right_neutral zero_less_Suc)
    moreover have "wait_loop (Suc i) n name tries = (v, None)"
      using Suc.prems Suc by (intro Suc.IH [of j']) auto
    ultimately show ?thesis by simp
  qed
qed simp

lemma wait_loop_not_found:
  "\<forall>j < n. map_of (tries (i + j)) name = None \<Longrightarrow> wait_loop i n name tries = (MaxVNID + 1, Some vnid_error)"
proof (induction n arbitrary: i)
  case (Suc n)
  from Suc.prems have "map_of (tries i) name = None" by (metis add.right_neutral zero_less_Suc)
  moreover have "wait_loop (Suc i) n name tries = (MaxVNID + 1, Some vnid_error)"
    using Suc.prems by (intro Suc.IH) auto
  ultimately show ?case by simp
qed simp

section \<open>Properties\<close>

text \<open>
  \<open>WaitAndGetVNID\<close> returns the id the table holds at the first of the twenty tries at which it
  holds one, whatever is done to the table between the tries, and gives up with an error and an
  id outside the valid range exactly when no try finds one.
\<close>

lemma WaitAndGetVNID_first:
  "(\<forall>j v. j < 20 \<and> map_of (tries j) name = Some v \<and> (\<forall>l < j. map_of (tries l) name = None)
      \<longrightarrow> WaitAndGetVNID name tries = (v, None))
   \<and> ((\<forall>j < 20. map_of (tries j) name = None)
      \<longrightarrow> WaitAndGetVNID name tries = (MaxVNID + 1, Some vnid_error))
   \<and> \<not> MaxVNID + 1 \<le> MaxVNID"
  using wait_loop_found [of _ 20 tries 0 name] wait_loop_not_found [of 20 tries 0 name]
  by (auto simp: WaitAndGetVNID_def MaxVNID_def)

lemma WaitAndGetVNID_first_witness:
  "WaitAndGetVNID ''p'' (\<lambda>i. if i < 3 then [] else [(''p'', 12)]) = (12, None)
   \<and> WaitAndGetVNID ''q'' (\<lambda>i. if i < 3 then [] else [(''p'', 12)]) = (MaxVNID + 1, Some vnid_error)"
proof -
  let ?tries = "\<lambda>i :: nat. if i < 3 then [] else [(''p'', 12)] :: vnidMap"
  have "map_of (?tries 3) ''p'' = Some 12" "\<forall>l < 3. map_of (?tries l) ''p'' = None"
    "\<forall>j < 20. map_of (?tries j) ''q'' = None" by simp_all
  then show ?thesis
    using WaitAndGetVNID_first [of ?tries "''p''", THEN conjunct1, rule_format, of 3 12]
      WaitAndGetVNID_first [of ?tries "''q''", THEN conjunct2, THEN conjunct1] by simp
qed

end
