(* ===== verification/IdPool.thy ===== *)
theory IdPool
  imports Prelude
begin

text \<open>
  The contract the two allocators of \<open>pkg/netutils\<close> share, stated as a locale: a pool of
  identifiers out of a fixed finite universe, an operation that hands out an unused one and
  fails only when every one is used, and an operation that gives one back. The operations
  come in the shape of the models: \<open>None\<close> is a call that panics or never returns, which the
  contract rules out under the invariant. The lemmas on whole sequences of requests are
  proved once here and hold for both allocators.
\<close>

section \<open>Sequences of requests\<close>

datatype 'i pool_op = Get | Release 'i

datatype 'i pool_res = Got 'i | Full error | Released | NotReleased error

type_synonym ('s, 'i) allocf = "'s \<Rightarrow> ((error + 'i) \<times> 's) option"

type_synonym ('s, 'i) releasef = "'i \<Rightarrow> 's \<Rightarrow> error option \<times> 's"

fun pool_step ::
  "('s, 'i) allocf \<Rightarrow> ('s, 'i) releasef \<Rightarrow> 'i pool_op \<Rightarrow> 's \<Rightarrow> ('i pool_res \<times> 's) option" where
  "pool_step al rl Get s =
     (case al s of
        None \<Rightarrow> None
      | Some (Inl e, s') \<Rightarrow> Some (Full e, s')
      | Some (Inr i, s') \<Rightarrow> Some (Got i, s'))"
| "pool_step al rl (Release i) s =
     (case rl i s of (None, s') \<Rightarrow> Some (Released, s') | (Some e, s') \<Rightarrow> Some (NotReleased e, s'))"

fun pool_run ::
  "('s, 'i) allocf \<Rightarrow> ('s, 'i) releasef \<Rightarrow> 'i pool_op list \<Rightarrow> 's \<Rightarrow> ('i pool_res list \<times> 's) option"
where
  "pool_run al rl [] s = Some ([], s)"
| "pool_run al rl (p # ps) s =
     (case pool_step al rl p s of
        None \<Rightarrow> None
      | Some (r, s') \<Rightarrow> map_option (\<lambda>(rs, t). (r # rs, t)) (pool_run al rl ps s'))"

text \<open>
  What the caller of the sequence holds at its end: the keys of the identifiers got and not
  yet released. Two identifiers with one key are one resource under two representations.
\<close>

fun held :: "('i \<Rightarrow> 'k) \<Rightarrow> 'k set \<Rightarrow> 'i pool_op list \<Rightarrow> 'i pool_res list \<Rightarrow> 'k set" where
  "held key H (Get # ps) (Got i # rs) = held key (insert (key i) H) ps rs"
| "held key H (Release i # ps) (Released # rs) = held key (H - {key i}) ps rs"
| "held key H (p # ps) (r # rs) = held key H ps rs"
| "held key H ps rs = H"

text \<open>No identifier is handed out while it is held.\<close>

fun no_double :: "('i \<Rightarrow> 'k) \<Rightarrow> 'k set \<Rightarrow> 'i pool_op list \<Rightarrow> 'i pool_res list \<Rightarrow> bool" where
  "no_double key H (Get # ps) (Got i # rs) =
     (key i \<notin> H \<and> no_double key (insert (key i) H) ps rs)"
| "no_double key H (Release i # ps) (Released # rs) = no_double key (H - {key i}) ps rs"
| "no_double key H (p # ps) (r # rs) = no_double key H ps rs"
| "no_double key H ps rs = True"

text \<open>The identifiers a sequence gives back.\<close>

fun releases :: "'i pool_op list \<Rightarrow> 'i set" where
  "releases [] = {}"
| "releases (Get # ps) = releases ps"
| "releases (Release i # ps) = insert i (releases ps)"

text \<open>\<open>n\<close> requests in a row, none of which may fail.\<close>

fun alloc_many :: "('s, 'i) allocf \<Rightarrow> nat \<Rightarrow> 's \<Rightarrow> ('i list \<times> 's) option" where
  "alloc_many al 0 s = Some ([], s)"
| "alloc_many al (Suc n) s =
     (case al s of
        Some (Inr i, s') \<Rightarrow> map_option (\<lambda>(is, t). (i # is, t)) (alloc_many al n s')
      | _ \<Rightarrow> None)"

section \<open>The contract\<close>

locale id_pool =
  fixes al :: "('s, 'i) allocf"
    and rl :: "('s, 'i) releasef"
    and key :: "'i \<Rightarrow> 'k"
    and wf :: "'i \<Rightarrow> bool"
    and inv :: "'s \<Rightarrow> bool"
    and universe :: "'s \<Rightarrow> 'k set"
    and used :: "'s \<Rightarrow> 'k set"
  assumes finite_universe: "inv s \<Longrightarrow> finite (universe s)"
    and used_universe: "inv s \<Longrightarrow> used s \<subseteq> universe s"
    and al_total: "inv s \<Longrightarrow> al s \<noteq> None"
    and al_ok: "inv s \<Longrightarrow> al s = Some (Inr i, s') \<Longrightarrow>
        wf i \<and> key i \<in> universe s - used s \<and> used s' = insert (key i) (used s)
        \<and> universe s' = universe s \<and> inv s'"
    and al_full: "inv s \<Longrightarrow> al s = Some (Inl e, s') \<Longrightarrow>
        used s = universe s \<and> used s' = used s \<and> universe s' = universe s \<and> inv s'"
    and rl_ok: "inv s \<Longrightarrow> wf i \<Longrightarrow> rl i s = (None, s') \<Longrightarrow>
        (key i \<in> universe s \<longrightarrow> key i \<in> used s) \<and> used s' = used s - {key i}
        \<and> universe s' = universe s \<and> inv s'"
    and rl_err: "inv s \<Longrightarrow> wf i \<Longrightarrow> rl i s = (Some e, s') \<Longrightarrow> key i \<notin> used s \<and> s' = s"
begin

lemma al_succeeds_iff:
  assumes i: "inv s"
  shows "(\<exists>i s'. al s = Some (Inr i, s')) \<longleftrightarrow> used s \<noteq> universe s"
proof -
  obtain r s' where r: "al s = Some (r, s')" using al_total [OF i] by fastforce
  show ?thesis
  proof (cases r)
    case (Inl e)
    with r al_full [OF i] have "used s = universe s" by blast
    with r Inl show ?thesis by simp
  next
    case (Inr j)
    with r al_ok [OF i] have "key j \<in> universe s - used s" by blast
    with r Inr show ?thesis by auto
  qed
qed

lemma rl_succeeds: "inv s \<Longrightarrow> wf i \<Longrightarrow> key i \<in> used s \<Longrightarrow> \<exists>s'. rl i s = (None, s')"
  by (cases "rl i s"; cases "fst (rl i s)") (auto dest: rl_err)

lemma step_total: "inv s \<Longrightarrow> \<exists>r s'. pool_step al rl p s = Some (r, s')"
  using al_total by (cases p) (auto split: option.splits sum.splits prod.splits)

lemma step_inv:
  assumes "inv s" and "\<forall>i\<in>releases [p]. wf i" and "pool_step al rl p s = Some (r, s')"
  shows "inv s' \<and> universe s' = universe s"
  using assms
  by (cases p) (auto split: option.splits sum.splits prod.splits dest: al_ok al_full rl_ok rl_err)

lemma releases_Cons: "releases (p # ps) = releases [p] \<union> releases ps"
  by (cases p) auto

text \<open>Every sequence of requests is answered, one answer for each, and keeps the invariant.\<close>

lemma run_total:
  "inv s \<Longrightarrow> \<forall>i\<in>releases ps. wf i \<Longrightarrow>
     \<exists>rs s'. pool_run al rl ps s = Some (rs, s') \<and> length rs = length ps \<and> inv s'
       \<and> universe s' = universe s"
proof (induction ps arbitrary: s)
  case (Cons p ps)
  from Cons.prems(2) have wf: "\<forall>i\<in>releases [p]. wf i" "\<forall>i\<in>releases ps. wf i"
    by (auto simp: releases_Cons [of p ps])
  from step_total [OF Cons.prems(1)] obtain r s1 where
    st: "pool_step al rl p s = Some (r, s1)" by blast
  with step_inv [OF Cons.prems(1) wf(1)] have "inv s1" "universe s1 = universe s" by blast+
  with Cons.IH [of s1] st wf(2) show ?case by fastforce
qed simp

text \<open>
  Safety over any sequence: what is held is used, and nothing is handed out while it is held.
\<close>

lemma run_held_used:
  assumes "inv s" and "\<forall>i\<in>releases ps. wf i" and "H \<subseteq> used s"
    and "pool_run al rl ps s = Some (rs, s')"
  shows "no_double key H ps rs \<and> held key H ps rs \<subseteq> used s'"
  using assms
proof (induction ps arbitrary: s H rs)
  case (Cons p ps)
  from Cons.prems(2) have wf: "\<forall>i\<in>releases [p]. wf i" "\<forall>i\<in>releases ps. wf i"
    by (auto simp: releases_Cons [of p ps])
  from Cons.prems(4) obtain r s1 rs1 where
    st: "pool_step al rl p s = Some (r, s1)" and
    run: "pool_run al rl ps s1 = Some (rs1, s')" and rs: "rs = r # rs1"
    by (auto split: option.splits)
  have inv1: "inv s1" using step_inv [OF Cons.prems(1) wf(1) st] by blast
  note IH = Cons.IH [OF inv1 wf(2) _ run]
  show ?case
  proof (cases p)
    case Get
    show ?thesis
    proof (cases r)
      case (Got i)
      with Get st have "al s = Some (Inr i, s1)" by (auto split: option.splits sum.splits)
      with al_ok [OF Cons.prems(1)] have "key i \<notin> used s" "used s1 = insert (key i) (used s)"
        by blast+
      with Cons.prems(3) IH [of "insert (key i) H"] show ?thesis using rs Get Got by auto
    next
      case (Full e)
      with Get st have "al s = Some (Inl e, s1)" by (auto split: option.splits sum.splits)
      with al_full [OF Cons.prems(1)] have "used s1 = used s" by blast
      with Cons.prems(3) IH [of H] show ?thesis using rs Get Full by auto
    qed (use Get st in \<open>auto split: option.splits sum.splits\<close>)
  next
    case (Release i)
    with wf(1) have wfi: "wf i" by simp
    obtain e s2 where rl: "rl i s = (e, s2)" by fastforce
    show ?thesis
    proof (cases e)
      case None
      with rl Release st have r: "r = Released" and "s1 = s2" by auto
      with None rl rl_ok [OF Cons.prems(1) wfi] have "used s1 = used s - {key i}" by blast
      with Cons.prems(3) IH [of "H - {key i}"] show ?thesis using rs Release r by auto
    next
      case (Some x)
      with rl Release st have r: "r = NotReleased x" and "s1 = s2" by auto
      with Some rl rl_err [OF Cons.prems(1) wfi] have "s1 = s" by blast
      with Cons.prems(3) IH [of H] show ?thesis using rs Release r by auto
    qed
  qed
qed simp

text \<open>Capacity: the requests that can succeed in a row are as many as there are unused identifiers.\<close>

lemma many_distinct:
  assumes "inv s" and "alloc_many al n s = Some (is, s')"
  shows "distinct (map key is) \<and> length is = n \<and> key ` set is \<subseteq> universe s - used s
    \<and> used s' = used s \<union> key ` set is \<and> universe s' = universe s \<and> inv s'"
  using assms
proof (induction n arbitrary: s "is")
  case (Suc n)
  from Suc.prems(2) obtain i s1 is1 where
    a: "al s = Some (Inr i, s1)" and
    m: "alloc_many al n s1 = Some (is1, s')" and "is": "is = i # is1"
    by (auto split: option.splits sum.splits)
  from al_ok [OF Suc.prems(1) a]
  have f: "key i \<in> universe s" "key i \<notin> used s" "used s1 = insert (key i) (used s)"
    "universe s1 = universe s" "inv s1" by blast+
  from Suc.IH [OF f(5) m] f "is" show ?case by auto
qed simp

lemma many_succeeds_iff:
  assumes "inv s"
  shows "alloc_many al n s \<noteq> None \<longleftrightarrow> n \<le> card (universe s - used s)"
  using assms
proof (induction n arbitrary: s)
  case (Suc n)
  have fin: "finite (universe s)" using finite_universe Suc.prems .
  obtain r s1 where a: "al s = Some (r, s1)" using al_total [OF Suc.prems] by fastforce
  show ?case
  proof (cases r)
    case (Inl e)
    with al_full [OF Suc.prems] a have "universe s - used s = {}" by blast
    then have "card (universe s - used s) = 0" by (simp only: card.empty)
    with a Inl show ?thesis by simp
  next
    case (Inr i)
    with al_ok [OF Suc.prems] a
    have f: "key i \<in> universe s - used s" "used s1 = insert (key i) (used s)"
      "universe s1 = universe s" "inv s1" by blast+
    have "universe s1 - used s1 = (universe s - used s) - {key i}" using f by blast
    then have "card (universe s - used s) = Suc (card (universe s1 - used s1))"
      using f(1) fin card.remove [of "universe s - used s" "key i"] by simp
    with Suc.IH [OF f(4)] a Inr show ?thesis by simp
  qed
qed simp

text \<open>Giving one back makes room again: right after a release a request succeeds.\<close>

lemma release_then_get:
  assumes "inv s" and "wf i" and "key i \<in> used s"
  shows "\<exists>s1 j s2. rl i s = (None, s1) \<and> al s1 = Some (Inr j, s2)"
proof -
  from rl_succeeds [OF assms] obtain s1 where r: "rl i s = (None, s1)" by blast
  with rl_ok [OF assms(1,2)] have f: "used s1 = used s - {key i}" "universe s1 = universe s" "inv s1"
    by blast+
  then have "used s1 \<noteq> universe s1" using assms used_universe by blast
  then obtain j s2 where "al s1 = Some (Inr j, s2)" using al_succeeds_iff [OF f(3)] by blast
  with r show ?thesis by blast
qed

end

end
