(* ===== verification/NetIDAllocator.thy ===== *)
theory NetIDAllocator
  imports IdPool
begin

text \<open>
  \<open>pkg/netutils/netid_allocator.go\<close>: the allocator of virtual network ids. Its state is the
  range and the map of ids taken; \<open>uint\<close> is 64 bits wide, so the loop of \<open>GetNetID\<close>, which
  compares with \<open>i <= max\<close>, does not end when \<open>max\<close> is the largest number and every id is
  taken. The loop is a partial function with \<open>None\<close> for not returning, and it is proved to
  return for every other \<open>max\<close>.
\<close>

section \<open>The model\<close>

record netIDAllocator =
  nia_min :: u64
  nia_max :: u64
  nia_allocMap :: "u64 \<rightharpoonup> bool"

fun mark_in_use ::
  "u64 \<Rightarrow> u64 \<Rightarrow> u64 list \<Rightarrow> (u64 \<rightharpoonup> bool) \<Rightarrow> error + (u64 \<rightharpoonup> bool)" where
  "mark_in_use mn mx [] amap = Inr amap"
| "mark_in_use mn mx (netid # inUse) amap =
     (if netid < mn \<or> mx < netid
      then Inl (Errorf ''Provided net id doesn't belong to range: [%d, %d]'' [])
      else mark_in_use mn mx inUse (amap(netid \<mapsto> True)))"

definition NewNetIDAllocator :: "u64 \<Rightarrow> u64 \<Rightarrow> u64 list \<Rightarrow> error + netIDAllocator" where
  "NewNetIDAllocator mn mx inUse =
     (if mx \<le> mn
      then Inl (Errorf ''Min should be lesser than max value (Min: %d, Max: %d)'' [])
      else case mark_in_use mn mx inUse Map.empty of
             Inl e \<Rightarrow> Inl e
           | Inr amap \<Rightarrow> Inr \<lparr>nia_min = mn, nia_max = mx, nia_allocMap = amap\<rparr>)"

text \<open>The loop from \<open>i\<close> on: the first id not found in the map or found not taken.\<close>

partial_function (option) find_free :: "(u64 \<rightharpoonup> bool) \<Rightarrow> u64 \<Rightarrow> u64 \<Rightarrow> (error + u64) option" where
  "find_free m mx i =
     (if i \<le> mx
      then (if m i = None \<or> m i = Some False then Some (Inr i) else find_free m mx (i + 1))
      else Some (Inl (Errorf ''No NetIDs available.'' [])))"

declare find_free.simps [code]

definition GetNetID :: "netIDAllocator \<Rightarrow> ((error + u64) \<times> netIDAllocator) option" where
  "GetNetID nia =
     map_option
       (\<lambda>r. case r of
              Inl e \<Rightarrow> (Inl e, nia)
            | Inr i \<Rightarrow> (Inr i, nia\<lparr>nia_allocMap := (nia_allocMap nia)(i \<mapsto> True)\<rparr>))
       (find_free (nia_allocMap nia) (nia_max nia) (nia_min nia))"

definition ReleaseNetID :: "u64 \<Rightarrow> netIDAllocator \<Rightarrow> error option \<times> netIDAllocator" where
  "ReleaseNetID netid nia =
     (if nia_min nia > netid \<or> nia_max nia < netid
      then (Some (Errorf ''Provided net id %d doesn't belong to the given range [%d, %d]'' []), nia)
      else if nia_allocMap nia netid = None \<or> nia_allocMap nia netid = Some False
      then (Some (Errorf ''Provided net id %d is already available.'' []), nia)
      else (None, nia\<lparr>nia_allocMap := (nia_allocMap nia)(netid \<mapsto> False)\<rparr>))"

section \<open>The contract\<close>

definition nia_universe :: "netIDAllocator \<Rightarrow> u64 set" where
  "nia_universe nia = {nia_min nia .. nia_max nia}"

definition nia_used :: "netIDAllocator \<Rightarrow> u64 set" where
  "nia_used nia = {i. nia_allocMap nia i = Some True}"

text \<open>
  The invariant: only ids of the range are ever taken, and the range ends below the largest
  number, which the program ensures by using \<open>MaxVNID\<close>.
\<close>

definition nia_inv :: "netIDAllocator \<Rightarrow> bool" where
  "nia_inv nia \<longleftrightarrow> nia_used nia \<subseteq> nia_universe nia \<and> nia_max nia < - 1"

definition is_free :: "(u64 \<rightharpoonup> bool) \<Rightarrow> u64 \<Rightarrow> bool" where
  "is_free m i \<longleftrightarrow> m i = None \<or> m i = Some False"

lemma is_free_iff: "is_free m i \<longleftrightarrow> m i \<noteq> Some True"
  by (cases "m i") (auto simp: is_free_def)

lemma word_less_max_Suc: "i \<le> mx \<Longrightarrow> mx < (- 1 :: u64) \<Longrightarrow> unat (i + 1) = Suc (unat i)"
proof -
  assume "i \<le> mx" and "mx < - 1"
  then have "i \<noteq> - 1" by auto
  then have "1 + i \<noteq> 0" by (metis add.commute eq_neg_iff_add_eq_0)
  then show ?thesis by (simp add: unatSuc add.commute)
qed

text \<open>The loop returns, with the least free id from \<open>i\<close> on or, if there is none, the error.\<close>

lemma find_free_returns:
  assumes "mx < - 1"
  shows "(\<exists>k. find_free m mx i = Some (Inr k) \<and> i \<le> k \<and> k \<le> mx \<and> is_free m k
             \<and> (\<forall>j. i \<le> j \<and> j < k \<longrightarrow> \<not> is_free m j))
       \<or> (find_free m mx i = Some (Inl (Errorf ''No NetIDs available.'' []))
             \<and> (\<forall>j. i \<le> j \<and> j \<le> mx \<longrightarrow> \<not> is_free m j))"
proof (induction "Suc (unat mx) - unat i" arbitrary: i rule: less_induct)
  case less
  show ?case
  proof (cases "i \<le> mx \<and> \<not> is_free m i")
    case False
    then show ?thesis
      by (subst find_free.simps, subst (2) find_free.simps)
        (auto simp: is_free_def [symmetric])
  next
    case True
    then have step: "find_free m mx i = find_free m mx (i + 1)"
      by (subst find_free.simps) (auto simp: is_free_def)
    have s: "unat (i + 1) = Suc (unat i)" using True assms by (blast intro: word_less_max_Suc)
    have split: "i \<le> j \<longleftrightarrow> j = i \<or> i + 1 \<le> j" for j
      using s by (auto simp: word_le_nat_alt) (metis Suc_leI le_neq_implies_less word_unat_eq_iff)
    have "Suc (unat mx) - unat (i + 1) < Suc (unat mx) - unat i"
      using s True word_le_nat_alt [of i mx] by linarith
    from less [OF this] step True show ?thesis
      by (auto simp: split)
  qed
qed

lemma nia_not_free: "is_free (nia_allocMap nia) i \<longleftrightarrow> i \<notin> nia_used nia"
  by (simp add: nia_used_def is_free_iff)

lemma GetNetID_cases:
  assumes "nia_max nia < - 1"
  obtains (got) k where "GetNetID nia = Some (Inr k, nia\<lparr>nia_allocMap := (nia_allocMap nia)(k \<mapsto> True)\<rparr>)"
      and "k \<in> nia_universe nia" and "k \<notin> nia_used nia"
      and "\<forall>j\<in>nia_universe nia. j < k \<longrightarrow> j \<in> nia_used nia"
  | (full) "GetNetID nia = Some (Inl (Errorf ''No NetIDs available.'' []), nia)"
      and "nia_universe nia \<subseteq> nia_used nia"
  using find_free_returns [OF assms, of "nia_allocMap nia" "nia_min nia"]
  by (auto simp: GetNetID_def nia_universe_def nia_not_free subset_iff)

lemma nia_used_take [simp]:
  "nia_used (nia\<lparr>nia_allocMap := (nia_allocMap nia)(k \<mapsto> True)\<rparr>) = insert k (nia_used nia)"
  by (auto simp: nia_used_def)

lemma nia_used_release [simp]:
  "nia_used (nia\<lparr>nia_allocMap := (nia_allocMap nia)(k \<mapsto> False)\<rparr>) = nia_used nia - {k}"
  by (auto simp: nia_used_def)

lemma nia_universe_upd [simp, frame_simps]:
  "nia_universe (nia\<lparr>nia_allocMap := m\<rparr>) = nia_universe nia"
  by (simp add: nia_universe_def)

text \<open>\<open>ReleaseNetID\<close> succeeds exactly on the ids taken, and then frees that one.\<close>

lemma ReleaseNetID_ok_iff:
  "fst (ReleaseNetID i nia) = None \<longleftrightarrow> i \<in> nia_universe nia \<inter> nia_used nia"
  by (auto simp: ReleaseNetID_def nia_universe_def nia_used_def split: option.splits)

lemma ReleaseNetID_state:
  "ReleaseNetID i nia = (None, nia') \<Longrightarrow> nia' = nia\<lparr>nia_allocMap := (nia_allocMap nia)(i \<mapsto> False)\<rparr>"
  "ReleaseNetID i nia = (Some e, nia') \<Longrightarrow> nia' = nia"
  by (auto simp: ReleaseNetID_def split: if_splits)

interpretation netids: id_pool GetNetID ReleaseNetID "\<lambda>i. i" "\<lambda>i. True" nia_inv nia_universe nia_used
proof (unfold_locales, goal_cases)
  case (1 s)
  then show ?case by (simp add: nia_universe_def)
next
  case (2 s)
  then show ?case by (simp add: nia_inv_def)
next
  case (3 s)
  then have "nia_max s < - 1" by (simp add: nia_inv_def)
  then show ?case by (cases rule: GetNetID_cases) simp_all
next
  case (4 s i s')
  then have "nia_max s < - 1" by (simp add: nia_inv_def)
  then show ?case using 4 by (cases rule: GetNetID_cases) (auto simp: nia_inv_def)
next
  case (5 s e s')
  then have "nia_max s < - 1" by (simp add: nia_inv_def)
  then show ?case using 5 by (cases rule: GetNetID_cases) (auto simp: nia_inv_def)
next
  case (6 s i s')
  then have "i \<in> nia_used s" using ReleaseNetID_ok_iff [of i s] by simp
  with 6 show ?case by (auto dest!: ReleaseNetID_state(1) simp: nia_inv_def)
next
  case (7 s i e s')
  then have "i \<notin> nia_universe s \<inter> nia_used s" using ReleaseNetID_ok_iff [of i s] by simp
  with 7 show ?case by (auto dest!: ReleaseNetID_state(2) simp: nia_inv_def)
qed

section \<open>The constructor\<close>

lemma mark_in_use_ok:
  "mark_in_use mn mx ids m = Inr m' \<Longrightarrow>
     set ids \<subseteq> {mn..mx} \<and> (\<forall>i. m' i = (if i \<in> set ids then Some True else m i))"
  by (induction ids arbitrary: m) (auto split: if_splits)

lemma mark_in_use_total: "set ids \<subseteq> {mn..mx} \<Longrightarrow> \<exists>m'. mark_in_use mn mx ids m = Inr m'"
  by (induction ids arbitrary: m) (auto simp: not_less)

text \<open>The constructor accepts exactly a non-empty range with all the ids in use inside.\<close>

lemma NewNetIDAllocator_ok_iff:
  "(\<exists>nia. NewNetIDAllocator mn mx ids = Inr nia) \<longleftrightarrow> mn < mx \<and> set ids \<subseteq> {mn..mx}"
proof (cases "mn < mx \<and> set ids \<subseteq> {mn..mx}")
  case True
  then show ?thesis using mark_in_use_total [of ids mn mx Map.empty]
    by (auto simp: NewNetIDAllocator_def not_le)
next
  case False
  then show ?thesis using mark_in_use_ok [of mn mx ids Map.empty]
    by (fastforce simp: NewNetIDAllocator_def split: sum.splits if_splits)
qed

lemma NewNetIDAllocator_state:
  assumes "NewNetIDAllocator mn mx ids = Inr nia"
  shows "nia_min nia = mn \<and> nia_max nia = mx \<and> nia_used nia = set ids \<and> set ids \<subseteq> {mn..mx}"
  using assms mark_in_use_ok [of mn mx ids Map.empty]
  by (auto simp: NewNetIDAllocator_def nia_used_def split: sum.splits if_splits)

lemma NewNetIDAllocator_inv [inv_intros]:
  "NewNetIDAllocator mn mx ids = Inr nia \<Longrightarrow> mx < - 1 \<Longrightarrow> nia_inv nia"
  using NewNetIDAllocator_state [of mn mx ids nia] by (auto simp: nia_inv_def nia_universe_def)

section \<open>Properties\<close>

definition three_ids :: netIDAllocator where
  "three_ids = \<lparr>nia_min = 10, nia_max = 12, nia_allocMap = [10 \<mapsto> True]\<rparr>"

lemma New_three_ids: "NewNetIDAllocator 10 12 [10] = Inr three_ids"
  by (simp add: NewNetIDAllocator_def three_ids_def)

lemma inv_three_ids: "nia_inv three_ids"
  by (rule NewNetIDAllocator_inv [OF New_three_ids]) simp

text \<open>
  \<open>GetNetID\<close> returns. It gives the least id of the range that is not taken and marks it
  taken, changing nothing else; when every id of the range is taken it gives the error and
  leaves the allocator as it was.
\<close>

lemma GetNetID_least:
  assumes "nia_inv nia"
  shows "(\<exists>k. GetNetID nia = Some (Inr k, nia\<lparr>nia_allocMap := (nia_allocMap nia)(k \<mapsto> True)\<rparr>)
        \<and> k \<in> nia_universe nia \<and> k \<notin> nia_used nia
        \<and> (\<forall>j\<in>nia_universe nia. j < k \<longrightarrow> j \<in> nia_used nia))
    \<or> (GetNetID nia = Some (Inl (Errorf ''No NetIDs available.'' []), nia)
        \<and> nia_used nia = nia_universe nia)"
proof -
  have "nia_max nia < - 1" using assms by (simp add: nia_inv_def)
  then show ?thesis
  proof (cases rule: GetNetID_cases)
    case (got k)
    then show ?thesis by blast
  next
    case full
    with assms show ?thesis by (auto simp: nia_inv_def)
  qed
qed

lemma GetNetID_least_witness:
  "GetNetID three_ids = Some (Inr 11, three_ids\<lparr>nia_allocMap := (nia_allocMap three_ids)(11 \<mapsto> True)\<rparr>)"
proof -
  have u: "nia_universe three_ids = {10..12}" "nia_used three_ids = {10}"
    by (auto simp: nia_universe_def nia_used_def three_ids_def split: if_splits)
  have ne: "nia_used three_ids \<noteq> nia_universe three_ids"
  proof
    assume eq: "nia_used three_ids = nia_universe three_ids"
    have "(11 :: u64) \<in> {10..12}" by simp
    then have "(11 :: u64) \<in> {10}" unfolding eq [unfolded u, symmetric] .
    then show False by simp
  qed
  from GetNetID_least [OF inv_three_ids] ne obtain k where
    k: "GetNetID three_ids = Some (Inr k, three_ids\<lparr>nia_allocMap := (nia_allocMap three_ids)(k \<mapsto> True)\<rparr>)"
    and b: "10 \<le> k" "k \<noteq> 10" and least: "\<forall>j\<in>{10..12}. j < k \<longrightarrow> j = 10"
    unfolding u by auto
  have "\<not> 11 < k" using least [rule_format, of 11] by auto
  with b have "k = 11" using word_le_less_eq inc_le [of 10 k] by fastforce
  with k show ?thesis by simp
qed

text \<open>
  C19: over any sequence of \<open>GetNetID\<close> and \<open>ReleaseNetID\<close> calls, every call returns, the ids
  taken stay in the range, and no id is handed out while an earlier caller still holds it.
\<close>

theorem netid_requests_safe:
  assumes "nia_inv nia"
  shows "\<exists>rs nia'. pool_run GetNetID ReleaseNetID ps nia = Some (rs, nia')
    \<and> length rs = length ps \<and> nia_inv nia' \<and> no_double (\<lambda>i. i) {} ps rs
    \<and> held (\<lambda>i. i) {} ps rs \<subseteq> nia_used nia' \<and> nia_used nia' \<subseteq> {nia_min nia .. nia_max nia}"
proof -
  from netids.run_total [OF assms, of ps] obtain rs nia' where
    r: "pool_run GetNetID ReleaseNetID ps nia = Some (rs, nia')" "length rs = length ps"
      "nia_inv nia'" "nia_universe nia' = nia_universe nia" by auto
  from netids.run_held_used [OF assms _ _ r(1), of "{}"] r netids.used_universe [OF r(3)]
  show ?thesis by (auto simp: nia_universe_def)
qed

theorem netid_requests_safe_witness:
  "\<exists>rs nia'. pool_run GetNetID ReleaseNetID [Get, Release 10, Get] three_ids = Some (rs, nia')
     \<and> length rs = 3 \<and> no_double (\<lambda>i. i) {} [Get, Release 10, Get] rs"
  using netid_requests_safe [OF inv_three_ids, of "[Get, Release 10, Get]"] by (auto simp: numeral_eq_Suc)

text \<open>
  The constructor accepts exactly a range with \<open>min < max\<close> whose ids in use all lie inside,
  and the allocator it gives has exactly those ids taken; it can then serve as many requests
  in a row as the range has ids left.
\<close>

lemma NewNetIDAllocator_spec:
  "((\<exists>nia. NewNetIDAllocator mn mx ids = Inr nia) \<longleftrightarrow> mn < mx \<and> set ids \<subseteq> {mn..mx})
   \<and> (\<forall>nia. NewNetIDAllocator mn mx ids = Inr nia \<and> mx < - 1 \<longrightarrow>
        nia_inv nia \<and> nia_used nia = set ids \<and>
        (alloc_many GetNetID n nia \<noteq> None \<longleftrightarrow> n \<le> card ({mn..mx} - set ids)))"
proof -
  have "alloc_many GetNetID n nia \<noteq> None \<longleftrightarrow> n \<le> card ({mn..mx} - set ids)"
    if "NewNetIDAllocator mn mx ids = Inr nia" "mx < - 1" for nia
    using netids.many_succeeds_iff [OF NewNetIDAllocator_inv [OF that], of n]
      NewNetIDAllocator_state [OF that(1)] by (simp add: nia_universe_def)
  then show ?thesis
    using NewNetIDAllocator_ok_iff [of mn mx ids] NewNetIDAllocator_state [of mn mx ids]
      NewNetIDAllocator_inv [of mn mx ids] by blast
qed

lemma NewNetIDAllocator_spec_witness:
  "nia_used three_ids = {10} \<and> (alloc_many GetNetID 3 three_ids = None)"
proof -
  have "card ({10..12} - {10 :: u64}) \<le> 2"
  proof -
    have "x = 11 \<or> x = 12" if "10 \<le> x" "x \<le> 12" "x \<noteq> 10" for x :: u64
      using that by unat_arith
    then have "{10..12} - {10 :: u64} \<subseteq> {11, 12}" by (intro subsetI) simp
    then have "card ({10..12} - {10 :: u64}) \<le> card {11, 12 :: u64}" by (intro card_mono) auto
    also have "\<dots> \<le> 2" by (simp add: card_insert_if)
    finally show ?thesis .
  qed
  then show ?thesis
    using NewNetIDAllocator_spec [of 10 12 "[10]" 3] New_three_ids
    by (cases "alloc_many GetNetID 3 three_ids") auto
qed

lemma find_free_none:
  assumes "find_free m mx i = Some r"
  shows "mx = - 1 \<longrightarrow> (\<exists>k. is_free m k)"
  using assms
  by (rule find_free.raw_induct [where P = "\<lambda>m mx i r. mx = - 1 \<longrightarrow> (\<exists>k. is_free m k)", rotated])
    (auto simp: is_free_def split: if_splits)

lemma find_free_skip:
  assumes "\<forall>j. i \<le> j \<longrightarrow> \<not> is_free m j"
  shows "find_free m (- 1) i = find_free m (- 1) 0"
  using assms
proof (induction "2 ^ 64 - unat i" arbitrary: i rule: less_induct)
  case less
  from less.prems have "\<not> is_free m i" by blast
  then have step: "find_free m (- 1) i = find_free m (- 1) (i + 1)"
    by (subst find_free.simps) (auto simp: is_free_def)
  show ?case
  proof (cases "i = - 1")
    case True
    then show ?thesis using step by simp
  next
    case False
    then have "1 + i \<noteq> 0" by (metis add.commute eq_neg_iff_add_eq_0)
    then have s: "unat (i + 1) = Suc (unat i)" by (simp add: unatSuc add.commute)
    then have "\<forall>j. i + 1 \<le> j \<longrightarrow> \<not> is_free m j"
      using less.prems by (simp add: word_le_nat_alt)
    moreover have "(2 :: nat) ^ 64 - unat (i + 1) < 2 ^ 64 - unat i"
      using unsigned_less [of i, where ?'a = nat] s by simp
    ultimately show ?thesis using less.hyps [of "i + 1"] step by simp
  qed
qed

text \<open>
  C27: with \<open>max\<close> the largest number and every id of the range taken, \<open>GetNetID\<close> does not give
  its error: the counter wraps around past the end of the range, so that the call
  returns the id 0 outside the range if that one is not taken, and never returns when every
  number is taken.
\<close>

theorem GetNetID_wraps_around:
  assumes "nia_max nia = - 1" and "nia_universe nia \<subseteq> nia_used nia"
  shows "(0 \<notin> nia_used nia \<longrightarrow> (\<exists>nia'. GetNetID nia = Some (Inr 0, nia') \<and> 0 \<notin> nia_universe nia))
    \<and> (nia_used nia = UNIV \<longrightarrow> GetNetID nia = None)"
proof -
  have "\<forall>j. nia_min nia \<le> j \<longrightarrow> \<not> is_free (nia_allocMap nia) j"
    using assms by (auto simp: nia_not_free nia_universe_def)
  from find_free_skip [OF this]
  have e: "find_free (nia_allocMap nia) (nia_max nia) (nia_min nia) = find_free (nia_allocMap nia) (- 1) 0"
    using assms(1) by simp
  have z: "find_free (nia_allocMap nia) (- 1) 0 = Some (Inr 0)" if "0 \<notin> nia_used nia"
    using that by (subst find_free.simps) (simp add: is_free_def [symmetric] nia_not_free)
  have n: "find_free (nia_allocMap nia) (- 1) 0 = None" if "nia_used nia = UNIV"
    using that find_free_none [of "nia_allocMap nia" "- 1" 0]
    by (cases "find_free (nia_allocMap nia) (- 1) 0") (auto simp: nia_not_free)
  show ?thesis using e z n assms(2) by (auto simp: GetNetID_def)
qed

theorem GetNetID_wraps_around_witness:
  "\<exists>nia'. GetNetID \<lparr>nia_min = - 2, nia_max = - 1, nia_allocMap = [- 2 \<mapsto> True, - 1 \<mapsto> True]\<rparr> = Some (Inr 0, nia')"
proof -
  let ?nia = "\<lparr>nia_min = - 2, nia_max = - 1, nia_allocMap = [- 2 \<mapsto> True, - 1 \<mapsto> True]\<rparr> :: netIDAllocator"
  have "x = - 2 \<or> x = - 1" if "- 2 \<le> x" for x :: u64
    using that unsigned_less [of x, where ?'a = nat] unsigned_minus_1_eq_mask [where 'a = nat and 'b = 64]
    by (auto simp: word_le_nat_alt word_unat_eq_iff mask_eq_exp_minus_1)
  note ends = this
  have "nia_universe ?nia \<subseteq> nia_used ?nia" by (auto simp: nia_universe_def nia_used_def dest!: ends)
  moreover have "0 \<notin> nia_used ?nia" by (simp add: nia_used_def)
  ultimately show ?thesis using GetNetID_wraps_around [of ?nia] by auto
qed

end
