(* ===== verification/SubnetAllocator.thy ===== *)
theory SubnetAllocator
  imports IdPool NetCommon
begin

unbundle bit_operations_syntax

text \<open>
  \<open>pkg/netutils/subnet_allocator.go\<close>: the allocator of host subnets. A subnet number is
  turned into an address by shifting it past the host bits and, where the subnet part crosses
  an octet, rotating it so that the subnets with zeros in the shared octet come first. The
  allocator's memory is a map from the printed CIDR notation of a subnet to whether it is
  taken. Bit counts are \<open>uint\<close> (64 bits), addresses and masks \<open>uint32\<close>.
\<close>

section \<open>The model\<close>

record subnetAllocator =
  sna_network :: IPNet
  sna_hostBits :: u64
  sna_leftShift :: u64
  sna_leftMask :: u32
  sna_rightShift :: u64
  sna_rightMask :: u32
  sna_next :: u32
  sna_allocMap :: "string \<rightharpoonup> bool"

text \<open>The shifts and masks of the rotation, from the mask size of the network and the host bits.\<close>

definition rotation :: "nat \<Rightarrow> u64 \<Rightarrow> u64 \<times> u32 \<times> u64 \<times> u32" where
  "rotation netMaskSize hostBits =
     (let subnetBits = 32 - of_nat netMaskSize - hostBits in
      if hostBits mod 8 \<noteq> 0 \<and> (hostBits - 1) div 8 \<noteq> (hostBits + subnetBits - 1) div 8
      then (let leftShift = 8 - hostBits mod 8 in
        (leftShift,
         push_bit (unat (32 - of_nat netMaskSize :: u64)) 1 - 1,
         subnetBits - leftShift,
         push_bit (unat hostBits) (push_bit (unat leftShift) 1 - 1)))
      else (0, 0xFFFFFFFF, 0, 0))"

text \<open>The subnets in use: what does not parse, or lies outside the network, is passed over.\<close>

fun reserve :: "IPNet \<Rightarrow> string list \<Rightarrow> (string \<rightharpoonup> bool) \<Rightarrow> (string \<rightharpoonup> bool)" where
  "reserve netIP [] amap = amap"
| "reserve netIP (netStr # inUse) amap =
     (case ParseCIDR netStr of
        Inl err \<Rightarrow> reserve netIP inUse amap
      | Inr (ip, nIp) \<Rightarrow>
          if \<not> IPNet_Contains netIP (ipnet_IP nIp) then reserve netIP inUse amap
          else reserve netIP inUse (amap(IPNet_String nIp \<mapsto> True)))"

definition NewSubnetAllocator :: "string \<Rightarrow> u64 \<Rightarrow> string list \<Rightarrow> error + subnetAllocator" where
  "NewSubnetAllocator network hostBits inUse =
     (case ParseCIDR network of
        Inl err \<Rightarrow> Inl (Errorf ''Failed to parse network address: %q'' [])
      | Inr (ip, netIP) \<Rightarrow>
          (let netMaskSize = fst (Mask_Size (ipnet_Mask netIP)) in
           if hostBits > 32 - of_nat netMaskSize
           then Inl (Errorf ''Subnet capacity cannot be larger than number of networks available.'' [])
           else let (leftShift, leftMask, rightShift, rightMask) = rotation netMaskSize hostBits in
             Inr \<lparr>sna_network = netIP, sna_hostBits = hostBits, sna_leftShift = leftShift,
                  sna_leftMask = leftMask, sna_rightShift = rightShift, sna_rightMask = rightMask,
                  sna_next = 0, sna_allocMap = reserve netIP inUse Map.empty\<rparr>))"

definition netMaskSize :: "subnetAllocator \<Rightarrow> nat" where
  "netMaskSize sna = fst (Mask_Size (ipnet_Mask (sna_network sna)))"

definition numSubnetBits :: "subnetAllocator \<Rightarrow> u64" where
  "numSubnetBits sna = 32 - of_nat (netMaskSize sna) - sna_hostBits sna"

definition numSubnets :: "subnetAllocator \<Rightarrow> u32" where
  "numSubnets sna = push_bit (unat (numSubnetBits sna)) 1"

text \<open>The address part of subnet number \<open>n\<close>, and the subnet.\<close>

definition subnet_part :: "subnetAllocator \<Rightarrow> u32 \<Rightarrow> u32" where
  "subnet_part sna n =
     (let shifted = push_bit (unat (sna_hostBits sna)) n in
      (push_bit (unat (sna_leftShift sna)) shifted AND sna_leftMask sna) OR
      (drop_bit (unat (sna_rightShift sna)) shifted AND sna_rightMask sna))"

definition genSubnet :: "subnetAllocator \<Rightarrow> u32 \<Rightarrow> u32 \<Rightarrow> IPNet" where
  "genSubnet sna baseipu n =
     \<lparr>ipnet_IP = Uint32ToIP (baseipu OR subnet_part sna n),
      ipnet_Mask = CIDRMask (unat (numSubnetBits sna) + netMaskSize sna) 32\<rparr>"

text \<open>The loop from \<open>i\<close> on, starting at the number after the one handed out last.\<close>

function get_loop :: "subnetAllocator \<Rightarrow> u32 \<Rightarrow> u32 \<Rightarrow> (error + IPNet) \<times> subnetAllocator" where
  "get_loop sna baseipu i =
     (if i < numSubnets sna
      then let n = (i + sna_next sna) mod numSubnets sna;
               g = genSubnet sna baseipu n;
               key = IPNet_String g in
           if \<not> get_bool (sna_allocMap sna) key
           then (Inr g, sna\<lparr>sna_allocMap := (sna_allocMap sna)(key \<mapsto> True), sna_next := n + 1\<rparr>)
           else get_loop sna baseipu (i + 1)
      else (Inl (Errorf ''No subnets available.'' []), sna\<lparr>sna_next := 0\<rparr>))"
  by pat_completeness auto
termination
proof (relation "measure (\<lambda>(sna, b, i). unat (numSubnets sna) - unat i)", goal_cases)
  case (2 sna b i)
  then have "i \<noteq> - 1" by auto
  then have "1 + i \<noteq> 0" by (metis add.commute eq_neg_iff_add_eq_0)
  then have "unat (i + 1) = Suc (unat i)" by (simp add: unatSuc add.commute)
  moreover have "unat i < unat (numSubnets sna)" using 2 by (simp add: word_less_nat_alt)
  ultimately show ?case by simp
qed simp

declare get_loop.simps [simp del]

text \<open>\<open>None\<close> is the panic of taking the address of a network that is not IPv4.\<close>

definition GetNetwork :: "subnetAllocator \<Rightarrow> ((error + IPNet) \<times> subnetAllocator) option" where
  "GetNetwork sna =
     (case IPToUint32 (ipnet_IP (sna_network sna)) of
        None \<Rightarrow> None
      | Some baseipu \<Rightarrow> Some (get_loop sna baseipu 0))"

definition ReleaseNetwork :: "IPNet \<Rightarrow> subnetAllocator \<Rightarrow> error option \<times> subnetAllocator" where
  "ReleaseNetwork ipnet sna =
     (if \<not> IPNet_Contains (sna_network sna) (ipnet_IP ipnet)
      then (Some (Errorf ''Provided subnet %v doesn't belong to the network %v.'' []), sna)
      else if \<not> get_bool (sna_allocMap sna) (IPNet_String ipnet)
      then (Some (Errorf ''Provided subnet %v is already available.'' []), sna)
      else (None, sna\<lparr>sna_allocMap := (sna_allocMap sna)(IPNet_String ipnet \<mapsto> False)\<rparr>))"

section \<open>The invariant\<close>

text \<open>
  The state the constructor gives for an IPv4 network and every operation keeps: a canonical
  network, host bits that fit, the shifts and masks the constructor computes, and a next number
  of at most the count. \<open>sna_universe\<close> is what the allocator is for: the subnets with
  \<open>hbits\<close> host bits inside the network, described without the rotation.
\<close>

definition base_of :: "subnetAllocator \<Rightarrow> u32" where
  "base_of sna = the (IPToUint32 (ipnet_IP (sna_network sna)))"

definition hbits :: "subnetAllocator \<Rightarrow> nat" where
  "hbits sna = unat (sna_hostBits sna)"

definition tbits :: "subnetAllocator \<Rightarrow> nat" where
  "tbits sna = 32 - netMaskSize sna - hbits sna"

definition rotation_ok :: "subnetAllocator \<Rightarrow> bool" where
  "rotation_ok sna \<longleftrightarrow>
     (sna_leftShift sna, sna_leftMask sna, sna_rightShift sna, sna_rightMask sna) =
       rotation (netMaskSize sna) (sna_hostBits sna)"

definition sna_inv :: "subnetAllocator \<Rightarrow> bool" where
  "sna_inv sna \<longleftrightarrow>
     length (ipnet_IP (sna_network sna)) = 4 \<and>
     ipnet_Mask (sna_network sna) = CIDRMask (netMaskSize sna) 32 \<and>
     netMaskSize sna + hbits sna \<le> 32 \<and>
     base_of sna AND mask (32 - netMaskSize sna) = 0 \<and>
     rotation_ok sna \<and>
     sna_next sna \<le> numSubnets sna"

definition host_subnet :: "u32 \<Rightarrow> nat \<Rightarrow> IPNet" where
  "host_subnet u l = \<lparr>ipnet_IP = Uint32ToIP u, ipnet_Mask = CIDRMask l 32\<rparr>"

definition sna_universe :: "subnetAllocator \<Rightarrow> IPNet set" where
  "sna_universe sna =
     (\<lambda>k. host_subnet (base_of sna OR push_bit (hbits sna) k) (32 - hbits sna)) ` {k. k < numSubnets sna}"

lemma numSubnetBits_nat:
  assumes "netMaskSize sna + hbits sna \<le> 32"
  shows "unat (numSubnetBits sna) = tbits sna"
proof -
  have "unat (32 - of_nat (netMaskSize sna) :: u64) = 32 - netMaskSize sna"
    using assms by (subst unat_sub) (simp_all add: word_le_nat_alt unat_of_nat take_bit_nat_eq_self)
  then show ?thesis using assms
    by (simp add: numSubnetBits_def tbits_def hbits_def, subst unat_sub) 
      (simp_all add: word_le_nat_alt hbits_def)
qed

lemma unat_exp: "t < 32 \<Longrightarrow> unat ((2 :: u32) ^ t) = 2 ^ t"
proof -
  assume "t < 32"
  then have "(2 :: nat) ^ t < 2 ^ 32" by (intro power_strict_increasing) simp_all
  then have "unat (of_nat (2 ^ t) :: u32) = 2 ^ t" by (subst unat_of_nat) (simp add: take_bit_nat_eq_self)
  then show ?thesis by simp
qed

lemma take_bit_lt:
  assumes "n < (2 :: u32) ^ t" and "t < 32"
  shows "take_bit t n = n"
proof -
  have "unat ((2 :: u32) ^ t) = 2 ^ t" using assms(2) by (rule unat_exp)
  then have "unat n < 2 ^ t" using assms(1) by (simp add: word_less_nat_alt)
  then have "unat (take_bit t n) = unat n" by (simp add: unsigned_take_bit_eq take_bit_nat_eq_self)
  then show ?thesis by (simp add: word_unat_eq_iff)
qed

lemma lt_take_bit:
  assumes "t < 32"
  shows "take_bit t n < (2 :: u32) ^ t"
proof -
  have "unat ((2 :: u32) ^ t) = 2 ^ t" using assms by (rule unat_exp)
  then show ?thesis by (simp add: word_less_nat_alt unsigned_take_bit_eq)
qed

lemma same_octet:
  assumes "h mod 8 \<noteq> 0" and "t \<le> 8 - h mod 8"
  shows "(h - 1) div 8 = (h + t - 1 :: nat) div 8"
proof -
  define q a where "q = h div 8" and "a = h mod 8"
  then have h: "h = 8 * q + a" and a: "0 < a" "a < 8" "t \<le> 8 - a" using assms by simp_all
  then have "h - 1 = (a - 1) + 8 * q" "h + t - 1 = (a + t - 1) + 8 * q" by simp_all
  moreover have "(a - 1) div 8 = 0" "(a + t - 1) div 8 = 0" using a by (simp_all add: div_eq_0_iff)
  ultimately show ?thesis by simp
qed

lemma rotation_cases:
  assumes "s + unat h \<le> 32" and "rotation s h = (l, lm, r, rm)"
  shows "(l = 0 \<and> lm = - 1 \<and> r = 0 \<and> rm = 0) \<or>
    (0 < unat l \<and> unat l + unat r = 32 - s - unat h \<and> 0 < unat r \<and> lm = mask (32 - s)
     \<and> rm = push_bit (unat h) (mask (unat l)) \<and> unat l = 8 - unat h mod 8 \<and> unat h mod 8 \<noteq> 0)"
proof -
  define t :: u64 where "t = 32 - of_nat s - h"
  have h32: "unat h \<le> 32" using assms by simp
  have u: "unat (32 - of_nat s :: u64) = 32 - s"
    using assms by (subst unat_sub) (simp_all add: word_le_nat_alt unat_of_nat take_bit_nat_eq_self)
  have tn: "unat t = 32 - s - unat h"
    using assms u unfolding t_def by (subst unat_sub) (simp_all add: word_le_nat_alt)
  show ?thesis
  proof (cases "h mod 8 \<noteq> 0 \<and> (h - 1) div 8 \<noteq> (h + t - 1) div 8")
    case False
    with assms(2) show ?thesis by (simp only: rotation_def t_def [symmetric] Let_def) simp
  next
    case True
    have hm: "unat (h mod 8) = unat h mod 8" by (simp add: unat_mod)
    have hm0: "unat h mod 8 \<noteq> 0" using True hm by (metis unat_0 word_unat_eq_iff)
    have h1: "unat (h - 1) = unat h - 1" using hm0 by (subst unat_sub) (auto simp: word_le_nat_alt)
    have ht: "unat (h + t) = unat h + unat t"
      using h32 tn by (subst unat_add_lem [THEN iffD1]) simp_all
    have ht1: "unat (h + t - 1) = unat h + unat t - 1"
      using hm0 ht by (subst unat_sub) (auto simp: word_le_nat_alt)
    have ne: "(unat h - 1) div 8 \<noteq> (unat h + unat t - 1) div 8"
    proof
      assume "(unat h - 1) div 8 = (unat h + unat t - 1) div 8"
      then have "unat ((h - 1) div 8) = unat ((h + t - 1) div 8)" by (simp add: unat_div h1 ht1)
      with True show False by (simp add: word_unat_eq_iff)
    qed
    have l: "l = 8 - h mod 8" and lm: "lm = push_bit (unat (32 - of_nat s :: u64)) 1 - 1"
      and r: "r = t - (8 - h mod 8)" and rm: "rm = push_bit (unat h) (push_bit (unat (8 - h mod 8)) 1 - 1)"
      using assms(2) True by (auto simp: rotation_def t_def [symmetric] Let_def)
    have ln: "unat l = 8 - unat h mod 8" unfolding l
      using hm by (subst unat_sub) (auto simp: word_le_nat_alt)
    have tl: "8 - unat h mod 8 < unat t"
    proof (rule ccontr)
      assume le: "\<not> 8 - unat h mod 8 < unat t"
      then have "(unat h - 1) div 8 = (unat h + unat t - 1) div 8"
        using hm0 by (intro same_octet) simp_all
      with ne show False by simp
    qed
    from tl have rn: "unat r = unat t - unat l"
      unfolding r l [symmetric] using ln by (subst unat_sub) (auto simp: word_le_nat_alt)
    have lm': "lm = mask (32 - s)"
      unfolding lm u by (simp add: mask_eq_exp_minus_1 push_bit_eq_mult)
    have rm': "rm = push_bit (unat h) (mask (unat l))"
      unfolding rm l by (simp add: mask_eq_exp_minus_1 push_bit_eq_mult)
    have "unat h mod 8 < 8" by simp
    then have "0 < unat l" "unat l + unat r = 32 - s - unat h" "0 < unat r"
      using ln rn tn \<open>8 - unat h mod 8 < unat t\<close> by linarith+
    with lm' rm' ln hm0 show ?thesis by blast
  qed
qed

section \<open>The rotation is a permutation\<close>

text \<open>The bit of the subnet number that ends up at bit \<open>j\<close> of the subnet part.\<close>

definition source_bit :: "subnetAllocator \<Rightarrow> nat \<Rightarrow> nat" where
  "source_bit sna j =
     (if unat (sna_leftShift sna) \<le> j then j - unat (sna_leftShift sna)
      else j + unat (sna_rightShift sna))"

lemma numSubnets_exp: "netMaskSize sna + hbits sna \<le> 32 \<Longrightarrow> numSubnets sna = 2 ^ tbits sna"
  by (simp add: numSubnets_def numSubnetBits_nat push_bit_eq_mult)

lemma numSubnets_pos_tbits:
  assumes "netMaskSize sna + hbits sna \<le> 32" and "n < numSubnets sna"
  shows "tbits sna < 32"
proof (rule ccontr)
  assume "\<not> tbits sna < 32"
  then have "tbits sna = 32" by (simp add: tbits_def)
  then have "numSubnets sna = 0" using assms(1) by (simp add: numSubnets_exp)
  with assms(2) show False by simp
qed

lemma bit_subnet_part:
  assumes inv: "netMaskSize sna + hbits sna \<le> 32" "rotation_ok sna" and n: "n < numSubnets sna"
  shows "bit (subnet_part sna n) m \<longleftrightarrow>
    hbits sna \<le> m \<and> m < hbits sna + tbits sna \<and> bit n (source_bit sna (m - hbits sna))"
proof -
  have t: "tbits sna < 32" using numSubnets_pos_tbits inv(1) n .
  have "take_bit (tbits sna) n = n" using n t inv(1) by (simp add: numSubnets_exp take_bit_lt)
  then have low: "bit n i \<Longrightarrow> i < tbits sna" for i by (metis bit_take_bit_iff)
  let ?L = "unat (sna_leftShift sna)" and ?R = "unat (sna_rightShift sna)"
  have sum: "hbits sna + tbits sna = 32 - netMaskSize sna" "hbits sna + tbits sna \<le> 32"
    using inv(1) by (simp_all add: tbits_def)
  have "rotation (netMaskSize sna) (sna_hostBits sna) =
      (sna_leftShift sna, sna_leftMask sna, sna_rightShift sna, sna_rightMask sna)"
    using inv(2) by (simp add: rotation_ok_def)
  with rotation_cases [of "netMaskSize sna" "sna_hostBits sna"] inv(1)
  consider (id) "sna_leftShift sna = 0" "sna_leftMask sna = - 1" "sna_rightShift sna = 0" "sna_rightMask sna = 0"
    | (rot) "?L + ?R = tbits sna" "0 < ?R" "sna_leftMask sna = mask (32 - netMaskSize sna)"
        "sna_rightMask sna = push_bit (hbits sna) (mask ?L)"
    by (auto simp: hbits_def tbits_def)
  then show ?thesis
  proof cases
    case id
    then show ?thesis using low [of "m - hbits sna"] sum
      by (auto simp: subnet_part_def Let_def source_bit_def bit_simps hbits_def [symmetric])
  next
    case rot
    define h L R where "h = hbits sna" and "L = ?L" and "R = ?R"
    have LR: "L + R = tbits sna" "h + tbits sna \<le> 32" using rot(1) sum by (simp_all add: L_def R_def h_def)
    have b: "bit (subnet_part sna n) m \<longleftrightarrow>
        (m < 32 \<and> h + L \<le> m \<and> bit n (m - (h + L)) \<and> m < h + tbits sna) \<or>
        (R + m < 32 \<and> h \<le> m \<and> m < h + L \<and> bit n (R + m - h))"
      using rot(3,4) sum by (auto simp: subnet_part_def Let_def bit_simps hbits_def [symmetric]
          h_def [symmetric] L_def [symmetric] R_def [symmetric] add.commute)
    have src: "source_bit sna j = (if L \<le> j then j - L else j + R)" for j
      by (simp add: source_bit_def L_def R_def)
    consider "m < h" | "h \<le> m" "m < h + L" | "h + L \<le> m" by linarith
    then show ?thesis
    proof cases
      case 1
      then show ?thesis by (simp add: b h_def)
    next
      case 2
      then have "R + m - h = m - h + R" "\<not> L \<le> m - h" "R + m < 32" "m < h + tbits sna"
        using LR by linarith+
      with 2 show ?thesis by (simp add: b src h_def [symmetric])
    next
      case 3
      then have "m - (h + L) = m - h - L" "L \<le> m - h" "h \<le> m" using LR by linarith+
      with 3 LR(2) show ?thesis by (auto simp: b src h_def [symmetric])
    qed
  qed
qed

lemma source_bit_onto:
  assumes inv: "netMaskSize sna + hbits sna \<le> 32" "rotation_ok sna" and i: "i < tbits sna"
  shows "\<exists>j < tbits sna. source_bit sna j = i"
proof -
  have "rotation (netMaskSize sna) (sna_hostBits sna) =
      (sna_leftShift sna, sna_leftMask sna, sna_rightShift sna, sna_rightMask sna)"
    using inv(2) by (simp add: rotation_ok_def)
  with rotation_cases [of "netMaskSize sna" "sna_hostBits sna"] inv(1)
  consider (id) "sna_leftShift sna = 0"
    | (rot) "unat (sna_leftShift sna) + unat (sna_rightShift sna) = tbits sna"
    by (auto simp: hbits_def tbits_def)
  then show ?thesis
  proof cases
    case id
    with i show ?thesis by (auto simp: source_bit_def)
  next
    case rot
    show ?thesis
    proof (cases "i < unat (sna_rightShift sna)")
      case True
      with rot show ?thesis
        by (intro exI [of _ "i + unat (sna_leftShift sna)"]) (simp add: source_bit_def)
    next
      case False
      with rot i show ?thesis
        by (intro exI [of _ "i - unat (sna_rightShift sna)"]) (auto simp: source_bit_def)
    qed
  qed
qed

lemma subnet_part_inj:
  assumes inv: "netMaskSize sna + hbits sna \<le> 32" "rotation_ok sna"
  shows "inj_on (subnet_part sna) {n. n < numSubnets sna}"
proof (rule inj_onI)
  fix x y assume xy: "x \<in> {n. n < numSubnets sna}" "y \<in> {n. n < numSubnets sna}"
    and eq: "subnet_part sna x = subnet_part sna y"
  have t: "tbits sna < 32" using numSubnets_pos_tbits inv(1) xy(1) by blast
  have low: "take_bit (tbits sna) x = x" "take_bit (tbits sna) y = y"
    using xy t inv(1) by (simp_all add: numSubnets_exp take_bit_lt)
  show "x = y"
  proof (rule bit_word_eqI)
    fix i
    show "bit x i \<longleftrightarrow> bit y i"
    proof (cases "i < tbits sna")
      case True
      then obtain j where j: "j < tbits sna" "source_bit sna j = i" using source_bit_onto inv by blast
      have "bit (subnet_part sna x) (hbits sna + j) \<longleftrightarrow> bit (subnet_part sna y) (hbits sna + j)"
        by (simp add: eq)
      then show ?thesis using j xy bit_subnet_part [OF inv] by simp
    next
      case False
      then show ?thesis using low by (metis bit_take_bit_iff)
    qed
  qed
qed

lemma subnet_part_shape:
  assumes inv: "netMaskSize sna + hbits sna \<le> 32" "rotation_ok sna" and n: "n < numSubnets sna"
  shows "\<exists>k < numSubnets sna. subnet_part sna n = push_bit (hbits sna) k"
proof (intro exI conjI)
  have t: "tbits sna < 32" "hbits sna + tbits sna \<le> 32"
    using numSubnets_pos_tbits inv(1) n by (simp_all add: tbits_def)
  let ?k = "take_bit (tbits sna) (drop_bit (hbits sna) (subnet_part sna n))"
  show "?k < numSubnets sna" using t inv(1) by (simp add: numSubnets_exp lt_take_bit)
  show "subnet_part sna n = push_bit (hbits sna) ?k"
    using t by (intro bit_word_eqI) (auto simp: bit_simps bit_subnet_part [OF inv n])
qed

lemma push_bit_inj:
  assumes "netMaskSize sna + hbits sna \<le> 32"
  shows "inj_on (\<lambda>k :: u32. push_bit (hbits sna) k) {k. k < numSubnets sna}"
proof (rule inj_onI)
  fix x y assume xy: "x \<in> {n. n < numSubnets sna}" "y \<in> {n. n < numSubnets sna}"
    and eq: "push_bit (hbits sna) x = push_bit (hbits sna) y"
  have t: "tbits sna < 32" "hbits sna + tbits sna \<le> 32"
    using numSubnets_pos_tbits assms xy(1) by (auto simp: tbits_def)
  have low: "take_bit (tbits sna) x = x" "take_bit (tbits sna) y = y"
    using xy t assms by (simp_all add: numSubnets_exp take_bit_lt)
  show "x = y"
  proof (rule bit_word_eqI)
    fix i
    show "bit x i \<longleftrightarrow> bit y i"
    proof (cases "i < tbits sna")
      case True
      have "bit (push_bit (hbits sna) x) (hbits sna + i) \<longleftrightarrow> bit (push_bit (hbits sna) y) (hbits sna + i)"
        by (simp add: eq)
      then show ?thesis using True t(2) by (simp add: bit_simps)
    next
      case False
      then show ?thesis using low by (metis bit_take_bit_iff)
    qed
  qed
qed

text \<open>So the subnet numbers below the count give each shifted number below the count once.\<close>

lemma subnet_part_image:
  assumes inv: "netMaskSize sna + hbits sna \<le> 32" "rotation_ok sna"
  shows "subnet_part sna ` {n. n < numSubnets sna} = push_bit (hbits sna) ` {k. k < numSubnets sna}"
proof (rule card_subset_eq)
  show "finite (push_bit (hbits sna) ` {k. k < numSubnets sna})" by simp
  show "subnet_part sna ` {n. n < numSubnets sna} \<subseteq> push_bit (hbits sna) ` {k. k < numSubnets sna}"
    using subnet_part_shape [OF inv] by auto
  show "card (subnet_part sna ` {n. n < numSubnets sna}) =
      card (push_bit (hbits sna) ` {k. k < numSubnets sna})"
    using subnet_part_inj [OF inv] push_bit_inj [OF inv(1)] by (simp add: card_image)
qed

section \<open>Subnets and their names\<close>

lemma host_subnet_String:
  "l \<le> 32 \<Longrightarrow> IPNet_String (host_subnet u l) = dotted (bytes4 u) @ ''/'' @ itod l"
  by (rule String_v4) (simp_all add: host_subnet_def)

lemma host_subnet_parse:
  "l \<le> 32 \<Longrightarrow> ParseCIDR (IPNet_String (host_subnet u l)) =
     Inr (Uint32ToIP u, v4net (u AND NOT (mask (32 - l))) l)"
  using ParseCIDR_v4 [of l u] by (simp add: host_subnet_String)

lemma Uint32ToIP_inj [simp]: "Uint32ToIP u = Uint32ToIP v \<longleftrightarrow> u = v"
  by (metis IPToUint32_Uint32ToIP option.inject)

lemma host_subnet_inj [simp]:
  "host_subnet u l = host_subnet v l \<longleftrightarrow> u = v"
  by (simp add: host_subnet_def)

lemma host_subnet_String_inj:
  "l \<le> 32 \<Longrightarrow> IPNet_String (host_subnet u l) = IPNet_String (host_subnet v l) \<longleftrightarrow> u = v"
  by (metis Uint32ToIP_inj host_subnet_parse prod.inject sum.inject(2))

lemma sna_base:
  assumes "sna_inv sna"
  shows "ipnet_IP (sna_network sna) = bytes4 (base_of sna)"
    and "IPToUint32 (ipnet_IP (sna_network sna)) = Some (base_of sna)"
proof -
  have "length (ipnet_IP (sna_network sna)) = 4" using assms by (simp add: sna_inv_def)
  then have "To4 (ipnet_IP (sna_network sna)) = ipnet_IP (sna_network sna)"
    and ne: "IPToUint32 (ipnet_IP (sna_network sna)) \<noteq> None"
    by (auto simp: To4_def IPToUint32_None_iff)
  then show "IPToUint32 (ipnet_IP (sna_network sna)) = Some (base_of sna)"
    by (simp add: base_of_def)
  then show "ipnet_IP (sna_network sna) = bytes4 (base_of sna)"
    using \<open>To4 _ = _\<close> by (simp add: IPToUint32_Some_iff)
qed

lemma sna_inv_bits:
  assumes "sna_inv sna"
  shows "netMaskSize sna + hbits sna \<le> 32" "rotation_ok sna" "hbits sna \<le> 32"
  using assms by (simp_all add: sna_inv_def)

lemma genSubnet_host_subnet:
  assumes "sna_inv sna"
  shows "genSubnet sna (base_of sna) n = host_subnet (base_of sna OR subnet_part sna n) (32 - hbits sna)"
  using sna_inv_bits [OF assms]
  by (simp add: genSubnet_def host_subnet_def numSubnetBits_nat tbits_def)

lemma shifted_below:
  assumes "netMaskSize sna + hbits sna \<le> 32" and "k < numSubnets sna"
  shows "bit (push_bit (hbits sna) k) m \<Longrightarrow> hbits sna \<le> m \<and> m < 32 - netMaskSize sna"
proof -
  have t: "tbits sna < 32" using numSubnets_pos_tbits assms .
  then have "take_bit (tbits sna) k = k" using assms by (simp add: numSubnets_exp take_bit_lt)
  then have "bit k i \<Longrightarrow> i < tbits sna" for i by (metis bit_take_bit_iff)
  then show "bit (push_bit (hbits sna) k) m \<Longrightarrow> hbits sna \<le> m \<and> m < 32 - netMaskSize sna"
    using assms(1) by (fastforce simp: bit_simps tbits_def)
qed

lemma base_bit: "sna_inv sna \<Longrightarrow> bit (base_of sna) m \<Longrightarrow> 32 - netMaskSize sna \<le> m"
proof -
  assume "sna_inv sna" and b: "bit (base_of sna) m"
  then have "base_of sna AND mask (32 - netMaskSize sna) = 0" by (simp add: sna_inv_def)
  then have "\<not> bit (base_of sna AND mask (32 - netMaskSize sna)) m" by simp
  with b show ?thesis by (auto simp: bit_simps dest: bit_imp_le_length)
qed

lemma base_or_inj:
  assumes "sna_inv sna" "x < numSubnets sna" "y < numSubnets sna"
    and "base_of sna OR push_bit (hbits sna) x = base_of sna OR push_bit (hbits sna) y"
  shows "push_bit (hbits sna) x = push_bit (hbits sna) y"
proof (rule bit_word_eqI)
  fix m
  have "bit (base_of sna OR push_bit (hbits sna) x) m = bit (base_of sna OR push_bit (hbits sna) y) m"
    using assms(4) by simp
  then show "bit (push_bit (hbits sna) x) m = bit (push_bit (hbits sna) y) m"
    using shifted_below [OF sna_inv_bits(1) [OF assms(1)] assms(2)]
      shifted_below [OF sna_inv_bits(1) [OF assms(1)] assms(3)] base_bit [OF assms(1)]
    by (simp add: bit_or_iff) (metis not_less)
qed

text \<open>The generated subnets are exactly the universe, each for one number.\<close>

lemma genSubnet_image:
  assumes "sna_inv sna"
  shows "genSubnet sna (base_of sna) ` {n. n < numSubnets sna} = sna_universe sna"
proof -
  have "genSubnet sna (base_of sna) ` {n. n < numSubnets sna} =
      (\<lambda>p. host_subnet (base_of sna OR p) (32 - hbits sna)) ` subnet_part sna ` {n. n < numSubnets sna}"
    by (simp add: genSubnet_host_subnet [OF assms] image_image)
  also have "\<dots> = sna_universe sna"
    using sna_inv_bits [OF assms] by (simp add: subnet_part_image sna_universe_def image_image)
  finally show ?thesis .
qed

lemma genSubnet_inj:
  assumes "sna_inv sna"
  shows "inj_on (genSubnet sna (base_of sna)) {n. n < numSubnets sna}"
proof (rule inj_onI)
  fix x y assume xy: "x \<in> {n. n < numSubnets sna}" "y \<in> {n. n < numSubnets sna}"
    and eq: "genSubnet sna (base_of sna) x = genSubnet sna (base_of sna) y"
  note i = sna_inv_bits [OF assms]
  obtain kx ky where k: "kx < numSubnets sna" "subnet_part sna x = push_bit (hbits sna) kx"
    "ky < numSubnets sna" "subnet_part sna y = push_bit (hbits sna) ky"
    using subnet_part_shape [OF i(1,2)] xy by blast
  have "base_of sna OR subnet_part sna x = base_of sna OR subnet_part sna y"
    using eq by (simp add: genSubnet_host_subnet [OF assms])
  then have "subnet_part sna x = subnet_part sna y"
    using base_or_inj [OF assms k(1,3)] k by simp
  then show "x = y" using subnet_part_inj [OF i(1,2)] xy by (auto dest: inj_onD)
qed

lemma universe_String_inj:
  assumes "sna_inv sna" "g \<in> sna_universe sna" "g' \<in> sna_universe sna"
  shows "IPNet_String g = IPNet_String g' \<longleftrightarrow> g = g'"
  using assms(2,3) by (auto simp: sna_universe_def host_subnet_String_inj)

section \<open>The search\<close>

lemma mod_numSubnets:
  assumes "netMaskSize sna + hbits sna \<le> 32" "tbits sna < 32"
  shows "x mod numSubnets sna = take_bit (tbits sna) x"
  using assms by (simp add: numSubnets_exp take_bit_eq_mod)

lemma take_bit_add_left: "take_bit t (take_bit t (a :: u32) + b) = take_bit t (a + b)"
proof transfer
  fix t :: nat and a b :: int
  have "take_bit t (take_bit t a + b) = take_bit t (a + b)"
    by (simp add: take_bit_eq_mod mod_add_left_eq)
  then show "take_bit LENGTH(32) (take_bit t (take_bit t a + b)) = take_bit LENGTH(32) (take_bit t (a + b))"
    by (simp add: take_bit_take_bit)
qed

text \<open>Counting from any start, modulo the count, meets every subnet number.\<close>

lemma rotate_onto:
  assumes "netMaskSize sna + hbits sna \<le> 32" "n < numSubnets sna"
  shows "\<exists>j < numSubnets sna. (j + next) mod numSubnets sna = n"
proof (intro exI conjI)
  have t: "tbits sna < 32" using numSubnets_pos_tbits assms .
  let ?j = "take_bit (tbits sna) (n - next)"
  show "?j < numSubnets sna" using t assms(1) by (simp add: numSubnets_exp lt_take_bit)
  have "take_bit (tbits sna) (?j + next) = take_bit (tbits sna) (n - next + next)"
    by (rule take_bit_add_left)
  also have "\<dots> = n" using t assms by (simp add: numSubnets_exp take_bit_lt)
  finally show "(?j + next) mod numSubnets sna = n" using t assms(1) by (simp add: mod_numSubnets)
qed

abbreviation taken :: "subnetAllocator \<Rightarrow> u32 \<Rightarrow> bool" where
  "taken sna n \<equiv> get_bool (sna_allocMap sna) (IPNet_String (genSubnet sna (base_of sna) n))"

abbreviation slot :: "subnetAllocator \<Rightarrow> u32 \<Rightarrow> u32" where
  "slot sna j \<equiv> (j + sna_next sna) mod numSubnets sna"

abbreviation take_subnet :: "subnetAllocator \<Rightarrow> u32 \<Rightarrow> subnetAllocator" where
  "take_subnet sna n \<equiv>
     sna\<lparr>sna_allocMap := (sna_allocMap sna)(IPNet_String (genSubnet sna (base_of sna) n) \<mapsto> True),
         sna_next := n + 1\<rparr>"

lemma word_Suc: "(i :: u32) < n \<Longrightarrow> unat (i + 1) = Suc (unat i)"
proof -
  assume "i < n"
  then have "i \<noteq> - 1" by auto
  then have "1 + i \<noteq> 0" by (metis add.commute eq_neg_iff_add_eq_0)
  then show ?thesis by (simp add: unatSuc add.commute)
qed

lemma get_loop_cases:
  "i \<le> numSubnets sna \<Longrightarrow>
   (\<exists>j. i \<le> j \<and> j < numSubnets sna \<and> \<not> taken sna (slot sna j)
      \<and> (\<forall>j'. i \<le> j' \<and> j' < j \<longrightarrow> taken sna (slot sna j'))
      \<and> get_loop sna (base_of sna) i =
          (Inr (genSubnet sna (base_of sna) (slot sna j)), take_subnet sna (slot sna j)))
   \<or> ((\<forall>j. i \<le> j \<and> j < numSubnets sna \<longrightarrow> taken sna (slot sna j))
      \<and> get_loop sna (base_of sna) i =
          (Inl (Errorf ''No subnets available.'' []), sna\<lparr>sna_next := 0\<rparr>))"
proof (induction "unat (numSubnets sna) - unat i" arbitrary: i rule: less_induct)
  case less
  show ?case
  proof (cases "i < numSubnets sna \<and> taken sna (slot sna i)")
    case False
    with less.prems show ?thesis
      by (subst get_loop.simps, subst (2) get_loop.simps) (auto simp: Let_def)
  next
    case True
    then have step: "get_loop sna (base_of sna) i = get_loop sna (base_of sna) (i + 1)"
      by (subst get_loop.simps) (simp add: Let_def)
    have s: "unat (i + 1) = Suc (unat i)" using True by (blast intro: word_Suc)
    have split: "i \<le> j \<longleftrightarrow> j = i \<or> i + 1 \<le> j" for j
      using s by (auto simp: word_le_nat_alt) (metis Suc_leI le_neq_implies_less word_unat_eq_iff)
    have "unat i < unat (numSubnets sna)" using True by (simp add: word_less_nat_alt)
    then have d: "unat (numSubnets sna) - unat (i + 1) < unat (numSubnets sna) - unat i"
      and le: "i + 1 \<le> numSubnets sna"
      using s by (simp_all add: word_le_nat_alt)
    from less.hyps [OF d le] step True show ?thesis
      by (auto simp: split)
  qed
qed

section \<open>The contract\<close>

lemma GetNetwork_cases:
  assumes "sna_inv sna"
  obtains (got) j where "j < numSubnets sna" and "\<not> taken sna (slot sna j)"
      and "\<forall>j' < j. taken sna (slot sna j')"
      and "GetNetwork sna =
        Some (Inr (genSubnet sna (base_of sna) (slot sna j)), take_subnet sna (slot sna j))"
  | (full) "\<forall>n < numSubnets sna. taken sna n"
      and "GetNetwork sna = Some (Inl (Errorf ''No subnets available.'' []), sna\<lparr>sna_next := 0\<rparr>)"
proof -
  have "(0 :: u32) \<le> numSubnets sna" by simp
  from get_loop_cases [OF this]
  consider (a) j where "j < numSubnets sna" "\<not> taken sna (slot sna j)"
      "\<forall>j' < j. taken sna (slot sna j')"
      "get_loop sna (base_of sna) 0 =
         (Inr (genSubnet sna (base_of sna) (slot sna j)), take_subnet sna (slot sna j))"
    | (b) "\<forall>j < numSubnets sna. taken sna (slot sna j)"
      "get_loop sna (base_of sna) 0 = (Inl (Errorf ''No subnets available.'' []), sna\<lparr>sna_next := 0\<rparr>)"
    by auto
  then show thesis
  proof cases
    case a
    with got sna_base(2) [OF assms] show ?thesis by (simp add: GetNetwork_def)
  next
    case b
    have "\<forall>n < numSubnets sna. taken sna n"
      using b(1) rotate_onto [OF sna_inv_bits(1) [OF assms]] by metis
    with b full sna_base(2) [OF assms] show ?thesis by (simp add: GetNetwork_def)
  qed
qed

lemma slot_less: "0 < numSubnets sna \<Longrightarrow> slot sna j < numSubnets sna"
  by (simp add: word_mod_less_divisor)

text \<open>The memory and the next number are all that the operations change.\<close>

lemma frame_params [frame_simps]:
  "netMaskSize (sna\<lparr>sna_allocMap := m\<rparr>) = netMaskSize sna" "netMaskSize (sna\<lparr>sna_next := k\<rparr>) = netMaskSize sna"
  "hbits (sna\<lparr>sna_allocMap := m\<rparr>) = hbits sna" "hbits (sna\<lparr>sna_next := k\<rparr>) = hbits sna"
  "base_of (sna\<lparr>sna_allocMap := m\<rparr>) = base_of sna" "base_of (sna\<lparr>sna_next := k\<rparr>) = base_of sna"
  "numSubnets (sna\<lparr>sna_allocMap := m\<rparr>) = numSubnets sna" "numSubnets (sna\<lparr>sna_next := k\<rparr>) = numSubnets sna"
  "rotation_ok (sna\<lparr>sna_allocMap := m\<rparr>) = rotation_ok sna" "rotation_ok (sna\<lparr>sna_next := k\<rparr>) = rotation_ok sna"
  by (simp_all add: netMaskSize_def hbits_def base_of_def numSubnets_def numSubnetBits_def rotation_ok_def)

lemma frame_universe [frame_simps]:
  "sna_universe (sna\<lparr>sna_allocMap := m\<rparr>) = sna_universe sna"
  "sna_universe (sna\<lparr>sna_next := k\<rparr>) = sna_universe sna"
  by (simp_all add: sna_universe_def frame_simps)

lemma sna_inv_map [inv_intros]: "sna_inv sna \<Longrightarrow> sna_inv (sna\<lparr>sna_allocMap := m\<rparr>)"
  by (simp add: sna_inv_def frame_simps)

lemma sna_inv_next [inv_intros]: "sna_inv sna \<Longrightarrow> k \<le> numSubnets sna \<Longrightarrow> sna_inv (sna\<lparr>sna_next := k\<rparr>)"
  by (simp add: sna_inv_def frame_simps)

lemma sna_inv_take [inv_intros]:
  assumes "sna_inv sna" and "n < numSubnets sna"
  shows "sna_inv (take_subnet sna n)"
proof -
  have "n + 1 \<le> numSubnets sna" using assms(2) by (rule inc_le)
  then have "sna_inv ((sna\<lparr>sna_allocMap := m\<rparr>)\<lparr>sna_next := n + 1\<rparr>)" for m
    by (intro sna_inv_next sna_inv_map assms(1)) (simp add: frame_simps)
  then show ?thesis by simp
qed

text \<open>The keys of the pool are the printed subnets.\<close>

definition sna_keys :: "subnetAllocator \<Rightarrow> string set" where
  "sna_keys sna = IPNet_String ` sna_universe sna"

definition sna_used_keys :: "subnetAllocator \<Rightarrow> string set" where
  "sna_used_keys sna = {k \<in> sna_keys sna. get_bool (sna_allocMap sna) k}"

text \<open>A net as IPv4 parsing or generation gives it.\<close>

definition v4_net :: "IPNet \<Rightarrow> bool" where
  "v4_net n \<longleftrightarrow> length (To4 (ipnet_IP n)) = 4 \<and> length (ipnet_Mask n) = 4 \<and>
     (\<exists>l \<le> 32. ipnet_Mask n = CIDRMask l 32)"

lemma v4_netE:
  assumes "v4_net n"
  obtains u l where "To4 (ipnet_IP n) = bytes4 u" "l \<le> 32" "ipnet_Mask n = CIDRMask l 32"
proof -
  from assms have "To4 (ipnet_IP n) \<noteq> []" by (auto simp: v4_net_def)
  then obtain u where "IPToUint32 (ipnet_IP n) = Some u" using IPToUint32_None_iff by blast
  then have "To4 (ipnet_IP n) = bytes4 u" by (simp add: IPToUint32_Some_iff)
  with assms that show thesis by (auto simp: v4_net_def)
qed

lemma v4_net_host_subnet: "l \<le> 32 \<Longrightarrow> v4_net (host_subnet u l)"
  by (auto simp: v4_net_def host_subnet_def CIDRMask_bytes)

lemma in_network:
  assumes "sna_inv sna" and "k < numSubnets sna"
  shows "(base_of sna OR push_bit (hbits sna) k) AND NOT (mask (32 - netMaskSize sna)) = base_of sna"
proof (rule bit_word_eqI)
  fix m assume m: "m < LENGTH(32)"
  show "bit ((base_of sna OR push_bit (hbits sna) k) AND NOT (mask (32 - netMaskSize sna))) m = bit (base_of sna) m"
    using base_bit [OF assms(1), of m] shifted_below [OF sna_inv_bits(1) [OF assms(1)] assms(2), of m] m
    by (auto simp: bit_and_iff bit_or_iff bit_not_iff bit_mask_iff)
qed

lemma Contains_network:
  assumes "sna_inv sna"
  shows "IPNet_Contains (sna_network sna) ip \<longleftrightarrow>
    (\<exists>u. IPToUint32 ip = Some u \<and> base_of sna = u AND NOT (mask (32 - netMaskSize sna)))"
proof -
  have s: "netMaskSize sna \<le> 32" using sna_inv_bits(1) [OF assms] by simp
  have "base_of sna AND NOT (mask (32 - netMaskSize sna)) = base_of sna"
  proof (rule bit_word_eqI)
    fix m assume "m < LENGTH(32)"
    then show "bit (base_of sna AND NOT (mask (32 - netMaskSize sna))) m = bit (base_of sna) m"
      using base_bit [OF assms, of m] by (auto simp: bit_simps)
  qed
  moreover have "ipnet_Mask (sna_network sna) = CIDRMask (netMaskSize sna) 32"
    using assms by (simp add: sna_inv_def)
  ultimately show ?thesis
    using Contains_v4 [OF s, of "sna_network sna" "base_of sna"] sna_base(1) [OF assms] by simp
qed

lemma universe_in_network:
  assumes "sna_inv sna" and "g \<in> sna_universe sna"
  shows "IPNet_Contains (sna_network sna) (ipnet_IP g)"
  using assms in_network
  by (auto simp: Contains_network sna_universe_def host_subnet_def IPToUint32_Uint32ToIP)

lemma universe_v4_net: "sna_inv sna \<Longrightarrow> g \<in> sna_universe sna \<Longrightarrow> v4_net g"
  by (auto simp: sna_universe_def intro: v4_net_host_subnet)

text \<open>A net that prints like a subnet of the universe denotes the same addresses.\<close>

lemma key_in_network:
  assumes "sna_inv sna" and "v4_net n" and "IPNet_String n \<in> sna_keys sna"
  shows "IPNet_Contains (sna_network sna) (ipnet_IP n)"
proof -
  from assms(2) obtain u l where n: "To4 (ipnet_IP n) = bytes4 u" "l \<le> 32" "ipnet_Mask n = CIDRMask l 32"
    by (rule v4_netE)
  from assms(3) obtain k where k: "k < numSubnets sna" and
    eq: "IPNet_String n = IPNet_String (host_subnet (base_of sna OR push_bit (hbits sna) k) (32 - hbits sna))"
    by (auto simp: sna_keys_def sna_universe_def)
  have "dotted (bytes4 u) @ ''/'' @ itod l = IPNet_String n" using n by (simp add: String_v4)
  then have "ParseCIDR (dotted (bytes4 u) @ ''/'' @ itod l) =
      ParseCIDR (IPNet_String (host_subnet (base_of sna OR push_bit (hbits sna) k) (32 - hbits sna)))"
    using eq by simp
  then have "Uint32ToIP u = Uint32ToIP (base_of sna OR push_bit (hbits sna) k)"
    using ParseCIDR_v4 [OF n(2), of u] host_subnet_parse [of "32 - hbits sna"] by simp
  then have "u = base_of sna OR push_bit (hbits sna) k" by simp
  with n(1) have "IPToUint32 (ipnet_IP n) = Some (base_of sna OR push_bit (hbits sna) k)"
    by (simp add: IPToUint32_Some_iff)
  then show ?thesis using in_network [OF assms(1) k] by (simp add: Contains_network [OF assms(1)])
qed

lemma keys_frame [frame_simps]:
  "sna_keys (sna\<lparr>sna_allocMap := m\<rparr>) = sna_keys sna" "sna_keys (sna\<lparr>sna_next := k\<rparr>) = sna_keys sna"
  by (simp_all add: sna_keys_def frame_simps)

lemma used_keys_set:
  "sna_used_keys (sna\<lparr>sna_allocMap := (sna_allocMap sna)(k \<mapsto> True)\<rparr>) =
     (if k \<in> sna_keys sna then insert k (sna_used_keys sna) else sna_used_keys sna)"
  "sna_used_keys (sna\<lparr>sna_allocMap := (sna_allocMap sna)(k \<mapsto> False)\<rparr>) = sna_used_keys sna - {k}"
  "sna_used_keys (sna\<lparr>sna_next := n\<rparr>) = sna_used_keys sna"
  by (auto simp: sna_used_keys_def frame_simps keys_frame sna_keys_def)

lemma genSubnet_in_universe:
  "sna_inv sna \<Longrightarrow> n < numSubnets sna \<Longrightarrow> genSubnet sna (base_of sna) n \<in> sna_universe sna"
  using genSubnet_image by blast

lemma genSubnet_key: "sna_inv sna \<Longrightarrow> n < numSubnets sna \<Longrightarrow>
   IPNet_String (genSubnet sna (base_of sna) n) \<in> sna_keys sna"
  by (simp add: sna_keys_def genSubnet_in_universe)

interpretation subnets: id_pool GetNetwork ReleaseNetwork IPNet_String v4_net sna_inv sna_keys sna_used_keys
proof (unfold_locales, goal_cases)
  case (1 s)
  have "finite {k. k < numSubnets s}" by simp
  then show ?case by (simp add: sna_keys_def sna_universe_def)
next
  case (2 s)
  then show ?case by (auto simp: sna_used_keys_def)
next
  case (3 s)
  then show ?case by (cases rule: GetNetwork_cases) simp_all
next
  case (4 s i s')
  from 4(1) show ?case
  proof (cases rule: GetNetwork_cases)
    case (got j)
    let ?n = "slot s j"
    have n: "?n < numSubnets s" using got(1) by (intro slot_less) (auto simp: word_gt_0)
    have i: "i = genSubnet s (base_of s) ?n" and s': "s' = take_subnet s ?n" using got(4) 4(2) by simp_all
    have "IPNet_String i \<notin> sna_used_keys s" using got(2) i by (simp add: sna_used_keys_def)
    moreover have "v4_net i" using 4(1) n i by (simp add: universe_v4_net genSubnet_in_universe)
    moreover have k: "IPNet_String i \<in> sna_keys s" using 4(1) n i by (simp add: genSubnet_key)
    moreover have "sna_used_keys s' = insert (IPNet_String i) (sna_used_keys s)"
      using k i s' by (simp add: used_keys_set)
    moreover have "sna_keys s' = sna_keys s" unfolding s' by (simp add: frame_simps)
    moreover have "sna_inv s'" unfolding s' using 4(1) n by (rule sna_inv_take)
    ultimately show ?thesis by blast
  next
    case full
    with 4 show ?thesis by simp
  qed
next
  case (5 s e s')
  from 5(1) show ?case
  proof (cases rule: GetNetwork_cases)
    case (got j)
    with 5 show ?thesis by simp
  next
    case full
    then have s': "s' = s\<lparr>sna_next := 0\<rparr>" using 5 by simp
    have "\<forall>g\<in>sna_universe s. get_bool (sna_allocMap s) (IPNet_String g)"
      using full(1) by (simp add: genSubnet_image [OF 5(1), symmetric])
    then have "sna_keys s \<subseteq> sna_used_keys s" by (auto simp: sna_used_keys_def sna_keys_def)
    then have "sna_used_keys s = sna_keys s" by (auto simp: sna_used_keys_def)
    then show ?thesis using 5(1) s' by (simp add: used_keys_set frame_simps sna_inv_next)
  qed
next
  case (6 s i s')
  then have g: "get_bool (sna_allocMap s) (IPNet_String i)"
    and s': "s' = s\<lparr>sna_allocMap := (sna_allocMap s)(IPNet_String i \<mapsto> False)\<rparr>"
    by (auto simp: ReleaseNetwork_def split: if_splits)
  from g have "IPNet_String i \<in> sna_keys s \<Longrightarrow> IPNet_String i \<in> sna_used_keys s"
    by (simp add: sna_used_keys_def)
  with s' show ?case using 6(1) by (simp add: used_keys_set frame_simps inv_intros)
next
  case (7 s i e s')
  then have "s' = s" and "\<not> IPNet_Contains (sna_network s) (ipnet_IP i)
      \<or> \<not> get_bool (sna_allocMap s) (IPNet_String i)"
    by (auto simp: ReleaseNetwork_def split: if_splits)
  then show ?case using key_in_network [OF 7(1,2)] by (auto simp: sna_used_keys_def)
qed


section \<open>The constructor\<close>

lemma Mask_Size_CIDRMask: "l \<le> 32 \<Longrightarrow> Mask_Size (CIDRMask l 32) = (l, 32)"
proof -
  assume l: "l \<le> 32"
  then have "length (CIDRMask l 32) = 4" by (simp add: CIDRMask_bytes)
  with l show ?thesis by (simp add: Mask_Size_def simpleMaskLength_CIDRMask)
qed

text \<open>Which strings \<open>ParseCIDR\<close> reads as an IPv4 net, and what it makes of them.\<close>

lemma ParseCIDR_shape:
  assumes "ParseCIDR str = Inr (ip, n)" and "length (ipnet_Mask n) = 4"
  obtains u l where "l \<le> 32" and "n = v4net (u AND NOT (mask (32 - l))) l"
proof -
  obtain i where i: "Index str ''/'' = Some i"
    using assms(1) by (auto simp: ParseCIDR_def split: option.splits)
  define addr where "addr = take i str"
  define iplen :: nat where "iplen = (if parseIPv4 addr \<noteq> [] then 4 else 16)"
  obtain l r where d: "dtoi (drop (i + 1) str) = Some (l, r)" and le: "l \<le> 8 * iplen"
    and m: "ipnet_Mask n = CIDRMask l (8 * iplen)"
    and ip: "ip = (if parseIPv4 addr \<noteq> [] then parseIPv4 addr else parseIPv6 addr)"
    and nip: "ipnet_IP n = IP_Mask ip (CIDRMask l (8 * iplen))"
    using assms(1) i by (auto simp: ParseCIDR_def Let_def addr_def [symmetric] iplen_def
        split: option.splits if_splits prod.splits)
  have len: "length (mask_bytes k q) = k" for k q by (induction k arbitrary: q) simp_all
  have v4: "parseIPv4 addr \<noteq> []"
  proof
    assume "parseIPv4 addr = []"
    then have "iplen = 16" by (simp add: iplen_def)
    with m le have "length (ipnet_Mask n) = 16" by (simp add: CIDRMask_def len)
    with assms(2) show False by simp
  qed
  then have "ip = parseIPv4 addr" and l32: "l \<le> 32" and m4: "ipnet_Mask n = CIDRMask l 32"
    using ip le m by (simp_all add: iplen_def)
  moreover from v4 obtain a b c e where "parseIPv4 addr = IPv4 a b c e"
    by (auto simp: parseIPv4_def split: option.splits list.splits prod.splits)
  ultimately have "ip = Uint32ToIP (be32 a b c e)"
    using bytes_be32 [of a b c e] by (simp add: Uint32ToIP_def bytes4_def)
  then have "ipnet_IP n = bytes4 (be32 a b c e AND NOT (mask (32 - l)))"
    using nip v4 l32 by (simp add: iplen_def IP_Mask_v4)
  with l32 m4 that show thesis by (metis (full_types) IPNet.surjective old.unit.exhaust v4net_def)
qed

lemma NewSubnetAllocator_inv [inv_intros]:
  assumes "NewSubnetAllocator network hostBits inUse = Inr sna"
    and "length (ipnet_Mask (sna_network sna)) = 4"
  shows "sna_inv sna"
proof -
  obtain ip netIP where p: "ParseCIDR network = Inr (ip, netIP)"
    using assms(1) by (auto simp: NewSubnetAllocator_def split: sum.splits)
  then have f: "sna_network sna = netIP" "sna_hostBits sna = hostBits" "sna_next sna = 0"
    "\<not> hostBits > 32 - of_nat (netMaskSize sna)" "rotation_ok sna"
    using assms(1)
    by (auto simp: NewSubnetAllocator_def Let_def netMaskSize_def rotation_ok_def
        split: if_splits prod.splits)
  from p assms(2) f(1) obtain u s where s: "s \<le> 32"
    and n: "netIP = v4net (u AND NOT (mask (32 - s))) s"
    by (metis ParseCIDR_shape)
  have ns: "netMaskSize sna = s" using f(1) n s by (simp add: netMaskSize_def v4net_def Mask_Size_CIDRMask)
  have u: "unat (32 - of_nat s :: u64) = 32 - s"
    using s by (subst unat_sub) (simp_all add: word_le_nat_alt unat_of_nat take_bit_nat_eq_self)
  have "unat hostBits \<le> 32 - s" using f(4) ns u by (simp add: word_less_nat_alt)
  then have h: "netMaskSize sna + hbits sna \<le> 32" using s ns f(2) by (simp add: hbits_def)
  have "base_of sna = u AND NOT (mask (32 - s))"
    using f(1) n by (simp add: base_of_def v4net_def IPToUint32_bytes4)
  then have "base_of sna AND mask (32 - netMaskSize sna) = 0"
    by (intro bit_word_eqI) (auto simp: ns bit_simps)
  with h f ns n show ?thesis by (simp add: sna_inv_def v4net_def)
qed

text \<open>What the constructor marks: the canonical form of each parseable net inside the network.\<close>

lemma reserve_iff:
  "get_bool (reserve netIP inUse m) k \<longleftrightarrow> get_bool m k \<or>
     (\<exists>str \<in> set inUse. \<exists>ip n. ParseCIDR str = Inr (ip, n) \<and> IPNet_Contains netIP (ipnet_IP n)
        \<and> IPNet_String n = k)"
  by (induction inUse arbitrary: m) (auto split: sum.splits)

lemma NewSubnetAllocator_reserved:
  assumes "NewSubnetAllocator network hostBits inUse = Inr sna"
  shows "get_bool (sna_allocMap sna) k \<longleftrightarrow>
     (\<exists>str \<in> set inUse. \<exists>ip n. ParseCIDR str = Inr (ip, n)
        \<and> IPNet_Contains (sna_network sna) (ipnet_IP n) \<and> IPNet_String n = k)"
proof -
  have "sna_allocMap sna = reserve (sna_network sna) inUse Map.empty"
    using assms by (auto simp: NewSubnetAllocator_def Let_def split: sum.splits if_splits prod.splits)
  then show ?thesis by (simp add: reserve_iff)
qed

section \<open>Disjointness and order\<close>

text \<open>Two different subnets of the universe have no address in common.\<close>

lemma host_subnet_Contains:
  assumes "l \<le> 32"
  shows "IPNet_Contains (host_subnet u l) ip \<longleftrightarrow>
    (\<exists>v. IPToUint32 ip = Some v \<and> u AND NOT (mask (32 - l)) = v AND NOT (mask (32 - l)))"
  by (rule Contains_v4 [OF assms]) (simp_all add: host_subnet_def)

lemma universe_canonical:
  assumes "sna_inv sna" and "k < numSubnets sna"
  shows "(base_of sna OR push_bit (hbits sna) k) AND NOT (mask (hbits sna)) =
    base_of sna OR push_bit (hbits sna) k"
proof (rule bit_word_eqI)
  fix m assume m: "m < LENGTH(32)"
  show "bit ((base_of sna OR push_bit (hbits sna) k) AND NOT (mask (hbits sna))) m =
      bit (base_of sna OR push_bit (hbits sna) k) m"
    using base_bit [OF assms(1), of m] shifted_below [OF sna_inv_bits(1) [OF assms(1)] assms(2), of m]
      sna_inv_bits(1) [OF assms(1)] m
    by (auto simp: bit_and_iff bit_or_iff bit_not_iff bit_mask_iff)
qed

lemma universe_disjoint:
  assumes "sna_inv sna" "g \<in> sna_universe sna" "g' \<in> sna_universe sna"
    and "IPNet_Contains g ip" "IPNet_Contains g' ip"
  shows "g = g'"
proof -
  have h: "hbits sna \<le> 32" using sna_inv_bits(3) [OF assms(1)] .
  then have d: "32 - (32 - hbits sna) = hbits sna" by simp
  from assms(2,3) obtain k k' where k: "k < numSubnets sna" "k' < numSubnets sna"
    and g: "g = host_subnet (base_of sna OR push_bit (hbits sna) k) (32 - hbits sna)"
      "g' = host_subnet (base_of sna OR push_bit (hbits sna) k') (32 - hbits sna)"
    by (auto simp: sna_universe_def)
  then have "base_of sna OR push_bit (hbits sna) k = base_of sna OR push_bit (hbits sna) k'"
    using assms(4,5) universe_canonical [OF assms(1) k(1)] universe_canonical [OF assms(1) k(2)]
    by (auto simp: host_subnet_Contains d)
  with g show ?thesis by simp
qed


lemma host_subnet_key: 
  assumes "sna_inv sna" "m < numSubnets sna" "n < numSubnets sna"
  shows "IPNet_String (genSubnet sna (base_of sna) m) = IPNet_String (genSubnet sna (base_of sna) n) \<longleftrightarrow> m = n"
  using universe_String_inj [OF assms(1)] genSubnet_in_universe [OF assms(1)] genSubnet_inj [OF assms(1)] assms(2,3)
  by (auto dest: inj_onD)

text \<open>A fresh allocator hands the subnets out in the order of their numbers.\<close>

definition upto_used :: "subnetAllocator \<Rightarrow> nat \<Rightarrow> bool" where
  "upto_used sna j \<longleftrightarrow> sna_next sna = of_nat j \<and>
     (\<forall>n < numSubnets sna. taken sna n \<longleftrightarrow> unat n < j)"

lemma of_nat_below: "i < unat (b :: u32) \<Longrightarrow> unat (of_nat i :: u32) = i \<and> (of_nat i :: u32) < b"
proof -
  assume i: "i < unat b"
  then have "i < 2 ^ 32" using unsigned_less [of b, where ?'a = nat] by simp
  then have "unat (of_nat i :: u32) = i" by (simp add: unat_of_nat take_bit_nat_eq_self)
  with i show ?thesis by (simp add: word_less_nat_alt)
qed

lemma GetNetwork_next:
  assumes "sna_inv sna" and "upto_used sna j" and "j < unat (numSubnets sna)"
  shows "GetNetwork sna = Some (Inr (genSubnet sna (base_of sna) (of_nat j)), take_subnet sna (of_nat j))
    \<and> upto_used (take_subnet sna (of_nat j)) (Suc j)"
proof -
  note j = of_nat_below [OF assms(3)]
  have "slot sna 0 = of_nat j" using assms(2) j by (simp add: upto_used_def mod_word_less)
  moreover have "\<not> taken sna (of_nat j)" using assms(2) j by (simp add: upto_used_def)
  moreover have "0 < numSubnets sna" using assms(3) by (auto simp: word_gt_0)
  ultimately have "get_loop sna (base_of sna) 0 =
      (Inr (genSubnet sna (base_of sna) (of_nat j)), take_subnet sna (of_nat j))"
    by (subst get_loop.simps) (simp add: Let_def)
  moreover have "upto_used (take_subnet sna (of_nat j)) (Suc j)"
  proof -
    have same: "genSubnet (take_subnet sna (of_nat j)) (base_of sna) = genSubnet sna (base_of sna)"
      by (rule ext) (simp add: genSubnet_def subnet_part_def numSubnetBits_def netMaskSize_def)
    have key: "IPNet_String (genSubnet sna (base_of sna) n) =
        IPNet_String (genSubnet sna (base_of sna) (of_nat j)) \<longleftrightarrow> unat n = j"
      if "n < numSubnets sna" for n
      using host_subnet_key [OF assms(1) that conjunct2 [OF j]] j by (simp add: word_unat_eq_iff)
    have "taken sna n \<longleftrightarrow> unat n < j" if "n < numSubnets sna" for n
      using assms(2) that by (simp add: upto_used_def)
    then show ?thesis
      by (simp add: upto_used_def frame_simps same key less_Suc_eq)
  qed
  ultimately show ?thesis using sna_base(2) [OF assms(1)] by (simp add: GetNetwork_def)
qed

lemma alloc_many_order:
  assumes "sna_inv sna" and "upto_used sna j" and "j + k \<le> unat (numSubnets sna)"
  shows "\<exists>sna'. alloc_many GetNetwork k sna =
    Some (map (\<lambda>i. genSubnet sna (base_of sna) (of_nat i)) [j..<j + k], sna')"
  using assms
proof (induction k arbitrary: sna j)
  case (Suc k)
  have jl: "j < unat (numSubnets sna)" using Suc.prems(3) by simp
  let ?s = "take_subnet sna (of_nat j)"
  note g = GetNetwork_next [OF Suc.prems(1,2) jl]
  have "sna_inv ?s" using Suc.prems(1) of_nat_below [OF jl] by (simp add: sna_inv_take)
  moreover have "Suc j + k \<le> unat (numSubnets ?s)" using Suc.prems(3) by (simp add: frame_simps)
  ultimately obtain sna' where "alloc_many GetNetwork k ?s =
      Some (map (\<lambda>i. genSubnet ?s (base_of ?s) (of_nat i)) [Suc j..<Suc j + k], sna')"
    using Suc.IH g by blast
  moreover have "genSubnet ?s (base_of ?s) = genSubnet sna (base_of sna)"
    by (rule ext) (simp add: frame_simps genSubnet_def subnet_part_def numSubnetBits_def netMaskSize_def)
  ultimately show ?case using g by (simp add: upt_conv_Cons del: upt_Suc)
qed simp

text \<open>A printed subnet of the universe parses to the same addresses.\<close>

lemma universe_parse:
  assumes "sna_inv sna" and "g \<in> sna_universe sna"
  shows "\<exists>ip n. ParseCIDR (IPNet_String g) = Inr (ip, n) \<and> IPNet_String n = IPNet_String g \<and> v4_net n
    \<and> To4 (ipnet_IP n) = To4 (ipnet_IP g) \<and> (\<forall>a. IPNet_Contains n a \<longleftrightarrow> IPNet_Contains g a)"
proof -
  have h: "32 - hbits sna \<le> 32" "32 - (32 - hbits sna) = hbits sna"
    using sna_inv_bits(3) [OF assms(1)] by simp_all
  from assms(2) obtain k where k: "k < numSubnets sna" and
    g: "g = host_subnet (base_of sna OR push_bit (hbits sna) k) (32 - hbits sna)" (is "_ = host_subnet ?u _")
    by (auto simp: sna_universe_def)
  let ?n = "v4net ?u (32 - hbits sna)"
  have parse: "ParseCIDR (IPNet_String g) = Inr (Uint32ToIP ?u, ?n)"
    using host_subnet_parse [OF h(1), of ?u] universe_canonical [OF assms(1) k] by (simp add: g h(2))
  have "length (CIDRMask (32 - hbits sna) 32) = 4" by (simp add: CIDRMask_bytes)
  then have wf: "v4_net ?n" unfolding v4_net_def v4net_def using h(1)
    by (auto intro: exI [of _ "32 - hbits sna"])
  have str: "IPNet_String ?n = IPNet_String g"
  proof -
    have "To4 (ipnet_IP ?n) = bytes4 ?u" "ipnet_Mask ?n = CIDRMask (32 - hbits sna) 32"
      by (simp_all add: v4net_def)
    from String_v4 [OF h(1) this] show ?thesis unfolding g host_subnet_String [OF h(1)] .
  qed
  have con: "IPNet_Contains ?n a \<longleftrightarrow> IPNet_Contains g a" for a
    using Contains_v4 [OF h(1), of ?n ?u a] by (simp add: g host_subnet_Contains [OF h(1)] v4net_def)
  moreover have "To4 (ipnet_IP ?n) = To4 (ipnet_IP g)" by (simp add: g v4net_def host_subnet_def)
  ultimately show ?thesis using parse str wf by blast
qed

section \<open>Properties\<close>

text \<open>The allocator of the tests, for the witnesses: four subnets of a /16 network.\<close>

definition sixteen_by_14 :: subnetAllocator where
  "sixteen_by_14 =
     \<lparr>sna_network = \<lparr>ipnet_IP = [10, 1, 0, 0], ipnet_Mask = [255, 255, 0, 0]\<rparr>, sna_hostBits = 14,
      sna_leftShift = 0, sna_leftMask = 0xFFFFFFFF, sna_rightShift = 0, sna_rightMask = 0,
      sna_next = 0, sna_allocMap = Map.empty\<rparr>"

lemma New_sixteen_by_14: "NewSubnetAllocator ''10.1.0.0/16'' 14 [] = Inr sixteen_by_14"
  by (simp add: NewSubnetAllocator_def rotation_def sixteen_by_14_def str_simps)

lemma inv_sixteen_by_14: "sna_inv sixteen_by_14"
  by (rule NewSubnetAllocator_inv [OF New_sixteen_by_14]) (simp add: sixteen_by_14_def)

lemma params_sixteen_by_14:
  "netMaskSize sixteen_by_14 = 16" "hbits sixteen_by_14 = 14" "numSubnets sixteen_by_14 = 4"
  "base_of sixteen_by_14 = 0x0A010000"
  by (simp_all add: sixteen_by_14_def netMaskSize_def hbits_def numSubnets_def numSubnetBits_def
      base_of_def IPToUint32_def str_simps)

lemma and_all_ones: "x AND 0xFFFFFFFF = (x :: u32)"
proof -
  have "(0xFFFFFFFF :: u32) = - 1" by simp
  then show ?thesis by (simp only: and.right_neutral)
qed

lemma Get_in_universe:
  assumes "sna_inv sna" and "GetNetwork sna = Some (Inr g, sna')"
  shows "g \<in> sna_universe sna"
  using assms(1)
proof (cases rule: GetNetwork_cases)
  case (got j)
  then have "0 < numSubnets sna" by (auto simp: word_gt_0)
  then have "genSubnet sna (base_of sna) (slot sna j) \<in> sna_universe sna"
    using assms(1) by (intro genSubnet_in_universe slot_less)
  with got(4) assms(2) show ?thesis by simp
qed (use assms(2) in simp)

lemma gen_sixteen_by_14: "genSubnet sixteen_by_14 0x0A010000 n =
    host_subnet (0x0A010000 OR push_bit 14 n) 18"
  using genSubnet_host_subnet [OF inv_sixteen_by_14, of n]
  by (simp add: params_sixteen_by_14) (simp add: subnet_part_def sixteen_by_14_def and_all_ones)

lemma Get_sixteen_by_14:
  "GetNetwork sixteen_by_14 = Some (Inr (host_subnet 0x0A010000 18), take_subnet sixteen_by_14 0)"
proof -
  have "upto_used sixteen_by_14 0" by (simp add: upto_used_def sixteen_by_14_def)
  from GetNetwork_next [OF inv_sixteen_by_14 this] show ?thesis
    by (simp add: params_sixteen_by_14 gen_sixteen_by_14)
qed



lemma card_below: "card {n. n < b} = unat (b :: u32)"
proof -
  have "bij_betw unat {n. n < b} {..< unat b}"
  proof (rule bij_betw_imageI)
    show "inj_on unat {n. n < b}" by (simp add: inj_on_def word_unat_eq_iff)
    have "i \<in> unat ` {n. n < b}" if "i < unat b" for i
      using of_nat_below [OF that] by (metis image_eqI mem_Collect_eq)
    then show "unat ` {n. n < b} = {..< unat b}" by (auto simp: word_less_nat_alt)
  qed
  then show ?thesis by (simp add: bij_betw_same_card)
qed

lemma card_sna_keys:
  assumes "sna_inv sna"
  shows "card (sna_keys sna) = (if tbits sna = 32 then 0 else 2 ^ tbits sna)"
proof -
  have "inj_on (\<lambda>n. IPNet_String (genSubnet sna (base_of sna) n)) {n. n < numSubnets sna}"
    using host_subnet_key [OF assms] by (auto intro!: inj_onI)
  then have "card (sna_keys sna) = unat (numSubnets sna)"
    by (simp add: sna_keys_def genSubnet_image [OF assms, symmetric] image_image card_image card_below)
  also have "\<dots> = (if tbits sna = 32 then 0 else 2 ^ tbits sna)"
    using sna_inv_bits(1) [OF assms] by (auto simp: numSubnets_exp tbits_def intro!: unat_exp)
  finally show ?thesis .
qed

text \<open>
  C17: requests succeed exactly while a subnet is unused, so that an allocator hands out as many
  subnets in a row as it has unused ones and no more, all different; with nothing in use these
  are \<open>2 ^ (32 - mask size - host bits)\<close>.
\<close>

theorem GetNetwork_capacity:
  assumes "sna_inv sna"
  shows "(alloc_many GetNetwork n sna \<noteq> None \<longleftrightarrow> n \<le> card (sna_keys sna - sna_used_keys sna))
    \<and> (\<forall>gs sna'. alloc_many GetNetwork n sna = Some (gs, sna') \<longrightarrow>
         distinct (map IPNet_String gs) \<and> length gs = n)
    \<and> card (sna_keys sna) = (if tbits sna = 32 then 0 else 2 ^ tbits sna)"
  using subnets.many_succeeds_iff [OF assms] subnets.many_distinct [OF assms] card_sna_keys [OF assms]
  by blast

theorem GetNetwork_capacity_witness:
  "alloc_many GetNetwork 4 sixteen_by_14 \<noteq> None \<and> alloc_many GetNetwork 5 sixteen_by_14 = None"
proof -
  have "sna_used_keys sixteen_by_14 = {}" by (simp add: sna_used_keys_def sixteen_by_14_def)
  then have free: "card (sna_keys sixteen_by_14 - sna_used_keys sixteen_by_14) = 4"
    using GetNetwork_capacity [OF inv_sixteen_by_14, of 0]
    by (simp add: tbits_def params_sixteen_by_14)
  show ?thesis
    using GetNetwork_capacity [OF inv_sixteen_by_14, of 4, THEN conjunct1]
      GetNetwork_capacity [OF inv_sixteen_by_14, of 5, THEN conjunct1]
    unfolding free by (cases "alloc_many GetNetwork 5 sixteen_by_14") auto
qed

text \<open>
  C8: over any sequence of \<open>GetNetwork\<close> and \<open>ReleaseNetwork\<close> calls (on IPv4 nets), every call
  returns and no subnet is handed out while an earlier caller still holds it.
\<close>

theorem subnet_requests_safe:
  assumes "sna_inv sna" and "\<forall>n \<in> releases ps. v4_net n"
  shows "\<exists>rs sna'. pool_run GetNetwork ReleaseNetwork ps sna = Some (rs, sna')
    \<and> length rs = length ps \<and> sna_inv sna' \<and> no_double IPNet_String {} ps rs
    \<and> held IPNet_String {} ps rs \<subseteq> sna_used_keys sna'"
  using subnets.run_total [OF assms] subnets.run_held_used [OF assms, of "{}"] by fastforce

theorem subnet_requests_safe_witness:
  "\<exists>rs sna'. pool_run GetNetwork ReleaseNetwork [Get, Release (host_subnet 0x0A010000 18), Get] sixteen_by_14
     = Some (rs, sna') \<and> length rs = 3"
  using subnet_requests_safe [OF inv_sixteen_by_14, of "[Get, Release (host_subnet 0x0A010000 18), Get]"]
  by (force simp: v4_net_host_subnet)

lemma shared_octet_zero_iff:
  assumes "sna_inv sna" and l: "sna_leftShift sna \<noteq> 0" and n: "n < numSubnets sna"
  shows "subnet_part sna n AND sna_rightMask sna = 0 \<longleftrightarrow> unat n < 2 ^ unat (sna_rightShift sna)"
proof -
  note i = sna_inv_bits [OF assms(1)]
  let ?L = "unat (sna_leftShift sna)" and ?R = "unat (sna_rightShift sna)"
  have zero: "w = 0 \<longleftrightarrow> (\<forall>m. \<not> bit w m)" for w :: u32 by (auto intro: bit_word_eqI)
  have "rotation (netMaskSize sna) (sna_hostBits sna) =
      (sna_leftShift sna, sna_leftMask sna, sna_rightShift sna, sna_rightMask sna)"
    using i(2) by (simp add: rotation_ok_def)
  from rotation_cases [OF _ this] i(1) l
  have r: "?L + ?R = tbits sna" "sna_rightMask sna = push_bit (hbits sna) (mask ?L)"
    by (auto simp: hbits_def tbits_def)
  have ht: "hbits sna + tbits sna \<le> 32" using i(1) by (simp add: tbits_def)
  have t: "tbits sna < 32" using numSubnets_pos_tbits i(1) n .
  then have low: "take_bit (tbits sna) n = n" using n i(1) by (simp add: numSubnets_exp take_bit_lt)
  have "bit (subnet_part sna n AND sna_rightMask sna) m \<longleftrightarrow>
      hbits sna \<le> m \<and> m < hbits sna + ?L \<and> bit n (m - hbits sna + ?R)" for m
    using bit_subnet_part [OF i(1,2) n, of m] r ht
    by (auto simp: bit_simps source_bit_def)
  then have "subnet_part sna n AND sna_rightMask sna = 0 \<longleftrightarrow>
      (\<forall>m. hbits sna \<le> m \<and> m < hbits sna + ?L \<longrightarrow> \<not> bit n (m - hbits sna + ?R))"
    unfolding zero by blast
  also have "\<dots> \<longleftrightarrow> (\<forall>i. ?R \<le> i \<longrightarrow> \<not> bit n i)"
  proof
    assume a: "\<forall>m. hbits sna \<le> m \<and> m < hbits sna + ?L \<longrightarrow> \<not> bit n (m - hbits sna + ?R)"
    show "\<forall>i. ?R \<le> i \<longrightarrow> \<not> bit n i"
    proof (intro allI impI)
      fix i assume i: "?R \<le> i"
      show "\<not> bit n i"
      proof (cases "i < tbits sna")
        case True
        with i r(1) have "i - ?R < ?L" by linarith
        with a [rule_format, of "hbits sna + (i - ?R)"] have "\<not> bit n (i - ?R + ?R)" by simp
        then show ?thesis unfolding le_add_diff_inverse2 [OF i] .
      next
        case False
        then show ?thesis using low by (metis bit_take_bit_iff)
      qed
    qed
  next
    assume a: "\<forall>i. ?R \<le> i \<longrightarrow> \<not> bit n i"
    then show "\<forall>m. hbits sna \<le> m \<and> m < hbits sna + ?L \<longrightarrow> \<not> bit n (m - hbits sna + ?R)"
      by (meson le_add2)
  qed
  also have "\<dots> \<longleftrightarrow> take_bit ?R n = n"
  proof
    assume "\<forall>i. ?R \<le> i \<longrightarrow> \<not> bit n i"
    then show "take_bit ?R n = n" by (intro bit_word_eqI) (auto simp: bit_take_bit_iff not_le [symmetric])
  next
    assume "take_bit ?R n = n"
    then show "\<forall>i. ?R \<le> i \<longrightarrow> \<not> bit n i" by (metis bit_take_bit_iff not_le)
  qed
  also have "\<dots> \<longleftrightarrow> unat n < 2 ^ ?R"
    by (metis take_bit_nat_eq_self_iff unsigned_take_bit_eq word_unat_eq_iff)
  finally show ?thesis .
qed

text \<open>
  An allocator without subnets in use hands them out in the order of their numbers, and
  where the subnet part crosses an octet (the shift is not 0) the subnets with zeros in the
  shared octet are exactly the first ones, as the comment in the constructor promises.
\<close>

lemma GetNetwork_order:
  assumes "sna_inv sna" and "sna_next sna = 0" and "sna_used_keys sna = {}"
    and "k \<le> unat (numSubnets sna)"
  shows "(\<exists>sna'. alloc_many GetNetwork k sna =
        Some (map (\<lambda>i. genSubnet sna (base_of sna) (of_nat i)) [0..<k], sna'))
    \<and> (sna_leftShift sna \<noteq> 0 \<longrightarrow> (\<forall>n < numSubnets sna.
        subnet_part sna n AND sna_rightMask sna = 0 \<longleftrightarrow> unat n < 2 ^ unat (sna_rightShift sna)))"
proof -
  have "\<not> taken sna n" if "n < numSubnets sna" for n
    using genSubnet_key [OF assms(1) that] assms(3) by (auto simp: sna_used_keys_def)
  then have "upto_used sna 0" using assms(2) by (simp add: upto_used_def)
  from alloc_many_order [OF assms(1) this] assms(4) shared_octet_zero_iff [OF assms(1)]
  show ?thesis by simp
qed

lemma GetNetwork_order_witness:
  "\<exists>sna'. alloc_many GetNetwork 2 sixteen_by_14 =
     Some (map (\<lambda>i. genSubnet sixteen_by_14 0x0A010000 (of_nat i)) [0..<2], sna')"
proof -
  have "sna_used_keys sixteen_by_14 = {}" "sna_next sixteen_by_14 = 0"
    by (simp_all add: sna_used_keys_def sixteen_by_14_def)
  from GetNetwork_order [OF inv_sixteen_by_14 this(2,1), of 2] show ?thesis
    by (simp add: params_sixteen_by_14)
qed

text \<open>
  C18: what the master stores in a HostSubnet is the printed subnet, and on deletion it parses
  that string again: the parsed net denotes the same addresses, prints the same, and releasing
  it frees exactly the subnet that was handed out, after which a request succeeds again.
\<close>

theorem printed_subnet_roundtrip:
  assumes "sna_inv sna" and "GetNetwork sna = Some (Inr g, sna')"
  shows "\<exists>ip n sna''. ParseCIDR (IPNet_String g) = Inr (ip, n) \<and> IPNet_String n = IPNet_String g
    \<and> (\<forall>a. IPNet_Contains n a \<longleftrightarrow> IPNet_Contains g a)
    \<and> ReleaseNetwork n sna' = (None, sna'') \<and> sna_used_keys sna'' = sna_used_keys sna
    \<and> (\<exists>g2 sna3. GetNetwork sna'' = Some (Inr g2, sna3))"
proof -
  note ok = subnets.al_ok [OF assms]
  from universe_parse [OF assms(1) Get_in_universe [OF assms]] obtain ip n where
    n: "ParseCIDR (IPNet_String g) = Inr (ip, n)" "IPNet_String n = IPNet_String g" "v4_net n"
      "\<forall>a. IPNet_Contains n a \<longleftrightarrow> IPNet_Contains g a" by blast
  have inv': "sna_inv sna'" and used': "IPNet_String n \<in> sna_used_keys sna'" using ok n(2) by auto
  from subnets.release_then_get [OF inv' n(3) used'] obtain s1 g2 s2 where
    rel: "ReleaseNetwork n sna' = (None, s1)" and get: "GetNetwork s1 = Some (Inr g2, s2)" by blast
  have "sna_used_keys s1 = sna_used_keys sna"
    using subnets.rl_ok [OF inv' n(3) rel] ok n(2) by auto
  with n rel get show ?thesis by blast
qed

theorem printed_subnet_roundtrip_witness:
  "\<exists>ip n. ParseCIDR (IPNet_String (host_subnet 0x0A010000 18)) = Inr (ip, n)
     \<and> IPNet_String n = IPNet_String (host_subnet 0x0A010000 18)"
  using printed_subnet_roundtrip [OF inv_sixteen_by_14 Get_sixteen_by_14] by blast

text \<open>
  A subnet in use that has another size than the allocator's is not kept free: with
  10.1.0.0/22 in use, an allocator for /24 subnets of 10.1.0.0/16 hands out 10.1.0.0/24, which
  lies inside it. The map is indexed by the printed notation, and only equal strings collide.
\<close>

lemma other_size_not_reserved:
  "\<exists>sna g sna'. NewSubnetAllocator ''10.1.0.0/16'' 8 [''10.1.0.0/22''] = Inr sna
     \<and> GetNetwork sna = Some (Inr g, sna') \<and> IPNet_String g = ''10.1.0.0/24''
     \<and> IPNet_Contains (snd (projr (ParseCIDR ''10.1.0.0/22''))) (ipnet_IP g)"
proof -
  define net where "net = \<lparr>ipnet_IP = [10, 1, 0, 0], ipnet_Mask = [255, 255, 0, 0]\<rparr>"
  define sna where "sna = \<lparr>sna_network = net, sna_hostBits = 8,
      sna_leftShift = 0, sna_leftMask = 0xFFFFFFFF, sna_rightShift = 0, sna_rightMask = 0,
      sna_next = 0, sna_allocMap = [''10.1.0.0/22'' \<mapsto> True]\<rparr>"
  have new: "NewSubnetAllocator ''10.1.0.0/16'' 8 [''10.1.0.0/22''] = Inr sna"
    by (simp add: NewSubnetAllocator_def rotation_def sna_def net_def str_simps)
  have num: "numSubnets sna = 256" and base: "IPToUint32 (ipnet_IP (sna_network sna)) = Some 0x0A010000"
    by (simp_all add: numSubnets_def numSubnetBits_def netMaskSize_def sna_def net_def IPToUint32_def str_simps)
  have gen: "genSubnet sna 0x0A010000 0 = host_subnet 0x0A010000 24"
    by (simp add: genSubnet_def host_subnet_def subnet_part_def numSubnetBits_def netMaskSize_def
        sna_def net_def str_simps)
  have key: "IPNet_String (host_subnet 0x0A010000 24) = ''10.1.0.0/24''"
    by (subst host_subnet_String) (simp_all add: bytes4_def str_simps)
  have "get_loop sna 0x0A010000 0 = (Inr (host_subnet 0x0A010000 24),
      sna\<lparr>sna_allocMap := (sna_allocMap sna)(''10.1.0.0/24'' \<mapsto> True), sna_next := 1\<rparr>)"
    by (subst get_loop.simps) (simp add: Let_def num gen key, simp add: sna_def gen [unfolded sna_def] key get_bool_def)
  moreover have "IPNet_Contains (snd (projr (ParseCIDR ''10.1.0.0/22''))) (Uint32ToIP 0x0A010000)"
    by (simp add: str_simps Uint32ToIP_def)
  ultimately show ?thesis using new base key by (auto simp: GetNetwork_def host_subnet_def)
qed

end
