(* ===== verification/MemoryApi.thy ===== *)
theory MemoryApi
  imports Api
begin

text \<open>
  A server that keeps its objects in memory and answers as the API documents it: \<open>Get\<close>, \<open>Update\<close>
  and \<open>Delete\<close> fail on a missing object, \<open>Create\<close> fails on an existing one. It stands for the
  clients in the examples that show the hypotheses of the theorems can hold, and in the
  scenarios; no general theorem is about it.
\<close>

record memory =
  mem_subnets :: "(string \<times> HostSubnet) list"
  mem_netns :: "(string \<times> u64) list"
  mem_network :: "ClusterNetwork option"
  mem_pods :: "Pod list"
  mem_services :: "Service list"

definition not_found :: error where
  "not_found = Foreign ''not found''"

definition already_exists :: error where
  "already_exists = Foreign ''already exists''"

definition netns_object :: "string \<Rightarrow> u64 \<Rightarrow> NetNamespace" where
  "netns_object name i = \<lparr>nn_Name = name, nn_NetName = name, nn_NetID = i\<rparr>"

definition memory_api :: "memory api" where
  "memory_api =
     \<lparr>HostSubnets_List = \<lambda>w. (Inr (map (\<lambda>(k, s). s\<lparr>hs_Name := k\<rparr>) (AList.clearjunk (mem_subnets w))), w),
      HostSubnets_Get = \<lambda>n w. (case map_of (mem_subnets w) n of None \<Rightarrow> Inl not_found | Some s \<Rightarrow> Inr (s\<lparr>hs_Name := n\<rparr>), w),
      HostSubnets_Create = \<lambda>s w.
        (if map_of (mem_subnets w) (hs_Name s) \<noteq> None then (Inl already_exists, w)
         else (Inr s, w\<lparr>mem_subnets := AList.update (hs_Name s) s (mem_subnets w)\<rparr>)),
      HostSubnets_Update = \<lambda>s w.
        (if map_of (mem_subnets w) (hs_Name s) = None then (Inl not_found, w)
         else (Inr s, w\<lparr>mem_subnets := AList.update (hs_Name s) s (mem_subnets w)\<rparr>)),
      HostSubnets_Delete = \<lambda>n w.
        (if map_of (mem_subnets w) n = None then (Inl not_found, w)
         else (Inr (), w\<lparr>mem_subnets := AList.delete n (mem_subnets w)\<rparr>)),
      NetNamespaces_List = \<lambda>w. (Inr (map (\<lambda>(k, v). netns_object k v) (AList.clearjunk (mem_netns w))), w),
      NetNamespaces_Get = \<lambda>n w. (case map_of (mem_netns w) n of None \<Rightarrow> Inl not_found | Some i \<Rightarrow> Inr (netns_object n i), w),
      NetNamespaces_Create = \<lambda>s w.
        (if map_of (mem_netns w) (nn_Name s) \<noteq> None then (Inl already_exists, w)
         else (Inr s, w\<lparr>mem_netns := AList.update (nn_Name s) (nn_NetID s) (mem_netns w)\<rparr>)),
      NetNamespaces_Update = \<lambda>s w.
        (if map_of (mem_netns w) (nn_Name s) = None then (Inl not_found, w)
         else (Inr s, w\<lparr>mem_netns := AList.update (nn_Name s) (nn_NetID s) (mem_netns w)\<rparr>)),
      NetNamespaces_Delete = \<lambda>n w.
        (if map_of (mem_netns w) n = None then (Inl not_found, w)
         else (Inr (), w\<lparr>mem_netns := AList.delete n (mem_netns w)\<rparr>)),
      ClusterNetwork_Get = \<lambda>n w. (case mem_network w of None \<Rightarrow> Inl not_found | Some cn \<Rightarrow> Inr cn, w),
      ClusterNetwork_Create = \<lambda>cn w.
        (if mem_network w \<noteq> None then (Inl already_exists, w) else (Inr cn, w\<lparr>mem_network := Some cn\<rparr>)),
      ClusterNetwork_Update = \<lambda>cn w.
        (if mem_network w = None then (Inl not_found, w) else (Inr cn, w\<lparr>mem_network := Some cn\<rparr>)),
      Pods_List = \<lambda>ns sel w. (Inr (filter (\<lambda>p. ns = '''' \<or> pod_Namespace p = ns) (mem_pods w)), w),
      Services_List = \<lambda>ns w. (Inr (filter (\<lambda>s. ns = '''' \<or> svc_Namespace s = ns) (mem_services w)), w),
      IsServiceIPSet = \<lambda>s. svc_ClusterIP s \<noteq> '''' \<and> svc_ClusterIP s \<noteq> ''None''\<rparr>"

definition empty_memory :: memory where
  "empty_memory =
     \<lparr>mem_subnets = [], mem_netns = [], mem_network = None, mem_pods = [], mem_services = []\<rparr>"

lemmas memory_defs = memory_api_def empty_memory_def

end
