(* ===== verification/VnidMaster.thy ===== *)
theory VnidMaster
  imports VnidMap NetIDAllocator SubnetAllocator MemoryApi "HOL-Library.Monad_Syntax"
begin

text \<open>
  The master's side of \<open>plugins/osdn/vnids.go\<close>: it gives every namespace a virtual network id when
  the namespace appears and takes it back when it goes. The state is \<open>OsdnMaster\<close> of
  \<open>plugins/osdn/master.go\<close>; its allocators are pointers that are nil until the start functions set
  them. A whole result of \<open>None\<close> is a panic.
\<close>

section \<open>The model\<close>

record OsdnMaster =
  m_registry :: Registry
  m_subnetAllocator :: "subnetAllocator option"
  m_vnids :: vnidMap
  m_netIDManager :: "netIDAllocator option"
  m_adminNamespaces :: "string list"

fun is_admin :: "string list \<Rightarrow> string \<Rightarrow> bool" where
  "is_admin [] nsName = False"
| "is_admin (name # names) nsName = (if name = nsName then True else is_admin names nsName)"

definition isAdminNamespace :: "OsdnMaster \<Rightarrow> string \<Rightarrow> bool" where
  "isAdminNamespace master nsName = is_admin (m_adminNamespaces master) nsName"

definition VnidStartMaster :: "'w api \<Rightarrow> OsdnMaster \<Rightarrow> 'w \<Rightarrow> error option \<times> OsdnMaster \<times> 'w" where
  "VnidStartMaster api master w =
     (case PopulateVNIDs api (m_vnids master) w of
        (Some err, vmap, w1) \<Rightarrow> (Some err, master\<lparr>m_vnids := vmap\<rparr>, w1)
      | (None, vmap, w1) \<Rightarrow>
          (case NewNetIDAllocator 10 MaxVNID (GetAllocatedVNIDs vmap) of
             Inl err \<Rightarrow> (Some err, master\<lparr>m_vnids := vmap, m_netIDManager := None\<rparr>, w1)
           | Inr nia \<Rightarrow>
               (None, master\<lparr>m_vnids := vmap, m_netIDManager := Some nia,
                        m_adminNamespaces := m_adminNamespaces master @ [''default'']\<rparr>, w1)))"

text \<open>The id for a new NetNamespace: the admin id, or a fresh one.\<close>

definition choose_netid :: "string \<Rightarrow> OsdnMaster \<Rightarrow> ((error + u64) \<times> OsdnMaster) option" where
  "choose_netid namespaceName master =
     (if isAdminNamespace master namespaceName then Some (Inr AdminVNID, master)
      else do { nia \<leftarrow> m_netIDManager master;
                (r, nia1) \<leftarrow> GetNetID nia;
                Some (r, master\<lparr>m_netIDManager := Some nia1\<rparr>) })"

text \<open>Create the NetNamespace object and update the table, or give the id back.\<close>

definition create_netns ::
  "'w api \<Rightarrow> string \<Rightarrow> u64 \<Rightarrow> OsdnMaster \<Rightarrow> 'w \<Rightarrow> (error option \<times> OsdnMaster \<times> 'w) option" where
  "create_netns api namespaceName netid master w =
     (case WriteNetNamespace api namespaceName netid w of
        (Some err, w1) \<Rightarrow>
          do { nia \<leftarrow> m_netIDManager master;
               Some (Some err, master\<lparr>m_netIDManager := Some (snd (ReleaseNetID netid nia))\<rparr>, w1) }
      | (None, w1) \<Rightarrow>
          Some (None, master\<lparr>m_vnids := SetVNID namespaceName netid (m_vnids master)\<rparr>, w1))"

definition assignVNID ::
  "'w api \<Rightarrow> string \<Rightarrow> OsdnMaster \<Rightarrow> 'w \<Rightarrow> (error option \<times> OsdnMaster \<times> 'w) option" where
  "assignVNID api namespaceName master w =
     (if snd (GetVNID namespaceName (m_vnids master)) = None then Some (None, master, w)
      else case GetNetNamespace api namespaceName w of
        (Inr netns, w1) \<Rightarrow>
          Some (None, master\<lparr>m_vnids := SetVNID namespaceName (nn_NetID netns) (m_vnids master)\<rparr>, w1)
      | (Inl _, w1) \<Rightarrow>
          do { (r, master1) \<leftarrow> choose_netid namespaceName master;
               (case r of
                  Inl err \<Rightarrow> Some (Some err, master1, w1)
                | Inr netid \<Rightarrow> create_netns api namespaceName netid master1 w1) })"

definition revokeVNID ::
  "'w api \<Rightarrow> string \<Rightarrow> OsdnMaster \<Rightarrow> 'w \<Rightarrow> (error option \<times> OsdnMaster \<times> 'w) option" where
  "revokeVNID api namespaceName master w =
     (let ((netid, err), vmap) = UnsetVNID namespaceName (m_vnids master);
          netid_found = (err = None);
          master1 = master\<lparr>m_vnids := vmap\<rparr>
      in case DeleteNetNamespace api namespaceName w of
           (Some err, w1) \<Rightarrow> Some (Some err, master1, w1)
         | (None, w1) \<Rightarrow>
             if netid = AdminVNID \<or> \<not> netid_found then Some (None, master1, w1)
             else if \<not> CheckVNID netid vmap then
               do { nia \<leftarrow> m_netIDManager master1;
                    let (e, nia1) = ReleaseNetID netid nia;
                    Some (map_option (\<lambda>x. Errorf ''Error while releasing netid %d for namespace %q, %v'' [x]) e,
                          master1\<lparr>m_netIDManager := Some nia1\<rparr>, w1) }
             else Some (None, master1, w1))"

text \<open>One turn of the loop of \<open>watchNamespaces\<close>; errors are logged and the loop goes on.\<close>

fun watchNamespaces ::
  "'w api \<Rightarrow> string event \<Rightarrow> OsdnMaster \<times> 'w \<Rightarrow> (OsdnMaster \<times> 'w) option" where
  "watchNamespaces api (Event Added name) (master, w) = map_option snd (assignVNID api name master w)"
| "watchNamespaces api (Event Modified name) (master, w) = map_option snd (assignVNID api name master w)"
| "watchNamespaces api (Event Deleted name) (master, w) = map_option snd (revokeVNID api name master w)"
| "watchNamespaces api (Event OtherType name) (master, w) = Some (master, w)"
| "watchNamespaces api (QueueFailed err) (master, w) = Some (master, w)"

definition namespace_loop ::
  "'w api \<Rightarrow> string event \<Rightarrow> (OsdnMaster \<times> 'w) option \<Rightarrow> (OsdnMaster \<times> 'w) option" where
  "namespace_loop api e s = do { s1 \<leftarrow> s; watchNamespaces api e s1 }"

section \<open>What the server stores\<close>

text \<open>
  \<open>view\<close> reads the NetNamespaces stored in a world. The hypothesis says what the API documents,
  when nobody but this master writes them: a read changes nothing, \<open>Create\<close> stores a new object
  or fails and stores nothing, and so on. Every call may fail, except that \<open>Delete\<close> may not when
  \<open>reliable\<close> is set.
\<close>

definition netns_server :: "'w api \<Rightarrow> ('w \<Rightarrow> string \<rightharpoonup> u64) \<Rightarrow> bool \<Rightarrow> bool" where
  "netns_server api view reliable \<longleftrightarrow>
     (\<forall>w r w'. NetNamespaces_List api w = (r, w') \<longrightarrow> view w' = view w \<and>
        (case r of Inl e \<Rightarrow> True
         | Inr nets \<Rightarrow> map_of (map (\<lambda>n. (nn_Name n, nn_NetID n)) nets) = view w \<and> distinct (map nn_Name nets))) \<and>
     (\<forall>ns w r w'. NetNamespaces_Get api ns w = (r, w') \<longrightarrow> view w' = view w \<and>
        (case r of Inl e \<Rightarrow> True | Inr n \<Rightarrow> view w ns = Some (nn_NetID n))) \<and>
     (\<forall>n w r w'. NetNamespaces_Create api n w = (r, w') \<longrightarrow>
        (case r of Inl e \<Rightarrow> view w' = view w
         | Inr _ \<Rightarrow> view w (nn_Name n) = None \<and> view w' = (view w)(nn_Name n \<mapsto> nn_NetID n))) \<and>
     (\<forall>ns w r w'. NetNamespaces_Delete api ns w = (r, w') \<longrightarrow>
        (case r of Inl e \<Rightarrow> view w' = view w \<and> (reliable \<longrightarrow> view w ns = None)
         | Inr _ \<Rightarrow> view w' = (view w)(ns := None)))"

text \<open>No two namespaces share an id other than the admin id.\<close>

definition unique_ids :: "(string \<rightharpoonup> u64) \<Rightarrow> bool" where
  "unique_ids v \<longleftrightarrow> (\<forall>a b i. v a = Some i \<and> v b = Some i \<and> i \<noteq> 0 \<longrightarrow> a = b)"

text \<open>
  The invariant of the master: the table agrees with the server, every stored id but the admin
  id is taken in the allocator, and what the server stores is all in the table or, when
  deletions may fail, has no shared ids.
\<close>

definition vnid_inv :: "('w \<Rightarrow> string \<rightharpoonup> u64) \<Rightarrow> bool \<Rightarrow> OsdnMaster \<times> 'w \<Rightarrow> bool" where
  "vnid_inv view reliable = (\<lambda>(m, w).
     vnid_wf (m_vnids m) \<and>
     (\<exists>nia. m_netIDManager m = Some nia \<and> nia_inv nia \<and> nia_universe nia = {10..MaxVNID} \<and>
        (\<forall>ns i. view w ns = Some i \<and> i \<noteq> 0 \<longrightarrow> i \<in> nia_used nia)) \<and>
     map_of (m_vnids m) \<subseteq>\<^sub>m view w \<and>
     (if reliable then dom (view w) \<subseteq> dom (map_of (m_vnids m)) else unique_ids (view w)))"

section \<open>Lemmas\<close>

lemma is_admin_iff: "is_admin names n \<longleftrightarrow> n \<in> set names"
  by (induction names) auto

lemma nia_max_less: "nia_inv nia \<Longrightarrow> nia_max nia < - 1"
  by (simp add: nia_inv_def)

lemma server_get:
  "netns_server api view rel \<Longrightarrow> GetNetNamespace api ns w = (r, w') \<Longrightarrow>
     view w' = view w \<and> (\<forall>n. r = Inr n \<longrightarrow> view w ns = Some (nn_NetID n))"
  unfolding netns_server_def GetNetNamespace_def by (auto split: sum.splits)

lemma server_write:
  "netns_server api view rel \<Longrightarrow> WriteNetNamespace api ns i w = (e, w') \<Longrightarrow>
     (case e of Some x \<Rightarrow> view w' = view w
      | None \<Rightarrow> view w ns = None \<and> view w' = (view w)(ns \<mapsto> i))"
proof -
  assume s: "netns_server api view rel" and wr: "WriteNetNamespace api ns i w = (e, w')"
  let ?n = "\<lparr>nn_Name = ns, nn_NetName = ns, nn_NetID = i\<rparr>"
  obtain r where r: "NetNamespaces_Create api ?n w = (r, w')" "e = err_of r"
    using wr by (cases "NetNamespaces_Create api ?n w") (auto simp: WriteNetNamespace_def)
  have "case r of Inl e \<Rightarrow> view w' = view w
      | Inr _ \<Rightarrow> view w (nn_Name ?n) = None \<and> view w' = (view w)(nn_Name ?n \<mapsto> nn_NetID ?n)"
    using s r(1) unfolding netns_server_def by blast
  then show ?thesis using r(2) by (cases r) simp_all
qed

lemma server_delete:
  "netns_server api view rel \<Longrightarrow> DeleteNetNamespace api ns w = (e, w') \<Longrightarrow>
     (case e of Some x \<Rightarrow> view w' = view w \<and> (rel \<longrightarrow> view w ns = None)
      | None \<Rightarrow> view w' = (view w)(ns := None))"
proof -
  assume s: "netns_server api view rel" and wr: "DeleteNetNamespace api ns w = (e, w')"
  obtain r where r: "NetNamespaces_Delete api ns w = (r, w')" "e = err_of r"
    using wr by (cases "NetNamespaces_Delete api ns w") (auto simp: DeleteNetNamespace_def)
  have "case r of Inl e \<Rightarrow> view w' = view w \<and> (rel \<longrightarrow> view w ns = None)
      | Inr _ \<Rightarrow> view w' = (view w)(ns := None)"
    using s r(1) unfolding netns_server_def by blast
  then show ?thesis using r(2) by (cases r) simp_all
qed

lemma vnid_invE:
  assumes "vnid_inv view rel (m, w)"
  obtains nia where "vnid_wf (m_vnids m)" "m_netIDManager m = Some nia" "nia_inv nia"
    "nia_universe nia = {10..MaxVNID}" "\<And>ns i. view w ns = Some i \<Longrightarrow> i \<noteq> 0 \<Longrightarrow> i \<in> nia_used nia"
    "map_of (m_vnids m) \<subseteq>\<^sub>m view w"
    "rel \<Longrightarrow> dom (view w) \<subseteq> dom (map_of (m_vnids m))" "\<not> rel \<Longrightarrow> unique_ids (view w)"
  using assms unfolding vnid_inv_def by (auto split: if_splits)

lemma vnid_invI:
  assumes "vnid_wf (m_vnids m)" "m_netIDManager m = Some nia" "nia_inv nia"
    "nia_universe nia = {10..MaxVNID}" "\<And>ns i. view w ns = Some i \<Longrightarrow> i \<noteq> 0 \<Longrightarrow> i \<in> nia_used nia"
    "map_of (m_vnids m) \<subseteq>\<^sub>m view w"
    "rel \<Longrightarrow> dom (view w) \<subseteq> dom (map_of (m_vnids m))" "\<not> rel \<Longrightarrow> unique_ids (view w)"
  shows "vnid_inv view rel (m, w)"
  using assms unfolding vnid_inv_def by auto

text \<open>The invariant speaks of the stored ids only through the view.\<close>

lemma vnid_inv_view: "view w' = view w \<Longrightarrow> vnid_inv view rel (m, w') = vnid_inv view rel (m, w)"
  by (simp add: vnid_inv_def)

definition take_id :: "u64 \<Rightarrow> OsdnMaster \<Rightarrow> OsdnMaster" where
  "take_id k m = m\<lparr>m_netIDManager := map_option (\<lambda>nia. nia\<lparr>nia_allocMap := (nia_allocMap nia)(k \<mapsto> True)\<rparr>)
     (m_netIDManager m)\<rparr>"

lemma choose_netid_cases:
  assumes "m_netIDManager m = Some nia" and "nia_inv nia"
  obtains (admin) "isAdminNamespace m ns" "choose_netid ns m = Some (Inr 0, m)"
  | (fresh) k where "\<not> isAdminNamespace m ns" "choose_netid ns m = Some (Inr k, take_id k m)"
      "k \<in> nia_universe nia" "k \<notin> nia_used nia"
  | (full) "\<not> isAdminNamespace m ns" "choose_netid ns m = Some (Inl (Errorf ''No NetIDs available.'' []), m)"
proof (cases "isAdminNamespace m ns")
  case True
  then show ?thesis by (intro admin) (simp_all add: choose_netid_def AdminVNID_def)
next
  case False
  have "nia_max nia < - 1" using assms(2) by (simp add: nia_inv_def)
  then show ?thesis
  proof (cases rule: GetNetID_cases)
    case (got k)
    then show ?thesis using False assms(1)
      by (intro fresh [of k]) (simp_all add: choose_netid_def take_id_def)
  next
    case full': full
    then show ?thesis using False assms(1) by (intro full) (simp_all add: choose_netid_def)
  qed
qed

lemma vnid_inv_take:
  assumes i: "vnid_inv view rel (m, w)" and k: "m_netIDManager m = Some nia" "k \<in> nia_universe nia"
  shows "vnid_inv view rel (take_id k m, w)"
proof (rule vnid_invE [OF i], rule vnid_invI)
  fix nia'
  assume n: "m_netIDManager m = Some nia'" "nia_inv nia'" "nia_universe nia' = {10..MaxVNID}"
    "\<And>ns i. view w ns = Some i \<Longrightarrow> i \<noteq> 0 \<Longrightarrow> i \<in> nia_used nia'"
  let ?nia = "nia'\<lparr>nia_allocMap := (nia_allocMap nia')(k \<mapsto> True)\<rparr>"
  show "m_netIDManager (take_id k m) = Some ?nia" using n(1) by (simp add: take_id_def)
  show "nia_inv ?nia" using n k by (auto simp: nia_inv_def)
  show "nia_universe ?nia = {10..MaxVNID}" using n(3) by simp
  show "i \<in> nia_used ?nia" if "view w ns = Some i" "i \<noteq> 0" for ns i using n(4) that by simp
qed (auto simp: take_id_def)

text \<open>The id stays usable after a failed write: it is given back.\<close>

lemma vnid_inv_untake:
  assumes i: "vnid_inv view rel (m, w)" and n: "m_netIDManager m = Some nia"
    and k: "k = 0 \<or> (\<forall>ns. view w ns \<noteq> Some k)"
  shows "vnid_inv view rel (m\<lparr>m_netIDManager := Some (snd (ReleaseNetID k nia))\<rparr>, w)"
proof -
  from vnid_invE [OF i] n have a: "nia_inv nia" "nia_universe nia = {10..MaxVNID}"
    "\<And>ns i. view w ns = Some i \<Longrightarrow> i \<noteq> 0 \<Longrightarrow> i \<in> nia_used nia" by (metis option.inject)+
  obtain er nia2 where r: "ReleaseNetID k nia = (er, nia2)" by fastforce
  have cases: "nia2 = nia \<or> nia2 = nia\<lparr>nia_allocMap := (nia_allocMap nia)(k \<mapsto> False)\<rparr> \<and> k \<noteq> 0"
  proof (cases er)
    case None
    with r have "k \<in> nia_universe nia" using ReleaseNetID_ok_iff [of k nia] by simp
    then have "k \<noteq> 0" using a(2) by auto
    with None r ReleaseNetID_state(1) [of k nia nia2] show ?thesis by simp
  next
    case (Some x)
    with r ReleaseNetID_state(2) [of k nia x nia2] show ?thesis by simp
  qed
  have n2: "nia_inv nia2" "nia_universe nia2 = {10..MaxVNID}"
    "\<And>ns i. view w ns = Some i \<Longrightarrow> i \<noteq> 0 \<Longrightarrow> i \<in> nia_used nia2"
    using cases a k by (auto simp: nia_inv_def)
  show ?thesis
    by (rule vnid_invE [OF i], rule vnid_invI [of _ nia2]) (use r n2 in auto)
qed

lemma vnid_inv_write:
  assumes i: "vnid_inv view rel (m, w)" and v: "view w ns = None" "view w' = (view w)(ns \<mapsto> k)"
    and k: "k = 0 \<or> (\<forall>ns. view w ns \<noteq> Some k)" "k = 0 \<or> k \<in> nia_used nia" "m_netIDManager m = Some nia"
  shows "vnid_inv view rel (m\<lparr>m_vnids := SetVNID ns k (m_vnids m)\<rparr>, w')"
proof (rule vnid_invE [OF i], rule vnid_invI)
  fix nia'
  assume a: "m_netIDManager m = Some nia'"
    "\<And>ns i. view w ns = Some i \<Longrightarrow> i \<noteq> 0 \<Longrightarrow> i \<in> nia_used nia'"
    "map_of (m_vnids m) \<subseteq>\<^sub>m view w"
    "rel \<Longrightarrow> dom (view w) \<subseteq> dom (map_of (m_vnids m))" "\<not> rel \<Longrightarrow> unique_ids (view w)"
  let ?m = "m\<lparr>m_vnids := SetVNID ns k (m_vnids m)\<rparr>"
  show "m_netIDManager ?m = Some nia'" using a(1) by simp
  show "i \<in> nia_used nia'" if "view w' n = Some i" "i \<noteq> 0" for n i
    using that a(1,2) v k by (auto split: if_splits)
  show "map_of (m_vnids ?m) \<subseteq>\<^sub>m view w'" using a(3) v by (auto simp: map_le_def)
  show "dom (view w') \<subseteq> dom (map_of (m_vnids ?m))" if rel using a(4) [OF that] v by auto
  show "unique_ids (view w')" if "\<not> rel" using a(5) [OF that] v k(1) by (auto simp: unique_ids_def)
qed auto

text \<open>What creating a NetNamespace with an id that is free on the server does.\<close>

lemma create_netns_inv:
  assumes s: "netns_server api view rel" and i: "vnid_inv view rel (m, w)"
    and n: "m_netIDManager m = Some nia"
    and k: "k = 0 \<or> (\<forall>ns. view w ns \<noteq> Some k)" "k = 0 \<or> k \<in> nia_used nia"
  shows "\<exists>e m' w'. create_netns api ns k m w = Some (e, m', w') \<and> vnid_inv view rel (m', w')
    \<and> m_adminNamespaces m' = m_adminNamespaces m
    \<and> (view w' = view w \<or> view w ns = None \<and> view w' = (view w)(ns \<mapsto> k))"
proof -
  obtain e w2 where wr: "WriteNetNamespace api ns k w = (e, w2)" by fastforce
  show ?thesis
  proof (cases e)
    case (Some y)
    with server_write [OF s wr] have v2: "view w2 = view w" by simp
    have "vnid_inv view rel (m\<lparr>m_netIDManager := Some (snd (ReleaseNetID k nia))\<rparr>, w2)"
      using vnid_inv_untake [OF i n k(1)] vnid_inv_view [OF v2] by simp
    with wr Some n v2 show ?thesis by (simp add: create_netns_def)
  next
    case None
    with server_write [OF s wr] have v2: "view w ns = None" "view w2 = (view w)(ns \<mapsto> k)" by simp_all
    with wr None vnid_inv_write [OF i v2 k n] show ?thesis by (simp add: create_netns_def)
  qed
qed

lemma take_id_frame [simp]: "m_adminNamespaces (take_id k m) = m_adminNamespaces m"
  "m_vnids (take_id k m) = m_vnids m"
  by (simp_all add: take_id_def)

text \<open>The outcome of an event for namespace \<open>ns\<close>: nothing new on the server, or one new id.\<close>

definition assigned :: "OsdnMaster \<Rightarrow> string \<Rightarrow> (string \<rightharpoonup> u64) \<Rightarrow> (string \<rightharpoonup> u64) \<Rightarrow> bool" where
  "assigned m ns v v' \<longleftrightarrow> v' = v \<or>
     (\<exists>k. v ns = None \<and> v' = v(ns \<mapsto> k) \<and>
        (if isAdminNamespace m ns then k = 0 else 10 \<le> k \<and> k \<le> MaxVNID \<and> (\<forall>ns'. v ns' \<noteq> Some k)))"

lemma assignVNID_new:
  assumes s: "netns_server api view rel" and i: "vnid_inv view rel (m, w)"
    and m: "map_of (m_vnids m) ns = None" and g: "GetNetNamespace api ns w = (Inl x, w1)"
  shows "\<exists>e m' w'. assignVNID api ns m w = Some (e, m', w') \<and> vnid_inv view rel (m', w')
    \<and> m_adminNamespaces m' = m_adminNamespaces m \<and> assigned m ns (view w) (view w')"
proof -
  from vnid_invE [OF i] obtain nia where n: "m_netIDManager m = Some nia" "nia_inv nia"
    "nia_universe nia = {10..MaxVNID}" "\<And>ns i. view w ns = Some i \<Longrightarrow> i \<noteq> 0 \<Longrightarrow> i \<in> nia_used nia"
    by metis
  from server_get [OF s g] have v1: "view w1 = view w" by simp
  have i1: "vnid_inv view rel (m, w1)" using i vnid_inv_view [OF v1] by simp
  from n(1,2) show ?thesis
  proof (cases rule: choose_netid_cases [of m nia ns])
    case full
    with m g i1 v1 show ?thesis by (simp add: assignVNID_def assigned_def)
  next
    case admin
    from create_netns_inv [OF s i1 n(1), of 0 ns] obtain e m' w' where
      "create_netns api ns 0 m w1 = Some (e, m', w')" "vnid_inv view rel (m', w')"
      "m_adminNamespaces m' = m_adminNamespaces m"
      "view w' = view w1 \<or> view w1 ns = None \<and> view w' = (view w1)(ns \<mapsto> 0)" by blast
    with m g admin v1 show ?thesis by (auto simp: assignVNID_def assigned_def)
  next
    case (fresh k)
    let ?nia = "nia\<lparr>nia_allocMap := (nia_allocMap nia)(k \<mapsto> True)\<rparr>"
    have "10 \<le> k" "k \<le> MaxVNID" "k \<noteq> 0" using fresh(3) n(3) by auto
    then have k: "10 \<le> k" "k \<le> MaxVNID" "\<forall>ns. view w1 ns \<noteq> Some k" using n(4) fresh(4) v1 by auto
    have n2: "m_netIDManager (take_id k m) = Some ?nia" using n(1) by (simp add: take_id_def)
    have "k \<in> nia_used ?nia" by simp
    from create_netns_inv [OF s vnid_inv_take [OF i1 n(1) fresh(3)] n2 disjI2 [OF k(3)] disjI2 [OF this], of ns]
    obtain e m' w' where
      "create_netns api ns k (take_id k m) w1 = Some (e, m', w')" "vnid_inv view rel (m', w')"
      "m_adminNamespaces m' = m_adminNamespaces m"
      "view w' = view w1 \<or> view w1 ns = None \<and> view w' = (view w1)(ns \<mapsto> k)" by auto
    with m g fresh v1 k show ?thesis by (auto simp: assignVNID_def assigned_def)
  qed
qed

lemma assignVNID_inv [inv_intros]:
  assumes s: "netns_server api view rel" and i: "vnid_inv view rel (m, w)"
  shows "\<exists>e m' w'. assignVNID api ns m w = Some (e, m', w') \<and> vnid_inv view rel (m', w')
    \<and> m_adminNamespaces m' = m_adminNamespaces m \<and> assigned m ns (view w) (view w')"
proof (cases "map_of (m_vnids m) ns")
  case (Some k)
  then show ?thesis using i by (simp add: assignVNID_def assigned_def)
next
  case None
  obtain r w1 where g: "GetNetNamespace api ns w = (r, w1)" by fastforce
  show ?thesis
  proof (cases r)
    case (Inl x)
    with assignVNID_new [OF s i None] g show ?thesis by simp
  next
    case (Inr x)
    with server_get [OF s g] have v: "view w1 = view w" "view w ns = Some (nn_NetID x)" by auto
    have i1: "vnid_inv view rel (m, w1)" using i vnid_inv_view [OF v(1)] by simp
    have "vnid_inv view rel (m\<lparr>m_vnids := SetVNID ns (nn_NetID x) (m_vnids m)\<rparr>, w1)"
      by (rule vnid_invE [OF i1], rule vnid_invI) (use v in \<open>auto simp: map_le_def\<close>)
    with None g Inr v(1) show ?thesis by (simp add: assignVNID_def assigned_def)
  qed
qed

text \<open>Taking an id back: the allocator gets it only when no stored namespace has it any more.\<close>

lemma vnid_inv_remove:
  assumes i: "vnid_inv view rel (m, w)" and v: "view w' = (view w)(ns := None)"
  shows "vnid_inv view rel (m\<lparr>m_vnids := snd (UnsetVNID ns (m_vnids m))\<rparr>, w')"
proof (rule vnid_invE [OF i], rule vnid_invI)
  fix nia
  let ?m = "m\<lparr>m_vnids := snd (UnsetVNID ns (m_vnids m))\<rparr>"
  assume a: "vnid_wf (m_vnids m)" "m_netIDManager m = Some nia"
    "\<And>ns i. view w ns = Some i \<Longrightarrow> i \<noteq> 0 \<Longrightarrow> i \<in> nia_used nia" "map_of (m_vnids m) \<subseteq>\<^sub>m view w"
    "rel \<Longrightarrow> dom (view w) \<subseteq> dom (map_of (m_vnids m))" "\<not> rel \<Longrightarrow> unique_ids (view w)"
  show "vnid_wf (m_vnids ?m)" using vnids.wf_remove [OF a(1), of ns] by simp
  show "m_netIDManager ?m = Some nia" using a(2) by simp
  show "j \<in> nia_used nia" if "view w' n = Some j" "j \<noteq> 0" for n j
    using that a(3) v by (auto split: if_splits)
  show "map_of (m_vnids ?m) \<subseteq>\<^sub>m view w'" using a(4) v by (auto simp: vnids.look_remove map_le_def)
  show "dom (view w') \<subseteq> dom (map_of (m_vnids ?m))" if rel
    using a(5) [OF that] v by (auto simp: vnids.look_remove)
  show "unique_ids (view w')" if "\<not> rel" using a(6) [OF that] v by (auto simp: unique_ids_def)
qed auto

lemma vnid_inv_forget:
  assumes i: "vnid_inv view rel (m, w)" and v: "view w' = view w" "rel \<Longrightarrow> view w ns = None"
  shows "vnid_inv view rel (m\<lparr>m_vnids := snd (UnsetVNID ns (m_vnids m))\<rparr>, w')"
proof (rule vnid_invE [OF i], rule vnid_invI)
  let ?m = "m\<lparr>m_vnids := snd (UnsetVNID ns (m_vnids m))\<rparr>"
  assume a: "vnid_wf (m_vnids m)" "map_of (m_vnids m) \<subseteq>\<^sub>m view w"
    "rel \<Longrightarrow> dom (view w) \<subseteq> dom (map_of (m_vnids m))"
  show "vnid_wf (m_vnids ?m)" using vnids.wf_remove [OF a(1), of ns] by simp
  show "map_of (m_vnids ?m) \<subseteq>\<^sub>m view w'" using a(2) v by (auto simp: vnids.look_remove map_le_def)
  show "dom (view w') \<subseteq> dom (map_of (m_vnids ?m))" if rel
    using a(3) [OF that] v(1) v(2) [OF that] by (auto simp: vnids.look_remove)
qed (use v in auto)

lemma last_stored_user:
  assumes i: "vnid_inv view rel (m, w)" and k: "map_of (m_vnids m) ns = Some k" "k \<noteq> 0"
    and c: "\<not> CheckVNID k (snd (UnsetVNID ns (m_vnids m)))" and v: "view w ns' = Some k"
  shows "ns' = ns"
proof (rule vnid_invE [OF i])
  assume a: "vnid_wf (m_vnids m)" "map_of (m_vnids m) \<subseteq>\<^sub>m view w"
    "rel \<Longrightarrow> dom (view w) \<subseteq> dom (map_of (m_vnids m))" "\<not> rel \<Longrightarrow> unique_ids (view w)"
  have vns: "view w ns = Some k" using a(2) k(1) by (force simp: map_le_def)
  show ?thesis
  proof (cases rel)
    case True
    with a(3) v have "ns' \<in> dom (map_of (m_vnids m))" by auto
    then have "map_of (m_vnids m) ns' = Some k" using a(2) v by (force simp: map_le_def)
    then show ?thesis using c by (auto simp: vnids.last_user [OF a(1)])
  next
    case False
    with a(4) vns v k(2) show ?thesis by (auto simp: unique_ids_def)
  qed
qed

lemma revokeVNID_inv [inv_intros]:
  assumes s: "netns_server api view rel" and i: "vnid_inv view rel (m, w)"
  shows "\<exists>e m' w'. revokeVNID api ns m w = Some (e, m', w') \<and> vnid_inv view rel (m', w')
    \<and> m_adminNamespaces m' = m_adminNamespaces m
    \<and> map_of (m_vnids m') = (map_of (m_vnids m))(ns := None)
    \<and> (view w' = view w \<or> view w' = (view w)(ns := None))"
proof -
  from vnid_invE [OF i] obtain nia where n: "m_netIDManager m = Some nia" "map_of (m_vnids m) \<subseteq>\<^sub>m view w" by metis
  obtain k e0 vm where u: "UnsetVNID ns (m_vnids m) = ((k, e0), vm)" by (metis surj_pair)
  have vm: "map_of vm = (map_of (m_vnids m))(ns := None)" using u vnids.look_remove [of ns "m_vnids m"] by simp
  let ?m = "m\<lparr>m_vnids := vm\<rparr>"
  obtain e w1 where d: "DeleteNetNamespace api ns w = (e, w1)" by fastforce
  show ?thesis
  proof (cases e)
    case (Some x)
    with server_delete [OF s d] have "view w1 = view w" "rel \<longrightarrow> view w ns = None" by simp_all
    with vnid_inv_forget [OF i, of w1 ns] u have "vnid_inv view rel (?m, w1)" by simp
    with u d Some vm \<open>view w1 = view w\<close> show ?thesis by (simp add: revokeVNID_def)
  next
    case None
    with server_delete [OF s d] have v1: "view w1 = (view w)(ns := None)" by simp
    with vnid_inv_remove [OF i, of w1 ns] u have i1: "vnid_inv view rel (?m, w1)" by simp
    show ?thesis
    proof (cases "k = 0 \<or> e0 \<noteq> None \<or> CheckVNID k vm")
      case True
      with u d None vm v1 i1 show ?thesis by (auto simp: revokeVNID_def AdminVNID_def Let_def)
    next
      case False
      then have k: "map_of (m_vnids m) ns = Some k" "k \<noteq> 0"
        using u by (auto simp: UnsetVNID_def split: option.splits)
      have "\<forall>n. view w1 n \<noteq> Some k"
        using last_stored_user [OF i k] False u v1 by (auto split: if_splits)
      with vnid_inv_untake [OF i1, of nia k] n(1)
      have "vnid_inv view rel (?m\<lparr>m_netIDManager := Some (snd (ReleaseNetID k nia))\<rparr>, w1)" by simp
      with u d None vm v1 False n(1) show ?thesis
        by (auto simp: revokeVNID_def AdminVNID_def split: prod.splits)
    qed
  qed
qed

lemma netns_list:
  assumes "netns_server api view rel" and "NetNamespaces_List api w = (Inr nets, w1)"
  shows "view w1 = view w \<and> map_of (map (\<lambda>n. (nn_Name n, nn_NetID n)) nets) = view w \<and> distinct (map nn_Name nets)"
  using assms(1) [unfolded netns_server_def, THEN conjunct1, rule_format, OF assms(2)] by simp

lemma populated:
  assumes s: "netns_server api view rel" and l: "NetNamespaces_List api w = (Inr nets, w1)"
  shows "\<exists>vm. PopulateVNIDs api newVnidMap w = (None, vm, w1) \<and> map_of vm = view w \<and> vnid_wf vm \<and> view w1 = view w"
proof -
  let ?kvs = "map (\<lambda>n. (nn_Name n, nn_NetID n)) nets"
  let ?vm = "fold (\<lambda>(k, v). SetVNID k v) ?kvs newVnidMap"
  note n = netns_list [OF s l]
  have d: "distinct (map fst ?kvs)" using n by (simp add: comp_def)
  then have "distinct (map fst (rev ?kvs))" by (simp only: rev_map [symmetric] distinct_rev)
  with d have "map_of (rev ?kvs) = map_of ?kvs" by (simp only: map_of_inject_set set_rev)
  then have "map_of (rev ?kvs) = view w" using n by simp
  then have "map_of ?vm = view w" using vnids.put_all [of ?kvs newVnidMap] by (simp add: newVnidMap_def)
  moreover have "vnid_wf ?vm" using vnids.wf_put_all [of newVnidMap ?kvs] by simp
  ultimately show ?thesis using PopulateVNIDs_map [OF l, of newVnidMap] n by blast
qed

lemma VnidStartMaster_populated:
  assumes "PopulateVNIDs api (m_vnids m) w = (None, vm, w1)" and "vnid_wf vm"
  shows "VnidStartMaster api m w = (e, m', w') \<Longrightarrow>
    w' = w1 \<and> (e = None \<longleftrightarrow> ran (map_of vm) - {0} \<subseteq> {10..MaxVNID})
    \<and> (e = None \<longrightarrow> m_vnids m' = vm \<and> m_adminNamespaces m' = m_adminNamespaces m @ [''default'']
        \<and> (\<exists>nia. m_netIDManager m' = Some nia \<and> nia_inv nia \<and> nia_universe nia = {10..MaxVNID}
             \<and> nia_used nia = ran (map_of vm) - {0}))"
proof -
  assume r: "VnidStartMaster api m w = (e, m', w')"
  have al: "set (GetAllocatedVNIDs vm) = ran (map_of vm) - {0}"
    using vnids.allocated_set [OF assms(2)] by blast
  have lt: "(10 :: u64) < MaxVNID" "MaxVNID < - 1" by (simp_all add: MaxVNID_def word_less_nat_alt unsigned_minus_1_eq_mask mask_eq_exp_minus_1)
  note ok = NewNetIDAllocator_ok_iff [of 10 MaxVNID "GetAllocatedVNIDs vm"]
  show ?thesis
  proof (cases "NewNetIDAllocator 10 MaxVNID (GetAllocatedVNIDs vm)")
    case (Inl x)
    with r assms(1) ok al lt show ?thesis by (auto simp: VnidStartMaster_def)
  next
    case (Inr nia)
    from NewNetIDAllocator_state [OF Inr] NewNetIDAllocator_inv [OF Inr lt(2)] al
    have "nia_inv nia" "nia_universe nia = {10..MaxVNID}" "nia_used nia = ran (map_of vm) - {0}"
      "ran (map_of vm) - {0} \<subseteq> {10..MaxVNID}" by (simp_all add: nia_universe_def)
    with r assms(1) Inr show ?thesis by (auto simp: VnidStartMaster_def)
  qed
qed

lemma namespace_loop_inv:
  assumes "netns_server api view rel" and "vnid_inv view rel (m, w)"
  shows "\<exists>m' w'. namespace_loop api e (Some (m, w)) = Some (m', w') \<and> vnid_inv view rel (m', w')
    \<and> m_adminNamespaces m' = m_adminNamespaces m
    \<and> (case e of
          Event Deleted ns \<Rightarrow> view w' = view w \<or> view w' = (view w)(ns := None)
        | Event OtherType ns \<Rightarrow> view w' = view w
        | Event t ns \<Rightarrow> assigned m ns (view w) (view w')
        | QueueFailed err \<Rightarrow> view w' = view w)"
proof (cases e)
  case (Event t ns)
  show ?thesis
    using assignVNID_inv [OF assms, of ns] revokeVNID_inv [OF assms, of ns] assms(2) Event
    by (cases t) (auto simp: namespace_loop_def)
next
  case (QueueFailed err)
  then show ?thesis using assms by (simp add: namespace_loop_def)
qed

interpretation namespaces: watch_loop "namespace_loop api" "\<lambda>e. netns_server api view rel"
  "\<lambda>s. case s of None \<Rightarrow> False | Some p \<Rightarrow> vnid_inv view rel p" for api view rel
proof (unfold_locales, goal_cases)
  case (1 s e)
  then obtain m w where "s = Some (m, w)" by (cases s) auto
  with 1 namespace_loop_inv [of api view rel m w e] show ?case by auto
qed

section \<open>Properties\<close>

text \<open>
  C2: whatever the calls to the API server answer, as long as nobody else writes NetNamespaces,
  any sequence of namespace events is handled without a panic and keeps the invariant. The next
  event then stores at most one new id, and for a namespace that is not an admin namespace that
  id lies between 10 and the largest VXLAN id and belongs to no other stored namespace: projects
  that were not joined are isolated from one another.
\<close>

theorem namespace_events_isolated:
  assumes "netns_server api view rel" and "vnid_inv view rel (m, w)"
  shows "\<exists>m' w'. run (namespace_loop api) es (Some (m, w)) = Some (m', w') \<and> vnid_inv view rel (m', w')
    \<and> (\<exists>m'' w''. namespace_loop api (Event Added ns) (Some (m', w')) = Some (m'', w'')
         \<and> assigned m' ns (view w') (view w''))"
proof -
  have "case run (namespace_loop api) es (Some (m, w)) of None \<Rightarrow> False | Some p \<Rightarrow> vnid_inv view rel p"
    by (rule namespaces.run_inv) (use assms in simp_all)
  then obtain m' w' where "run (namespace_loop api) es (Some (m, w)) = Some (m', w')" "vnid_inv view rel (m', w')"
    by (auto split: option.splits)
  with namespace_loop_inv [OF assms(1), of m' w' "Event Added ns"] show ?thesis by auto
qed

definition stored_ids :: "memory \<Rightarrow> string \<rightharpoonup> u64" where
  "stored_ids w = map_of (mem_netns w)"

lemma memory_netns_server: "netns_server memory_api stored_ids True"
proof -
  have "map ((\<lambda>n. (nn_Name n, nn_NetID n)) \<circ> (\<lambda>(k, v). netns_object k v)) kvs = kvs" for kvs
    by (induction kvs) (auto simp: netns_object_def)
  moreover have "distinct (map (nn_Name \<circ> (\<lambda>(k, v). netns_object k v)) (AList.clearjunk al))" for al
  proof -
    have "map (nn_Name \<circ> (\<lambda>(k, v). netns_object k v)) kvs = map fst kvs" for kvs
      by (induction kvs) (auto simp: netns_object_def)
    then show ?thesis by (simp only: distinct_clearjunk)
  qed
  moreover have "nn_Name (netns_object k v) = k" "nn_NetID (netns_object k v) = v" for k v
    by (simp_all add: netns_object_def)
  ultimately show ?thesis
    unfolding netns_server_def stored_ids_def
    by (auto simp: memory_defs map_of_clearjunk distinct_clearjunk split: option.splits if_splits)
qed

definition fresh_master :: OsdnMaster where
  "fresh_master =
     \<lparr>m_registry = newRegistry, m_subnetAllocator = None, m_vnids = newVnidMap, m_netIDManager = None,
      m_adminNamespaces = []\<rparr>"

definition started_master :: OsdnMaster where
  "started_master = fst (snd (VnidStartMaster memory_api fresh_master empty_memory))"

lemma started_empty: "VnidStartMaster memory_api fresh_master empty_memory = (None, started_master, empty_memory)"
  by (simp add: started_master_def)
    (simp add: VnidStartMaster_def PopulateVNIDs_def GetNetNamespaces_def memory_defs fresh_master_def
      newVnidMap_def GetAllocatedVNIDs_def NewNetIDAllocator_def MaxVNID_def)

text \<open>
  The start of the master reads the stored ids into its table. It succeeds exactly when the
  list can be read and every stored id is the admin id or lies in the range, and the invariant
  then holds, so that all the events after it are handled as above.
\<close>

lemma VnidStartMaster_establishes:
  assumes "netns_server api view rel" and "m_vnids m = newVnidMap"
    and "VnidStartMaster api m w = (e, m', w')"
  shows "(e = None \<longleftrightarrow> (\<exists>nets w1. NetNamespaces_List api w = (Inr nets, w1)) \<and> ran (view w) - {0} \<subseteq> {10..MaxVNID})
    \<and> (e = None \<and> (rel \<or> unique_ids (view w)) \<longrightarrow> vnid_inv view rel (m', w') \<and> isAdminNamespace m' ''default'')"
proof (cases "NetNamespaces_List api w")
  case (Pair r w1)
  show ?thesis
  proof (cases r)
    case (Inl x)
    with Pair assms(3) show ?thesis by (auto simp: VnidStartMaster_def PopulateVNIDs_def GetNetNamespaces_def)
  next
    case (Inr nets)
    with Pair populated [OF assms(1)] obtain vm where
      p: "PopulateVNIDs api (m_vnids m) w = (None, vm, w1)" "map_of vm = view w" "vnid_wf vm" "view w1 = view w"
      using assms(2) by metis
    from VnidStartMaster_populated [OF p(1,3) assms(3)] p(2,4)
    have f: "w' = w1" "e = None \<longleftrightarrow> ran (view w) - {0} \<subseteq> {10..MaxVNID}"
      "e = None \<Longrightarrow> m_vnids m' = vm \<and> m_adminNamespaces m' = m_adminNamespaces m @ [''default'']
        \<and> (\<exists>nia. m_netIDManager m' = Some nia \<and> nia_inv nia \<and> nia_universe nia = {10..MaxVNID}
             \<and> nia_used nia = ran (view w) - {0})" by auto
    have "vnid_inv view rel (m', w')" if e: "e = None" and u: "rel \<or> unique_ids (view w)"
    proof -
      from f(3) [OF e] obtain nia where n: "m_vnids m' = vm" "m_netIDManager m' = Some nia" "nia_inv nia"
        "nia_universe nia = {10..MaxVNID}" "nia_used nia = ran (view w) - {0}" by blast
      show ?thesis
        by (rule vnid_invI [of m' nia]) (use n p f(1) u in \<open>auto simp: ran_def\<close>)
    qed
    with f Pair Inr show ?thesis by (auto simp: isAdminNamespace_def is_admin_iff)
  qed
qed

text \<open>
  When a namespace goes and its NetNamespace is deleted, its id is given back exactly if no
  other namespace still uses it; and when the deletion fails the id is never handed out again.
\<close>

lemma revokeVNID_releases:
  assumes "netns_server api view rel" and "vnid_inv view rel (m, w)"
    and "map_of (m_vnids m) ns = Some k" and "k \<noteq> 0" and "m_netIDManager m = Some nia"
  shows "\<exists>e m' w' nia'. revokeVNID api ns m w = Some (e, m', w') \<and> m_netIDManager m' = Some nia'
    \<and> (if view w' ns = None
        then nia_used nia' = (if \<exists>ns'. ns' \<noteq> ns \<and> view w ns' = Some k then nia_used nia else nia_used nia - {k})
        else e \<noteq> None \<and> nia_used nia' = nia_used nia)"
proof -
  from vnid_invE [OF assms(2)] assms(5) have n: "vnid_wf (m_vnids m)" "map_of (m_vnids m) \<subseteq>\<^sub>m view w"
    "nia_universe nia = {10..MaxVNID}" "\<And>ns i. view w ns = Some i \<Longrightarrow> i \<noteq> 0 \<Longrightarrow> i \<in> nia_used nia" "nia_inv nia"
    by (metis option.inject)+
  have u: "UnsetVNID ns (m_vnids m) = ((k, None), AList.delete ns (m_vnids m))" using assms(3) by simp
  have vk: "view w ns = Some k" using n(2) assms(3) by (force simp: map_le_def)
  have ch: "CheckVNID k (AList.delete ns (m_vnids m)) \<longleftrightarrow> (\<exists>ns'. ns' \<noteq> ns \<and> view w ns' = Some k)"
    using vnids.last_user [OF n(1), of k ns] last_stored_user [OF assms(2-4)] u n(2)
    by (auto simp: map_le_def) (metis domI option.sel)+
  have kin: "k \<in> nia_universe nia \<inter> nia_used nia"
    using n(4) [OF vk assms(4)] netids.used_universe [OF n(5)] by auto
  obtain nia2 where rl: "ReleaseNetID k nia = (None, nia2)" "nia_used nia2 = nia_used nia - {k}"
    using kin ReleaseNetID_ok_iff [of k nia] ReleaseNetID_state(1) [of k nia]
    by (cases "ReleaseNetID k nia") auto
  obtain e w1 where d: "DeleteNetNamespace api ns w = (e, w1)" by fastforce
  note sd = server_delete [OF assms(1) d]
  show ?thesis
  proof (cases e)
    case (Some x)
    with sd vk d u assms(5) show ?thesis by (simp add: revokeVNID_def)
  next
    case None
    with sd d u assms(4,5) ch rl show ?thesis by (auto simp: revokeVNID_def AdminVNID_def Let_def)
  qed
qed

lemma VnidStartMaster_establishes_witness:
  "vnid_inv stored_ids True (started_master, empty_memory) \<and> isAdminNamespace started_master ''default''"
  using VnidStartMaster_establishes [OF memory_netns_server _ started_empty]
  by (simp add: fresh_master_def)

lemma inv_started: "vnid_inv stored_ids True (started_master, empty_memory)"
proof (rule vnid_invI)
  let ?nia = "\<lparr>nia_min = 10, nia_max = MaxVNID, nia_allocMap = Map.empty\<rparr>"
  have m: "started_master = fresh_master\<lparr>m_netIDManager := Some ?nia, m_adminNamespaces := [''default'']\<rparr>"
    by (simp add: started_master_def VnidStartMaster_def PopulateVNIDs_def GetNetNamespaces_def memory_defs
      fresh_master_def newVnidMap_def GetAllocatedVNIDs_def NewNetIDAllocator_def MaxVNID_def)
  show "m_netIDManager started_master = Some ?nia" by (simp add: m)
  show "nia_inv ?nia"
    by (simp add: nia_inv_def nia_used_def MaxVNID_def word_less_nat_alt unsigned_minus_1_eq_mask mask_eq_exp_minus_1)
  show "nia_universe ?nia = {10..MaxVNID}" by (simp add: nia_universe_def)
  show "vnid_wf (m_vnids started_master)" "map_of (m_vnids started_master) \<subseteq>\<^sub>m stored_ids empty_memory"
    "dom (stored_ids empty_memory) \<subseteq> dom (map_of (m_vnids started_master))"
    by (simp_all add: m fresh_master_def newVnidMap_def stored_ids_def empty_memory_def vnid_wf_def)
qed (simp_all add: stored_ids_def empty_memory_def unique_ids_def)

theorem namespace_events_isolated_witness:
  "\<exists>m w. run (namespace_loop memory_api) [Event Added ''p1'', Event Added ''default'', Event Deleted ''p1'']
     (Some (started_master, empty_memory)) = Some (m, w) \<and> vnid_inv stored_ids True (m, w)"
  using namespace_events_isolated [OF memory_netns_server inv_started,
    of "[Event Added ''p1'', Event Added ''default'', Event Deleted ''p1'']" "''p2''"] by blast

definition joined_memory :: memory where
  "joined_memory = empty_memory\<lparr>mem_netns := [(''p1'', 10), (''p2'', 10)]\<rparr>"

definition joined_master :: OsdnMaster where
  "joined_master = started_master\<lparr>m_vnids := [(''p1'', 10), (''p2'', 10)],
     m_netIDManager := Some \<lparr>nia_min = 10, nia_max = MaxVNID, nia_allocMap = [10 \<mapsto> True]\<rparr>\<rparr>"

lemma inv_joined: "vnid_inv stored_ids True (joined_master, joined_memory)"
proof (rule vnid_invI)
  let ?nia = "\<lparr>nia_min = 10, nia_max = MaxVNID, nia_allocMap = [10 \<mapsto> True]\<rparr>"
  show "m_netIDManager joined_master = Some ?nia" by (simp add: joined_master_def)
  have "nia_used ?nia = {10}" by (auto simp: nia_used_def split: if_splits)
  then show "nia_inv ?nia"
    by (simp add: nia_inv_def nia_universe_def MaxVNID_def word_less_nat_alt unsigned_minus_1_eq_mask mask_eq_exp_minus_1)
  show "i \<in> nia_used ?nia" if "stored_ids joined_memory ns = Some i" for ns i
    using that \<open>nia_used ?nia = {10}\<close> by (auto simp: stored_ids_def joined_memory_def split: if_splits)
qed (simp_all add: joined_master_def joined_memory_def stored_ids_def nia_universe_def vnid_wf_def insert_commute)

lemma revokeVNID_releases_witness:
  "\<exists>e m w nia. revokeVNID memory_api ''p1'' joined_master joined_memory = Some (e, m, w)
     \<and> m_netIDManager m = Some nia"
  using revokeVNID_releases [OF memory_netns_server inv_joined, of "''p1''" 10
      "\<lparr>nia_min = 10, nia_max = MaxVNID, nia_allocMap = [10 \<mapsto> True]\<rparr>"]
  by (fastforce simp: joined_master_def)

end
