(* ===== verification/SubnetMaster.thy ===== *)
theory SubnetMaster
  imports VnidMaster
begin

text \<open>
  The master's side of \<open>plugins/osdn/subnets.go\<close>: every node gets a subnet of the cluster network,
  stored as a HostSubnet object of the node's name. The allocator's state is rebuilt from the
  stored objects at the start; the watch over the nodes keeps the address it last saw of each.
\<close>

section \<open>The model\<close>

text \<open>The loop over the stored subnets: their text is collected, their addresses only checked.\<close>

fun check_subnets :: "'w api \<Rightarrow> HostSubnet list \<Rightarrow> Registry \<Rightarrow> 'w \<Rightarrow> Registry \<times> 'w" where
  "check_subnets api [] registry w = (registry, w)"
| "check_subnets api (sub # subs) registry w =
     (case ValidateNodeIP api (hs_HostIP sub) registry w of
        (_, registry1, w1) \<Rightarrow> check_subnets api subs registry1 w1)"

definition SubnetStartMaster ::
  "'w api \<Rightarrow> IPNet \<Rightarrow> u64 \<Rightarrow> OsdnMaster \<Rightarrow> 'w \<Rightarrow> error option \<times> OsdnMaster \<times> 'w" where
  "SubnetStartMaster api clusterNetwork hostSubnetLength master w =
     (case GetSubnets api w of
        (Inl err, w1) \<Rightarrow> (Some err, master, w1)
      | (Inr subnets, w1) \<Rightarrow>
          (let subrange = map hs_Subnet subnets;
               (registry1, w2) = check_subnets api subnets (m_registry master) w1;
               master1 = master\<lparr>m_registry := registry1\<rparr>
           in case NewSubnetAllocator (IPNet_String clusterNetwork) hostSubnetLength subrange of
                Inl err \<Rightarrow> (Some err, master1\<lparr>m_subnetAllocator := None\<rparr>, w2)
              | Inr sna \<Rightarrow> (None, master1\<lparr>m_subnetAllocator := Some sna\<rparr>, w2)))"

text \<open>The part of \<open>addNode\<close> behind the lookup: a subnet for a node that has none.\<close>

definition create_subnet ::
  "'w api \<Rightarrow> string \<Rightarrow> string \<Rightarrow> OsdnMaster \<Rightarrow> 'w \<Rightarrow> (error option \<times> OsdnMaster \<times> 'w) option" where
  "create_subnet api nodeName nodeIP master w =
     do { sna \<leftarrow> m_subnetAllocator master;
          (r, sna1) \<leftarrow> GetNetwork sna;
          (case r of
             Inl err \<Rightarrow>
               Some (Some (Errorf ''Error allocating network for node %s: %v'' [err]),
                     master\<lparr>m_subnetAllocator := Some sna1\<rparr>, w)
           | Inr sn \<Rightarrow>
               (case CreateSubnet api nodeName nodeIP (IPNet_String sn) w of
                  (Inl err, w1) \<Rightarrow>
                    Some (Some (Errorf ''Error creating subnet %s for node %s: %v'' [err]),
                          master\<lparr>m_subnetAllocator := Some (snd (ReleaseNetwork sn sna1))\<rparr>, w1)
                | (Inr sub, w1) \<Rightarrow> Some (None, master\<lparr>m_subnetAllocator := Some sna1\<rparr>, w1))) }"

definition addNode ::
  "'w api \<Rightarrow> string \<Rightarrow> string \<Rightarrow> OsdnMaster \<Rightarrow> 'w \<Rightarrow> (error option \<times> OsdnMaster \<times> 'w) option" where
  "addNode api nodeName nodeIP master w =
     (case ValidateNodeIP api nodeIP (m_registry master) w of
        (Some err, registry1, w1) \<Rightarrow> Some (Some err, master\<lparr>m_registry := registry1\<rparr>, w1)
      | (None, registry1, w1) \<Rightarrow>
          (let master1 = master\<lparr>m_registry := registry1\<rparr>
           in case GetSubnet api nodeName w1 of
                (Inr sub, w2) \<Rightarrow>
                  if hs_HostIP sub = nodeIP then Some (None, master1, w2)
                  else (case UpdateSubnet api (sub\<lparr>hs_HostIP := nodeIP\<rparr>) w2 of
                          (Inl err, w3) \<Rightarrow>
                            Some (Some (Errorf ''Error updating subnet %s for node %s: %v'' [err]), master1, w3)
                        | (Inr sub', w3) \<Rightarrow> Some (None, master1, w3))
              | (Inl _, w2) \<Rightarrow> create_subnet api nodeName nodeIP master1 w2))"

definition deleteNode ::
  "'w api \<Rightarrow> string \<Rightarrow> OsdnMaster \<Rightarrow> 'w \<Rightarrow> (error option \<times> OsdnMaster \<times> 'w) option" where
  "deleteNode api nodeName master w =
     (case GetSubnet api nodeName w of
        (Inl err, w1) \<Rightarrow>
          Some (Some (Errorf ''Error fetching subnet for node %q for deletion: %v'' [err]), master, w1)
      | (Inr sub, w1) \<Rightarrow>
          (case ParseCIDR (hs_Subnet sub) of
             Inl err \<Rightarrow>
               Some (Some (Errorf ''Error parsing subnet %q for node %q for deletion: %v'' [err]), master, w1)
           | Inr (_, ipnet) \<Rightarrow>
               do { sna \<leftarrow> m_subnetAllocator master;
                    let master1 = master\<lparr>m_subnetAllocator := Some (snd (ReleaseNetwork ipnet sna))\<rparr>;
                    (case DeleteSubnet api nodeName w1 of
                       (Some err, w2) \<Rightarrow>
                         Some (Some (Errorf ''Error deleting subnet %v for node %q: %v'' [err]), master1, w2)
                     | (None, w2) \<Rightarrow> Some (None, master1, w2)) }))"

definition getNodeIP :: "(string \<Rightarrow> error + IP list) \<Rightarrow> Node \<Rightarrow> error + string" where
  "getNodeIP lookupIP node =
     (case node_Addresses node of
        a # _ \<Rightarrow> if a \<noteq> '''' then Inr a else GetNodeIP lookupIP (node_Name node)
      | [] \<Rightarrow> GetNodeIP lookupIP (node_Name node))"

text \<open>
  One turn of the loop of \<open>watchNodes\<close>. Its state is the map of the addresses seen, the master
  and the world; a failed queue makes the function start again with an empty map.
\<close>

type_synonym 'w nodes_state = "(string \<rightharpoonup> string) \<times> OsdnMaster \<times> 'w"

fun watchNodes ::
  "'w api \<Rightarrow> (string \<Rightarrow> error + IP list) \<Rightarrow> Node event \<Rightarrow> 'w nodes_state \<Rightarrow> 'w nodes_state option" where
  "watchNodes api lookupIP (QueueFailed err) (seen, master, w) = Some (Map.empty, master, w)"
| "watchNodes api lookupIP (Event t node) (seen, master, w) =
     (case getNodeIP lookupIP node of
        Inl err \<Rightarrow> Some (seen, master, w)
      | Inr nodeIP \<Rightarrow>
          if t = Added \<or> t = Modified then
            (if seen (node_UID node) = Some nodeIP then Some (seen, master, w)
             else do { (err, master1, w1) \<leftarrow> addNode api (node_Name node) nodeIP master w;
                       Some (if err = None then seen(node_UID node \<mapsto> nodeIP) else seen, master1, w1) })
          else if t = Deleted then
            do { (err, master1, w1) \<leftarrow> deleteNode api (node_Name node) master w;
                 Some (seen(node_UID node := None), master1, w1) }
          else Some (seen, master, w))"

definition node_loop ::
  "'w api \<Rightarrow> (string \<Rightarrow> error + IP list) \<Rightarrow> Node event \<Rightarrow> 'w nodes_state option \<Rightarrow> 'w nodes_state option"
where
  "node_loop api lookupIP e s = do { s1 \<leftarrow> s; watchNodes api lookupIP e s1 }"

section \<open>What the server stores\<close>

text \<open>
  The HostSubnets stored in a world, by name, when nobody but this master writes them. Every
  call may fail, but a failed \<open>Create\<close> or \<open>Update\<close> stores nothing and \<open>Delete\<close> fails only where
  there is nothing to delete.
\<close>

definition subnet_server :: "'w api \<Rightarrow> ('w \<Rightarrow> string \<rightharpoonup> HostSubnet) \<Rightarrow> bool" where
  "subnet_server api view \<longleftrightarrow>
     (\<forall>w r w'. HostSubnets_List api w = (r, w') \<longrightarrow> view w' = view w \<and>
        (case r of Inl e \<Rightarrow> True | Inr subs \<Rightarrow> set subs = ran (view w))) \<and>
     (\<forall>n w r w'. HostSubnets_Get api n w = (r, w') \<longrightarrow> view w' = view w \<and>
        (case r of Inl e \<Rightarrow> True | Inr hs \<Rightarrow> view w n = Some hs \<and> hs_Name hs = n)) \<and>
     (\<forall>hs w r w'. HostSubnets_Create api hs w = (r, w') \<longrightarrow>
        (case r of Inl e \<Rightarrow> view w' = view w
         | Inr _ \<Rightarrow> view w (hs_Name hs) = None \<and>
             (\<exists>uid. view w' = (view w)(hs_Name hs \<mapsto> hs\<lparr>hs_UID := uid\<rparr>)))) \<and>
     (\<forall>hs w r w'. HostSubnets_Update api hs w = (r, w') \<longrightarrow>
        (case r of Inl e \<Rightarrow> view w' = view w | Inr _ \<Rightarrow> view w' = (view w)(hs_Name hs \<mapsto> hs))) \<and>
     (\<forall>n w r w'. HostSubnets_Delete api n w = (r, w') \<longrightarrow>
        (case r of Inl e \<Rightarrow> view w' = view w \<and> view w n = None | Inr _ \<Rightarrow> view w' = (view w)(n := None))) \<and>
     (\<forall>n w r w'. ClusterNetwork_Get api n w = (r, w') \<longrightarrow> view w' = view w)"

text \<open>
  The invariant: every stored subnet is one of the allocator's and in use there, and no two
  nodes have the same.
\<close>

definition subnet_inv :: "('w \<Rightarrow> string \<rightharpoonup> HostSubnet) \<Rightarrow> OsdnMaster \<times> 'w \<Rightarrow> bool" where
  "subnet_inv view = (\<lambda>(m, w). \<exists>sna. m_subnetAllocator m = Some sna \<and> sna_inv sna \<and>
     (\<forall>n hs. view w n = Some hs \<longrightarrow> hs_Subnet hs \<in> sna_used_keys sna) \<and>
     (\<forall>n hs n' hs'. view w n = Some hs \<and> view w n' = Some hs' \<and> hs_Subnet hs = hs_Subnet hs' \<longrightarrow> n = n'))"

section \<open>Lemmas\<close>

lemma subnet_server_facts:
  assumes "subnet_server api view"
  shows "GetSubnets api w = (r, w') \<Longrightarrow> view w' = view w \<and> (\<forall>subs. r = Inr subs \<longrightarrow> set subs = ran (view w))"
    and "GetSubnet api n w = (q, w') \<Longrightarrow> view w' = view w \<and> (\<forall>hs. q = Inr hs \<longrightarrow> view w n = Some hs \<and> hs_Name hs = n)"
    and "CreateSubnet api n ip s w = (q, w') \<Longrightarrow>
      (case q of Inl e \<Rightarrow> view w' = view w
       | Inr _ \<Rightarrow> view w n = None \<and> (\<exists>uid. view w' = (view w)(n \<mapsto>
           \<lparr>hs_Name = n, hs_UID = uid, hs_Host = n, hs_HostIP = ip, hs_Subnet = s\<rparr>)))"
    and "UpdateSubnet api hs w = (q, w') \<Longrightarrow>
      (case q of Inl e \<Rightarrow> view w' = view w | Inr _ \<Rightarrow> view w' = (view w)(hs_Name hs \<mapsto> hs))"
    and "DeleteSubnet api n w = (d, w') \<Longrightarrow>
      (case d of Some e \<Rightarrow> view w' = view w \<and> view w n = None | None \<Rightarrow> view w' = (view w)(n := None))"
    and "ClusterNetwork_Get api n w = (c, w') \<Longrightarrow> view w' = view w"
proof -
  note s = assms [unfolded subnet_server_def]
  show "GetSubnets api w = (r, w') \<Longrightarrow> view w' = view w \<and> (\<forall>subs. r = Inr subs \<longrightarrow> set subs = ran (view w))"
    using s [THEN conjunct1, rule_format, of w r w'] by (auto simp: GetSubnets_def)
  show "GetSubnet api n w = (q, w') \<Longrightarrow> view w' = view w \<and> (\<forall>hs. q = Inr hs \<longrightarrow> view w n = Some hs \<and> hs_Name hs = n)"
    using s [THEN conjunct2, THEN conjunct1, rule_format, of n w q w'] by (auto simp: GetSubnet_def)
  show "CreateSubnet api n ip s w = (q, w') \<Longrightarrow>
      (case q of Inl e \<Rightarrow> view w' = view w
       | Inr _ \<Rightarrow> view w n = None \<and> (\<exists>uid. view w' = (view w)(n \<mapsto>
           \<lparr>hs_Name = n, hs_UID = uid, hs_Host = n, hs_HostIP = ip, hs_Subnet = s\<rparr>)))"
    using s [THEN conjunct2, THEN conjunct2, THEN conjunct1, rule_format, of
        "\<lparr>hs_Name = n, hs_UID = '''', hs_Host = n, hs_HostIP = ip, hs_Subnet = s\<rparr>" w q w']
    by (auto simp: CreateSubnet_def split: sum.splits)
  show "UpdateSubnet api hs w = (q, w') \<Longrightarrow>
      (case q of Inl e \<Rightarrow> view w' = view w | Inr _ \<Rightarrow> view w' = (view w)(hs_Name hs \<mapsto> hs))"
    using s [THEN conjunct2, THEN conjunct2, THEN conjunct2, THEN conjunct1, rule_format, of hs w q w']
    by (simp add: UpdateSubnet_def)
  show "DeleteSubnet api n w = (d, w') \<Longrightarrow>
      (case d of Some e \<Rightarrow> view w' = view w \<and> view w n = None | None \<Rightarrow> view w' = (view w)(n := None))"
    using s [THEN conjunct2, THEN conjunct2, THEN conjunct2, THEN conjunct2, THEN conjunct1, rule_format, of n w]
    by (cases "HostSubnets_Delete api n w") (auto simp: DeleteSubnet_def split: sum.splits)
  show "ClusterNetwork_Get api n w = (c, w') \<Longrightarrow> view w' = view w"
    using s by blast
qed

lemma ValidateNodeIP_view:
  assumes "subnet_server api view" and "ValidateNodeIP api ip reg w = (e, reg', w')"
  shows "view w' = view w"
  using assms(2) subnet_server_facts(6) [OF assms(1)]
  by (auto simp: ValidateNodeIP_def GetNetworkInfo_def Let_def split: if_splits option.splits sum.splits prod.splits)

lemma subnet_invI:
  "m_subnetAllocator m = Some sna \<Longrightarrow> sna_inv sna \<Longrightarrow>
     (\<And>n hs. view w n = Some hs \<Longrightarrow> hs_Subnet hs \<in> sna_used_keys sna) \<Longrightarrow>
     (\<And>n hs n' hs'. view w n = Some hs \<Longrightarrow> view w n' = Some hs' \<Longrightarrow> hs_Subnet hs = hs_Subnet hs' \<Longrightarrow> n = n') \<Longrightarrow>
     subnet_inv view (m, w)"
  unfolding subnet_inv_def by auto

lemma subnet_invE:
  assumes "subnet_inv view (m, w)"
  obtains sna where "m_subnetAllocator m = Some sna" "sna_inv sna"
    "\<forall>n hs. view w n = Some hs \<longrightarrow> hs_Subnet hs \<in> sna_used_keys sna"
    "\<forall>n hs n' hs'. view w n = Some hs \<and> view w n' = Some hs' \<and> hs_Subnet hs = hs_Subnet hs' \<longrightarrow> n = n'"
  using assms unfolding subnet_inv_def by blast

lemma subnet_inv_view:
  "view w' = view w \<Longrightarrow> m_subnetAllocator m' = m_subnetAllocator m \<Longrightarrow>
     subnet_inv view (m', w') = subnet_inv view (m, w)"
  by (simp add: subnet_inv_def)

lemma create_subnet_inv:
  assumes s: "subnet_server api view" and i: "subnet_inv view (m, w)"
  shows "\<exists>e m' w'. create_subnet api n ip m w = Some (e, m', w') \<and> subnet_inv view (m', w')
    \<and> (view w' = view w \<or> e = None \<and> view w n = None \<and> (\<exists>hs. hs_HostIP hs = ip \<and> view w' = (view w)(n \<mapsto> hs)))"
proof -
  from i obtain sna where a: "m_subnetAllocator m = Some sna" "sna_inv sna"
    "\<forall>n hs. view w n = Some hs \<longrightarrow> hs_Subnet hs \<in> sna_used_keys sna"
    "\<forall>n hs n' hs'. view w n = Some hs \<and> view w n' = Some hs' \<and> hs_Subnet hs = hs_Subnet hs' \<longrightarrow> n = n'"
    by (rule subnet_invE)
  obtain r sna1 where g: "GetNetwork sna = Some (r, sna1)" using subnets.al_total [OF a(2)] by fastforce
  show ?thesis
  proof (cases r)
    case (Inl x)
    with g subnets.al_full [OF a(2)] have "sna_inv sna1" "sna_used_keys sna1 = sna_used_keys sna" by blast+
    with a have "subnet_inv view (m\<lparr>m_subnetAllocator := Some sna1\<rparr>, w)" by (intro subnet_invI [of _ sna1]) auto
    with a(1) g Inl show ?thesis by (simp add: create_subnet_def)
  next
    case (Inr sn)
    with g have g': "GetNetwork sna = Some (Inr sn, sna1)" by simp
    note ok = subnets.al_ok [OF a(2) g']
    obtain q w1 where c: "CreateSubnet api n ip (IPNet_String sn) w = (q, w1)" by fastforce
    note sc = subnet_server_facts(3) [OF s c]
    show ?thesis
    proof (cases q)
      case (Inl x)
      obtain e2 sna2 where rl: "ReleaseNetwork sn sna1 = (e2, sna2)" by fastforce
      have "e2 = None" using ok rl subnets.rl_err [of sna1 sn _ sna2] by (cases e2) auto
      with rl subnets.rl_ok [of sna1 sn sna2] ok
      have "sna_inv sna2" "sna_used_keys sna2 = sna_used_keys sna" by auto
      with a sc Inl have "subnet_inv view (m\<lparr>m_subnetAllocator := Some sna2\<rparr>, w1)"
        by (intro subnet_invI [of _ sna2]) auto
      with a(1) g' c Inl rl sc show ?thesis by (simp add: create_subnet_def)
    next
      case (Inr x)
      with sc obtain uid where u: "view w n = None" "view w1 = (view w)(n \<mapsto>
          \<lparr>hs_Name = n, hs_UID = uid, hs_Host = n, hs_HostIP = ip, hs_Subnet = IPNet_String sn\<rparr>)"
        by auto
      define hs where "hs = \<lparr>hs_Name = n, hs_UID = uid, hs_Host = n, hs_HostIP = ip, hs_Subnet = IPNet_String sn\<rparr>"
      have h: "view w n = None" "hs_Subnet hs = IPNet_String sn" "hs_HostIP hs = ip"
        "view w1 = (view w)(n \<mapsto> hs)" using u by (simp_all add: hs_def)
      have "subnet_inv view (m\<lparr>m_subnetAllocator := Some sna1\<rparr>, w1)"
      proof (rule subnet_invI)
        show "m_subnetAllocator (m\<lparr>m_subnetAllocator := Some sna1\<rparr>) = Some sna1" by simp
        show "sna_inv sna1" using ok by blast
        show "hs_Subnet hs' \<in> sna_used_keys sna1" if "view w1 n' = Some hs'" for n' hs'
          using that h ok a(3) by (auto split: if_splits)
        show "n1 = n2" if "view w1 n1 = Some h1" "view w1 n2 = Some h2" "hs_Subnet h1 = hs_Subnet h2" for n1 h1 n2 h2
          using that h ok a(3) a(4) by (fastforce split: if_splits)
      qed
      with a(1) g' c Inr h show ?thesis by (auto simp: create_subnet_def)
    qed
  qed
qed

lemma create_subnet_ok:
  assumes "create_subnet api n ip m w = Some (None, m', w')"
  obtains sna sna1 sn q where "m_subnetAllocator m = Some sna" "GetNetwork sna = Some (Inr sn, sna1)"
    "CreateSubnet api n ip (IPNet_String sn) w = (Inr q, w')" "m' = m\<lparr>m_subnetAllocator := Some sna1\<rparr>"
proof -
  from assms obtain sna where a: "m_subnetAllocator m = Some sna"
    by (cases "m_subnetAllocator m") (simp_all add: create_subnet_def)
  with assms obtain r sna1 where g: "GetNetwork sna = Some (r, sna1)"
    by (cases "GetNetwork sna") (auto simp: create_subnet_def)
  show thesis
  proof (cases r)
    case (Inl x)
    with assms a g show thesis by (simp add: create_subnet_def)
  next
    case (Inr sn)
    obtain q w1 where c: "CreateSubnet api n ip (IPNet_String sn) w = (q, w1)" by fastforce
    from assms a g Inr c show thesis by (cases q) (auto simp: create_subnet_def intro: that)
  qed
qed

lemma addNode_inv [inv_intros]:
  assumes s: "subnet_server api view" and i: "subnet_inv view (m, w)"
  shows "\<exists>e m' w'. addNode api n ip m w = Some (e, m', w') \<and> subnet_inv view (m', w')
    \<and> (view w' = view w \<or> e = None \<and> (\<exists>hs. hs_HostIP hs = ip \<and> view w' = (view w)(n \<mapsto> hs)))"
proof -
  obtain v reg1 w1 where v: "ValidateNodeIP api ip (m_registry m) w = (v, reg1, w1)" by (metis surj_pair)
  have w1: "view w1 = view w" by (rule ValidateNodeIP_view [OF s v])
  let ?m = "m\<lparr>m_registry := reg1\<rparr>"
  have i1: "subnet_inv view (?m, w')" if "view w' = view w" for w'
    using i subnet_inv_view [OF that, of ?m m] by simp
  obtain g w2 where g: "GetSubnet api n w1 = (g, w2)" by fastforce
  note sg = subnet_server_facts(2) [OF s g]
  show ?thesis
  proof (cases v)
    case (Some x)
    with v i1 [OF w1] w1 show ?thesis by (simp add: addNode_def)
  next
    case None
    show ?thesis
    proof (cases g)
      case (Inl x)
      from sg w1 have w2: "view w2 = view w" by simp
      from create_subnet_inv [OF s i1 [OF w2], of n ip] w2 v None g Inl show ?thesis
        by (auto simp: addNode_def)
    next
      case (Inr hs)
      with sg w1 have h: "view w n = Some hs" "hs_Name hs = n" "view w2 = view w" by auto
      obtain q w3 where u: "UpdateSubnet api (hs\<lparr>hs_HostIP := ip\<rparr>) w2 = (q, w3)" by fastforce
      note su = subnet_server_facts(4) [OF s u]
      have upd: "subnet_inv view (?m, w3)" if "view w3 = (view w)(n \<mapsto> hs\<lparr>hs_HostIP := ip\<rparr>)"
      proof -
        from i obtain sna where a: "m_subnetAllocator m = Some sna" "sna_inv sna"
          "\<forall>n hs. view w n = Some hs \<longrightarrow> hs_Subnet hs \<in> sna_used_keys sna"
          "\<forall>n hs n' hs'. view w n = Some hs \<and> view w n' = Some hs' \<and> hs_Subnet hs = hs_Subnet hs' \<longrightarrow> n = n'"
          by (rule subnet_invE)
        show ?thesis
          by (rule subnet_invI [of _ sna]) (use a that h(1) in \<open>auto split: if_splits\<close>)
      qed
      have "\<exists>h. hs_HostIP h = ip \<and> (view w)(n \<mapsto> hs\<lparr>hs_HostIP := ip\<rparr>) = (view w)(n \<mapsto> h)"
        by (rule exI [of _ "hs\<lparr>hs_HostIP := ip\<rparr>"]) simp
      then show ?thesis
        using v None g Inr h u su upd i1 [OF h(3)] i1 [of w3]
        by (cases q) (auto simp: addNode_def Let_def)
    qed
  qed
qed

lemma used_key_parse:
  assumes "sna_inv sna" and "s \<in> sna_used_keys sna"
  obtains ip n where "ParseCIDR s = Inr (ip, n)" "IPNet_String n = s" "v4_net n"
proof -
  from assms(2) obtain g where "g \<in> sna_universe sna" "s = IPNet_String g"
    by (auto simp: sna_used_keys_def sna_keys_def)
  with universe_parse [OF assms(1)] that show thesis by blast
qed

lemma deleteNode_inv [inv_intros]:
  assumes s: "subnet_server api view" and i: "subnet_inv view (m, w)"
  shows "\<exists>e m' w'. deleteNode api n m w = Some (e, m', w') \<and> subnet_inv view (m', w')
    \<and> (view w' = view w \<and> e \<noteq> None \<or> e = None \<and> view w' = (view w)(n := None))"
proof -
  obtain g w1 where g: "GetSubnet api n w = (g, w1)" by fastforce
  note sg = subnet_server_facts(2) [OF s g]
  then have i1: "subnet_inv view (m, w1)" using i subnet_inv_view [of view w1 w m m] by simp
  show ?thesis
  proof (cases g)
    case (Inl x)
    with g i1 sg show ?thesis by (simp add: deleteNode_def)
  next
    case (Inr hs)
    with sg have h: "view w n = Some hs" "view w1 = view w" by auto
    from i obtain sna where a: "m_subnetAllocator m = Some sna" "sna_inv sna"
      "\<forall>n hs. view w n = Some hs \<longrightarrow> hs_Subnet hs \<in> sna_used_keys sna"
      "\<forall>n hs n' hs'. view w n = Some hs \<and> view w n' = Some hs' \<and> hs_Subnet hs = hs_Subnet hs' \<longrightarrow> n = n'"
      by (rule subnet_invE)
    from a(3) h(1) have used: "hs_Subnet hs \<in> sna_used_keys sna" by blast
    from used_key_parse [OF a(2) used] obtain ip net where
      p: "ParseCIDR (hs_Subnet hs) = Inr (ip, net)" "IPNet_String net = hs_Subnet hs" "v4_net net" .
    from subnets.rl_succeeds [OF a(2) p(3)] used p(2) obtain sna1 where
      rl: "ReleaseNetwork net sna = (None, sna1)" by auto
    with subnets.rl_ok [OF a(2) p(3) rl] p(2) have f: "sna_inv sna1" "sna_used_keys sna1 = sna_used_keys sna - {hs_Subnet hs}"
      by auto
    obtain d w2 where d: "DeleteSubnet api n w1 = (d, w2)" by fastforce
    from subnet_server_facts(5) [OF s d] h have dn: "d = None" "view w2 = (view w)(n := None)"
      by (cases d; simp)+
    have "hs_Subnet hs' \<noteq> hs_Subnet hs" if "view w n' = Some hs'" "n' \<noteq> n" for n' hs'
      using a(4) that h(1) by metis
    then have "subnet_inv view (m\<lparr>m_subnetAllocator := Some sna1\<rparr>, w2)"
      using a f dn(2) by (intro subnet_invI [of _ sna1]) (auto split: if_splits)
    with g Inr p a(1) rl d dn show ?thesis by (simp add: deleteNode_def Let_def)
  qed
qed

lemma watchNodes_inv:
  assumes s: "subnet_server api view" and i: "subnet_inv view (m, w)"
  shows "\<exists>seen' m' w'. watchNodes api lookupIP e (seen, m, w) = Some (seen', m', w') \<and> subnet_inv view (m', w')"
proof (cases e)
  case (Event t node)
  show ?thesis
  proof (cases "getNodeIP lookupIP node")
    case (Inl x)
    with Event i show ?thesis by simp
  next
    case (Inr ip)
    with Event i addNode_inv [OF s i, of "node_Name node" ip] deleteNode_inv [OF s i, of "node_Name node"]
    show ?thesis by (cases t) (auto split: if_splits)
  qed
qed (use i in simp)

interpretation nodes: watch_loop "node_loop api lookupIP" "\<lambda>e. subnet_server api view"
  "\<lambda>s. case s of None \<Rightarrow> False | Some (seen, p) \<Rightarrow> subnet_inv view p" for api lookupIP view
proof (unfold_locales, goal_cases)
  case (1 s e)
  then obtain seen m w where "s = Some (seen, m, w)" by (cases s) auto
  with 1 watchNodes_inv [of api view m w lookupIP e seen] show ?case by (auto simp: node_loop_def)
qed

section \<open>Properties\<close>

text \<open>The subnets of different nodes have no address in common.\<close>

definition disjoint_subnets :: "(string \<rightharpoonup> HostSubnet) \<Rightarrow> bool" where
  "disjoint_subnets v \<longleftrightarrow>
     (\<forall>n hs n' hs'. v n = Some hs \<and> v n' = Some hs' \<and> n \<noteq> n' \<longrightarrow>
        (\<exists>i net i' net'. ParseCIDR (hs_Subnet hs) = Inr (i, net) \<and> ParseCIDR (hs_Subnet hs') = Inr (i', net')
           \<and> (\<forall>a. \<not> (IPNet_Contains net a \<and> IPNet_Contains net' a))))"

lemma subnet_inv_disjoint:
  assumes "subnet_inv view (m, w)"
  shows "disjoint_subnets (view w)"
proof -
  from assms obtain sna where a: "m_subnetAllocator m = Some sna" "sna_inv sna"
    "\<forall>n hs. view w n = Some hs \<longrightarrow> hs_Subnet hs \<in> sna_used_keys sna"
    "\<forall>n hs n' hs'. view w n = Some hs \<and> view w n' = Some hs' \<and> hs_Subnet hs = hs_Subnet hs' \<longrightarrow> n = n'"
    by (rule subnet_invE)
  have p: "\<exists>g i net. g \<in> sna_universe sna \<and> hs_Subnet hs = IPNet_String g \<and> ParseCIDR (hs_Subnet hs) = Inr (i, net)
      \<and> (\<forall>a. IPNet_Contains net a \<longleftrightarrow> IPNet_Contains g a)" if "view w n = Some hs" for n hs
  proof -
    from a(3) that obtain g where "g \<in> sna_universe sna" "hs_Subnet hs = IPNet_String g"
      by (auto simp: sna_used_keys_def sna_keys_def)
    with universe_parse [OF a(2)] show ?thesis by metis
  qed
  show ?thesis
    unfolding disjoint_subnets_def
  proof (intro allI impI, elim conjE)
    fix n hs n' hs'
    assume v: "view w n = Some hs" "view w n' = Some hs'" "n \<noteq> n'"
    from p [OF v(1)] obtain g i net where g: "g \<in> sna_universe sna" "hs_Subnet hs = IPNet_String g"
      "ParseCIDR (hs_Subnet hs) = Inr (i, net)" "\<forall>a. IPNet_Contains net a \<longleftrightarrow> IPNet_Contains g a" by blast
    from p [OF v(2)] obtain g' i' net' where g': "g' \<in> sna_universe sna" "hs_Subnet hs' = IPNet_String g'"
      "ParseCIDR (hs_Subnet hs') = Inr (i', net')" "\<forall>a. IPNet_Contains net' a \<longleftrightarrow> IPNet_Contains g' a" by blast
    have "g \<noteq> g'" using a(4) v g(2) g'(2) by metis
    then have "\<forall>x. \<not> (IPNet_Contains net x \<and> IPNet_Contains net' x)"
      using universe_disjoint [OF a(2) g(1) g'(1)] g(4) g'(4) by blast
    with g(3) g'(3) show "\<exists>i net i' net'. ParseCIDR (hs_Subnet hs) = Inr (i, net)
        \<and> ParseCIDR (hs_Subnet hs') = Inr (i', net') \<and> (\<forall>a. \<not> (IPNet_Contains net a \<and> IPNet_Contains net' a))"
      by blast
  qed
qed

lemma Contains_To4: "To4 a = To4 b \<Longrightarrow> To4 a \<noteq> [] \<Longrightarrow> IPNet_Contains n a = IPNet_Contains n b"
  by (simp add: IPNet_Contains_def)

lemma check_subnets_frame:
  "subnet_server api view \<Longrightarrow> check_subnets api subs reg w = (reg', w') \<Longrightarrow> view w' = view w"
  by (induction api subs reg w rule: check_subnets.induct)
    (auto split: prod.splits dest: ValidateNodeIP_view)

lemma SubnetStartMaster_state:
  assumes s: "subnet_server api view" and r: "SubnetStartMaster api cn len m w = (None, m', w')"
  shows "\<exists>sna subs. view w' = view w \<and> set subs = hs_Subnet ` ran (view w)
    \<and> m_subnetAllocator m' = Some sna \<and> NewSubnetAllocator (IPNet_String cn) len subs = Inr sna"
proof -
  obtain g w1 where g: "GetSubnets api w = (g, w1)" by fastforce
  note sg = subnet_server_facts(1) [OF s g]
  from r g obtain subs where gs: "g = Inr subs" by (cases g) (auto simp: SubnetStartMaster_def)
  obtain reg w2 where c: "check_subnets api subs (m_registry m) w1 = (reg, w2)" by fastforce
  from r g gs c obtain sna where n: "NewSubnetAllocator (IPNet_String cn) len (map hs_Subnet subs) = Inr sna"
    by (cases "NewSubnetAllocator (IPNet_String cn) len (map hs_Subnet subs)") (auto simp: SubnetStartMaster_def)
  with r g gs c have "w' = w2" "m_subnetAllocator m' = Some sna" by (auto simp: SubnetStartMaster_def)
  with n check_subnets_frame [OF s c] sg gs show ?thesis
    by (intro exI [of _ sna] exI [of _ "map hs_Subnet subs"]) simp
qed

lemma stored_in_use:
  assumes n: "NewSubnetAllocator network len subs = Inr sna" and i: "sna_inv sna"
    and s: "s \<in> set subs" "s \<in> sna_keys sna"
  shows "s \<in> sna_used_keys sna"
proof -
  from s(2) obtain g where g: "g \<in> sna_universe sna" "s = IPNet_String g" by (auto simp: sna_keys_def)
  from universe_parse [OF i g(1)] g(2) obtain ip net where p: "ParseCIDR s = Inr (ip, net)" "IPNet_String net = s"
    "v4_net net" "To4 (ipnet_IP net) = To4 (ipnet_IP g)" by metis
  from p(3) have "To4 (ipnet_IP net) \<noteq> []" by (auto simp: v4_net_def)
  then have "IPNet_Contains (sna_network sna) (ipnet_IP net)"
    using universe_in_network [OF i g(1)] Contains_To4 [OF p(4)] by simp
  with NewSubnetAllocator_reserved [OF n, of s] s(1) p s(2) show ?thesis by (auto simp: sna_used_keys_def)
qed


text \<open>
  The start of the master gives that invariant, if the cluster network is IPv4 and the stored
  HostSubnets are subnets of it of the configured size, no two nodes with the same: every one of
  them is then in use in the new allocator, so that none is handed out again.
\<close>

lemma SubnetStartMaster_establishes:
  assumes "subnet_server api view" and "SubnetStartMaster api cn len m w = (None, m', w')"
    and "m_subnetAllocator m' = Some sna" and "length (ipnet_Mask (sna_network sna)) = 4"
    and "\<forall>hs\<in>ran (view w). hs_Subnet hs \<in> sna_keys sna"
    and "\<forall>n hs n' hs'. view w n = Some hs \<and> view w n' = Some hs' \<and> hs_Subnet hs = hs_Subnet hs' \<longrightarrow> n = n'"
  shows "subnet_inv view (m', w')"
proof -
  from SubnetStartMaster_state [OF assms(1,2)] assms(3) obtain subs where
    v: "view w' = view w" "set subs = hs_Subnet ` ran (view w)"
    and n: "NewSubnetAllocator (IPNet_String cn) len subs = Inr sna" by auto
  have i: "sna_inv sna" by (rule NewSubnetAllocator_inv [OF n assms(4)])
  have "hs_Subnet hs \<in> sna_used_keys sna" if "view w k = Some hs" for k hs
    using stored_in_use [OF n i, of "hs_Subnet hs"] assms(5) that v(2) by (auto intro: ranI)
  with v(1) i assms(3,6) show ?thesis by (intro subnet_invI [of _ sna]) auto
qed

text \<open>
  \<open>addNode\<close> for a node with a valid address stores, on success, a HostSubnet with that address:
  the existing one with its subnet unchanged, or a new one with the next subnet of the
  allocator; when the creation fails the subnet is given back and can be had again.
\<close>

lemma addNode_stores:
  assumes "subnet_server api view" and "subnet_inv view (m, w)"
    and "addNode api n ip m w = Some (None, m', w')"
  shows "ip \<noteq> [] \<and> ip \<noteq> ''127.0.0.1'' \<and> ParseIP ip \<noteq> []
    \<and> (\<exists>hs. view w' n = Some hs \<and> hs_HostIP hs = ip
         \<and> (\<forall>old. view w n = Some old \<longrightarrow> hs_Subnet hs = hs_Subnet old))
    \<and> (\<forall>n'. n' \<noteq> n \<longrightarrow> view w' n' = view w n')"
proof -
  obtain v reg1 w1 where v: "ValidateNodeIP api ip (m_registry m) w = (v, reg1, w1)" by (metis surj_pair)
  have w1: "view w1 = view w" by (rule ValidateNodeIP_view [OF assms(1) v])
  obtain g w2 where g: "GetSubnet api n w1 = (g, w2)" by fastforce
  note sg = subnet_server_facts(2) [OF assms(1) g]
  from assms(3) v have vn: "v = None" by (auto simp: addNode_def split: option.splits)
  then have ok: "ip \<noteq> [] \<and> ip \<noteq> ''127.0.0.1'' \<and> ParseIP ip \<noteq> []"
    using v by (auto simp: ValidateNodeIP_def Let_def split: if_splits prod.splits sum.splits)
  have "\<exists>hs. view w' n = Some hs \<and> hs_HostIP hs = ip \<and> (\<forall>old. view w n = Some old \<longrightarrow> hs_Subnet hs = hs_Subnet old)
      \<and> (\<forall>n'. n' \<noteq> n \<longrightarrow> view w' n' = view w n')"
  proof (cases g)
    case (Inr hs)
    obtain q w3 where u: "UpdateSubnet api (hs\<lparr>hs_HostIP := ip\<rparr>) w2 = (q, w3)" by fastforce
    note su = subnet_server_facts(4) [OF assms(1) u]
    show ?thesis using assms(3) v vn g Inr sg w1 u su
      by (cases q) (auto simp: addNode_def Let_def split: if_splits)
  next
    case (Inl x)
    let ?m = "m\<lparr>m_registry := reg1\<rparr>"
    from sg w1 have w2: "view w2 = view w" by simp
    have c: "create_subnet api n ip ?m w2 = Some (None, m', w')"
      using assms(3) v vn g Inl by (simp add: addNode_def)
    then obtain sna sna1 sn q where a: "m_subnetAllocator ?m = Some sna" "GetNetwork sna = Some (Inr sn, sna1)"
      "CreateSubnet api n ip (IPNet_String sn) w2 = (Inr q, w')"
      by (rule create_subnet_ok)
    from subnet_server_facts(3) [OF assms(1) a(3)] w2 show ?thesis by auto
  qed
  with ok show ?thesis by blast
qed

text \<open>
  C22: \<open>deleteNode\<close> gives the subnet back before it deletes the HostSubnet. When that deletion
  fails the object stays while its subnet is free in the allocator, so that a later node can be
  given the same one.
\<close>

theorem deleteNode_frees_first:
  assumes "subnet_inv view (m, w)" and "GetSubnet api n w = (Inr hs, w1)" and "view w n = Some hs"
    and "DeleteSubnet api n w1 = (Some err, w2)"
  shows "\<exists>e m' sna'. deleteNode api n m w = Some (Some e, m', w2) \<and> m_subnetAllocator m' = Some sna'
    \<and> sna_inv sna' \<and> hs_Subnet hs \<in> sna_keys sna' - sna_used_keys sna'"
proof -
  from assms(1) obtain sna where a: "m_subnetAllocator m = Some sna" "sna_inv sna"
    "\<forall>n hs. view w n = Some hs \<longrightarrow> hs_Subnet hs \<in> sna_used_keys sna" by (rule subnet_invE)
  with assms(3) have used: "hs_Subnet hs \<in> sna_used_keys sna" by blast
  from used_key_parse [OF a(2) used] obtain ip net where
    p: "ParseCIDR (hs_Subnet hs) = Inr (ip, net)" "IPNet_String net = hs_Subnet hs" "v4_net net" .
  from subnets.rl_succeeds [OF a(2) p(3)] used p(2) obtain sna1 where
    rl: "ReleaseNetwork net sna = (None, sna1)" by auto
  have "hs_Subnet hs \<in> sna_keys sna" using used subnets.used_universe [OF a(2)] by blast
  with subnets.rl_ok [OF a(2) p(3) rl] p(2)
  have "sna_inv sna1" "hs_Subnet hs \<in> sna_keys sna1 - sna_used_keys sna1" by auto
  with assms(2,4) p(1) a(1) rl show ?thesis by (simp add: deleteNode_def Let_def)
qed

section \<open>Examples\<close>

definition stored_subnets :: "memory \<Rightarrow> string \<rightharpoonup> HostSubnet" where
  "stored_subnets w n = map_option (\<lambda>s. s\<lparr>hs_Name := n\<rparr>) (map_of (mem_subnets w) n)"

lemma memory_subnet_server: "subnet_server memory_api stored_subnets"
proof -
  have ran: "set (map (\<lambda>(k, s). s\<lparr>hs_Name := k\<rparr>) (AList.clearjunk al)) =
      ran (\<lambda>n. map_option (\<lambda>s. s\<lparr>hs_Name := n\<rparr>) (map_of al n))" for al :: "(string \<times> HostSubnet) list"
  proof -
    have "map_of al k = Some s \<longleftrightarrow> (k, s) \<in> set (AList.clearjunk al)" for k s
      using map_of_eq_Some_iff [of "AList.clearjunk al" k s] by (simp add: distinct_clearjunk map_of_clearjunk)
    then show ?thesis by (auto simp: ran_def image_iff)
  qed
  have uid: "\<exists>uid. v(n \<mapsto> x) = v(n \<mapsto> x\<lparr>hs_UID := uid\<rparr>)" for v :: "string \<rightharpoonup> HostSubnet" and n x
    by (rule exI [of _ "hs_UID x"]) simp
  have name: "x\<lparr>hs_Name := hs_Name x\<rparr> = x" for x :: HostSubnet by simp
  have upd: "(\<lambda>n. map_option (\<lambda>s. s\<lparr>hs_Name := n\<rparr>) ((f(hs_Name x \<mapsto> x)) n)) =
      (\<lambda>n. map_option (\<lambda>s. s\<lparr>hs_Name := n\<rparr>) (f n))(hs_Name x \<mapsto> x)" for f :: "string \<rightharpoonup> HostSubnet" and x
    by (auto simp: fun_eq_iff name)
  have del: "(\<lambda>n. map_option (\<lambda>s. s\<lparr>hs_Name := n\<rparr>) ((f(k := None)) n)) =
      (\<lambda>n. map_option (\<lambda>s. s\<lparr>hs_Name := n\<rparr>) (f n))(k := None)" for f :: "string \<rightharpoonup> HostSubnet" and k
    by (auto simp: fun_eq_iff)
  show ?thesis
    unfolding subnet_server_def stored_subnets_def [abs_def]
    by (intro conjI allI impI)
      (auto simp: memory_defs ran upd del uid simp del: set_map fun_upd_apply split: option.splits if_splits)
qed

definition node_master :: OsdnMaster where
  "node_master = fresh_master\<lparr>m_registry := \<lparr>reg_NetworkInfo = Some sample_network\<rparr>,
     m_subnetAllocator := Some sixteen_by_14\<rparr>"

lemma inv_node_master: "subnet_inv stored_subnets (node_master, empty_memory)"
  by (rule subnet_invI [of _ sixteen_by_14])
    (simp_all add: node_master_def inv_sixteen_by_14 stored_subnets_def empty_memory_def)


lemma start_empty: "SubnetStartMaster memory_api (sna_network sixteen_by_14) 14 fresh_master empty_memory =
    (None, fresh_master\<lparr>m_subnetAllocator := Some sixteen_by_14\<rparr>, empty_memory)"
proof -
  have "IPNet_String (sna_network sixteen_by_14) = ''10.1.0.0/16''" by (simp add: sixteen_by_14_def str_simps)
  then show ?thesis
    by (simp add: SubnetStartMaster_def GetSubnets_def memory_defs New_sixteen_by_14 fresh_master_def)
qed

lemma SubnetStartMaster_establishes_witness:
  "subnet_inv stored_subnets (fresh_master\<lparr>m_subnetAllocator := Some sixteen_by_14\<rparr>, empty_memory)"
proof (rule SubnetStartMaster_establishes [OF memory_subnet_server start_empty])
  have e: "stored_subnets empty_memory = Map.empty" by (simp add: fun_eq_iff stored_subnets_def empty_memory_def)
  show "length (ipnet_Mask (sna_network sixteen_by_14)) = 4" by (simp add: sixteen_by_14_def)
  show "\<forall>hs\<in>ran (stored_subnets empty_memory). hs_Subnet hs \<in> sna_keys sixteen_by_14"
    "\<forall>n hs n' hs'. stored_subnets empty_memory n = Some hs \<and> stored_subnets empty_memory n' = Some hs'
       \<and> hs_Subnet hs = hs_Subnet hs' \<longrightarrow> n = n'" by (simp_all add: e)
qed simp

definition n1_subnet :: HostSubnet where
  "n1_subnet = \<lparr>hs_Name = ''n1'', hs_UID = '''', hs_Host = ''n1'', hs_HostIP = ''192.168.0.2'',
     hs_Subnet = IPNet_String (host_subnet 0x0A010000 18)\<rparr>"

definition n1_master :: OsdnMaster where
  "n1_master = node_master\<lparr>m_subnetAllocator := Some (take_subnet sixteen_by_14 0)\<rparr>"

definition n1_memory :: memory where
  "n1_memory = empty_memory\<lparr>mem_subnets := [(''n1'', n1_subnet)]\<rparr>"

lemma add_n1: "addNode memory_api ''n1'' ''192.168.0.2'' node_master empty_memory = Some (None, n1_master, n1_memory)"
proof -
  have "ParseIP ''192.168.0.2'' = IPv4 192 168 0 2" by (simp add: ParseIP_def str_simps)
  then have "ValidateNodeIP memory_api ''192.168.0.2'' \<lparr>reg_NetworkInfo = Some sample_network\<rparr> empty_memory =
      (None, \<lparr>reg_NetworkInfo = Some sample_network\<rparr>, empty_memory)"
    by (simp add: ValidateNodeIP_def GetNetworkInfo_def sample_network_def str_simps)
  then show ?thesis
    by (simp add: addNode_def create_subnet_def node_master_def n1_master_def GetSubnet_def CreateSubnet_def
        Get_sixteen_by_14 memory_defs n1_memory_def n1_subnet_def)
qed

lemma addNode_stores_witness:
  "\<exists>hs. stored_subnets n1_memory ''n1'' = Some hs \<and> hs_HostIP hs = ''192.168.0.2''"
  using addNode_stores [OF memory_subnet_server inv_node_master add_n1] by blast

definition flaky_api :: "memory api" where
  "flaky_api = memory_api\<lparr>HostSubnets_Delete := \<lambda>n w. (Inl not_found, w)\<rparr>"

theorem deleteNode_frees_first_witness:
  "\<exists>e m sna. deleteNode flaky_api ''n1'' n1_master n1_memory = Some (Some e, m, n1_memory)
     \<and> m_subnetAllocator m = Some sna \<and> hs_Subnet n1_subnet \<notin> sna_used_keys sna"
proof -
  note ok = subnets.al_ok [OF inv_sixteen_by_14 Get_sixteen_by_14]
  have n1: "stored_subnets n1_memory n = (if n = ''n1'' then Some n1_subnet else None)" for n
    by (simp add: stored_subnets_def n1_memory_def n1_subnet_def empty_memory_def)
  have "subnet_inv stored_subnets (n1_master, n1_memory)"
    by (rule subnet_invI [of _ "take_subnet sixteen_by_14 0"])
      (use ok in \<open>auto simp: n1_master_def n1 n1_subnet_def split: if_splits\<close>)
  moreover have "GetSubnet flaky_api ''n1'' n1_memory = (Inr n1_subnet, n1_memory)"
    "DeleteSubnet flaky_api ''n1'' n1_memory = (Some not_found, n1_memory)"
    by (simp_all add: GetSubnet_def DeleteSubnet_def flaky_api_def memory_defs n1_memory_def n1_subnet_def)
  ultimately show ?thesis
    using deleteNode_frees_first [of stored_subnets n1_master n1_memory flaky_api "''n1''" n1_subnet n1_memory not_found n1_memory]
    by (fastforce simp: n1)
qed

end
