(* ===== verification/Exec.thy ===== *)
theory Exec
  imports GoStrings "HOL-Library.Monad_Syntax"
begin

text \<open>
  \<open>pkg/exec/exec.go\<close>: the wrapper around \<open>os/exec\<close> through which the program runs \<open>ip\<close> and
  \<open>ovs-vsctl\<close>, with its test mode. The operating system is a parameter of type \<open>os\<close>: what a
  lookup, a command or another action gives may depend on all the actions before it, which the
  state keeps in \<open>hist\<close>; so what the program does to its host, and in which order, can be read
  off the state. A whole result of \<open>None\<close> is a panic, which only test mode and its set-up can
  raise.
\<close>

section \<open>State\<close>

type_synonym command = "string \<times> string list"

text \<open>What the program does to its host: run a command, write a file, set a kernel parameter.\<close>

datatype action = Run command | WriteFile string string | SetSysctl string int

record os =
  os_LookPath :: "action list \<Rightarrow> string \<Rightarrow> error + string"
  os_Run :: "action list \<Rightarrow> command \<Rightarrow> string \<times> error option"
  os_WriteFile :: "action list \<Rightarrow> string \<Rightarrow> string \<Rightarrow> error option"
  os_SetSysctl :: "action list \<Rightarrow> string \<Rightarrow> int \<Rightarrow> error option"

record TestResult =
  tr_command :: string
  tr_output :: string
  tr_err :: "error option"

text \<open>\<open>testPrograms\<close> is a nil map until \<open>SetTestMode\<close>; \<open>hist\<close> is the outside world.\<close>

record execState =
  testMode :: bool
  testPrograms :: "(string \<rightharpoonup> string) option"
  testResults :: "TestResult list"
  hist :: "action list"

definition exec_init :: execState where
  "exec_init = \<lparr>testMode = False, testPrograms = None, testResults = [], hist = []\<rparr>"

section \<open>Operations\<close>

definition testModeLookPath :: "string \<Rightarrow> execState \<Rightarrow> error + string" where
  "testModeLookPath program st =
     (case testPrograms st of
        None \<Rightarrow> Inl (Errorf ''Not found: %s'' [])
      | Some m \<Rightarrow> (case m program of
                    None \<Rightarrow> Inl (Errorf ''Not found: %s'' [])
                  | Some path \<Rightarrow> Inr path))"

definition LookPath :: "os \<Rightarrow> string \<Rightarrow> execState \<Rightarrow> error + string" where
  "LookPath os program st =
     (if testMode st then testModeLookPath program st else os_LookPath os (hist st) program)"

definition command_line :: "string \<Rightarrow> string list \<Rightarrow> string" where
  "command_line cmd args = (if length args > 0 then cmd @ '' '' @ Join args '' '' else cmd)"

definition testModeExec ::
  "string \<Rightarrow> string list \<Rightarrow> execState \<Rightarrow> ((string \<times> error option) \<times> execState) option" where
  "testModeExec cmd args st =
     (case testResults st of
        [] \<Rightarrow> None
      | result # rest \<Rightarrow>
          if command_line cmd args \<noteq> tr_command result then None
          else Some ((tr_output result, tr_err result), st\<lparr>testResults := rest\<rparr>))"

definition exec_error :: "error \<Rightarrow> error" where
  "exec_error err = Errorf ''%s failed: '%s %s': %v'' [err]"

definition Exec ::
  "os \<Rightarrow> string \<Rightarrow> string list \<Rightarrow> execState \<Rightarrow> ((string \<times> error option) \<times> execState) option" where
  "Exec os cmd args st =
     (if testMode st then testModeExec cmd args st
      else let (out, err) = os_Run os (hist st) (cmd, args)
           in Some ((out, map_option exec_error err), st\<lparr>hist := hist st @ [Run (cmd, args)]\<rparr>))"

text \<open>
  The parts of the program that import \<open>os/exec\<close>, \<open>ioutil\<close> or \<open>sysctl\<close> themselves act on the host
  directly, in test mode too.
\<close>

definition CombinedOutput ::
  "os \<Rightarrow> string \<Rightarrow> string list \<Rightarrow> execState \<Rightarrow> (string \<times> error option) \<times> execState" where
  "CombinedOutput os cmd args st =
     (os_Run os (hist st) (cmd, args), st\<lparr>hist := hist st @ [Run (cmd, args)]\<rparr>)"

definition write_file :: "os \<Rightarrow> string \<Rightarrow> string \<Rightarrow> execState \<Rightarrow> error option \<times> execState" where
  "write_file os path content st =
     (os_WriteFile os (hist st) path content, st\<lparr>hist := hist st @ [WriteFile path content]\<rparr>)"

definition set_sysctl :: "os \<Rightarrow> string \<Rightarrow> int \<Rightarrow> execState \<Rightarrow> error option \<times> execState" where
  "set_sysctl os key val st =
     (os_SetSysctl os (hist st) key val, st\<lparr>hist := hist st @ [SetSysctl key val]\<rparr>)"

definition SetTestMode :: "execState \<Rightarrow> execState" where
  "SetTestMode st = st\<lparr>testMode := True, testPrograms := Some Map.empty\<rparr>"

text \<open>The part of a path after its last slash.\<close>

fun basename :: "string \<Rightarrow> string" where
  "basename [] = []"
| "basename (c # path) = (if CHR ''/'' \<in> set path then basename path
                           else if c = CHR ''/'' then path else c # path)"

definition AddTestProgram :: "string \<Rightarrow> execState \<Rightarrow> execState option" where
  "AddTestProgram path st =
     (case testPrograms st of
        None \<Rightarrow> None
      | Some m \<Rightarrow> Some (st\<lparr>testPrograms := Some (m(basename path \<mapsto> path))\<rparr>))"

definition AddTestResult :: "string \<Rightarrow> string \<Rightarrow> error option \<Rightarrow> execState \<Rightarrow> execState" where
  "AddTestResult command output err st =
     st\<lparr>testResults := testResults st @ [\<lparr>tr_command = command, tr_output = output, tr_err = err\<rparr>]\<rparr>"

section \<open>Lemmas\<close>

text \<open>A host on which every program is found and commands answer by a fixed table, for examples.\<close>

definition table_host :: "(command \<Rightarrow> string \<times> error option) \<Rightarrow> os" where
  "table_host f =
     \<lparr>os_LookPath = \<lambda>h p. Inr p, os_Run = \<lambda>h c. f c, os_WriteFile = \<lambda>h p c. None,
      os_SetSysctl = \<lambda>h p v. None\<rparr>"

lemma table_host_simps [simp]:
  "os_LookPath (table_host f) h p = Inr p" "os_Run (table_host f) h c = f c"
  "os_WriteFile (table_host f) h p t = None" "os_SetSysctl (table_host f) h p v = None"
  by (simp_all add: table_host_def)

lemma exec_init_simps [simp]: "\<not> testMode exec_init" "hist exec_init = []"
  by (simp_all add: exec_init_def)

lemma Exec_real [simp]:
  "\<not> testMode st \<Longrightarrow> Exec os cmd args st =
     Some ((fst (os_Run os (hist st) (cmd, args)), map_option exec_error (snd (os_Run os (hist st) (cmd, args)))),
       st\<lparr>hist := hist st @ [Run (cmd, args)]\<rparr>)"
  by (simp add: Exec_def split: prod.splits)

lemma LookPath_real [simp]: "\<not> testMode st \<Longrightarrow> LookPath os p st = os_LookPath os (hist st) p"
  by (simp add: LookPath_def)

text \<open>A command changes neither the mode nor, in test mode, the outside world.\<close>

lemma Exec_frame:
  "Exec os cmd args st = Some (r, st') \<Longrightarrow> testMode st' = testMode st \<and> testPrograms st' = testPrograms st
     \<and> (testMode st \<longrightarrow> hist st' = hist st)"
  by (auto simp: Exec_def testModeExec_def split: if_splits list.splits prod.splits)

fun exec_script :: "os \<Rightarrow> command list \<Rightarrow> execState \<Rightarrow> ((string \<times> error option) list \<times> execState) option" where
  "exec_script os [] st = Some ([], st)"
| "exec_script os (c # cs) st =
     do { (r, st1) \<leftarrow> Exec os (fst c) (snd c) st;
          (rs, st2) \<leftarrow> exec_script os cs st1;
          Some (r # rs, st2) }"

definition expect :: "(command \<times> string \<times> error option) list \<Rightarrow> execState \<Rightarrow> execState" where
  "expect es st =
     fold (\<lambda>(c, out, err). AddTestResult (command_line (fst c) (snd c)) out err) es st"

lemma expect_results:
  "expect es st = st\<lparr>testResults := testResults st @
     map (\<lambda>(c, out, err). \<lparr>tr_command = command_line (fst c) (snd c), tr_output = out, tr_err = err\<rparr>) es\<rparr>"
proof (induction es arbitrary: st)
  case (Cons e es)
  obtain c out err where "e = (c, out, err)" by (cases e)
  with Cons [of "AddTestResult (command_line (fst c) (snd c)) out err st"] show ?case
    by (simp add: expect_def AddTestResult_def)
qed (simp add: expect_def)

lemma exec_script_expected:
  assumes "testMode st"
    and "testResults st = map (\<lambda>(c, out, err).
      \<lparr>tr_command = command_line (fst c) (snd c), tr_output = out, tr_err = err\<rparr>) es"
  shows "exec_script os (map fst es) st = Some (map snd es, st\<lparr>testResults := []\<rparr>)"
  using assms
proof (induction es arbitrary: st)
  case (Cons e es)
  obtain c out err where e: "e = (c, out, err)" by (cases e)
  let ?st = "st\<lparr>testResults := tl (testResults st)\<rparr>"
  have "Exec os (fst c) (snd c) st = Some ((out, err), ?st)"
    using Cons.prems e by (simp add: Exec_def testModeExec_def)
  moreover have "exec_script os (map fst es) ?st = Some (map snd es, ?st\<lparr>testResults := []\<rparr>)"
    using Cons.prems e by (intro Cons.IH) simp_all
  ultimately show ?case using e by simp
qed simp

section \<open>Properties\<close>

text \<open>
  In test mode a script of commands announced with \<open>AddTestResult\<close>, in order and once each,
  gives exactly the announced outputs and errors, uses them all up and runs nothing; one command
  more panics, and so does a command with another command line than the one announced next.
\<close>

lemma test_mode_script:
  assumes "testResults st = []"
  shows "exec_script os (map fst es) (expect es (SetTestMode st)) = Some (map snd es, SetTestMode st)
    \<and> exec_script os (map fst es @ [c]) (expect es (SetTestMode st)) = None
    \<and> (command_line (fst c) (snd c) \<noteq> command_line (fst d) (snd d) \<longrightarrow>
         Exec os (fst c) (snd c) (expect ((d, r) # es) (SetTestMode st)) = None)"
proof -
  let ?st = "expect es (SetTestMode st)"
  have "exec_script os (map fst es) ?st = Some (map snd es, ?st\<lparr>testResults := []\<rparr>)"
    by (rule exec_script_expected) (simp_all add: expect_results SetTestMode_def assms)
  moreover have "?st\<lparr>testResults := []\<rparr> = SetTestMode st"
    by (simp add: expect_results SetTestMode_def assms)
  moreover have "exec_script os (cs @ [c]) s =
      do { (rs, s1) \<leftarrow> exec_script os cs s; (r, s2) \<leftarrow> Exec os (fst c) (snd c) s1; Some (rs @ [r], s2) }"
    for cs s
    by (induction cs arbitrary: s) (auto split: Option.bind_splits)
  moreover have "Exec os (fst c) (snd c) (SetTestMode st) = None"
    using assms by (simp add: Exec_def testModeExec_def SetTestMode_def)
  ultimately show ?thesis
    by (auto simp: Exec_def testModeExec_def expect_results SetTestMode_def assms split: prod.splits)
qed

lemma test_mode_script_witness:
  "exec_script os [(''ip'', [''link''])] (expect [((''ip'', [''link'']), ''out'', None)] (SetTestMode exec_init))
     = Some ([(''out'', None)], SetTestMode exec_init)"
  using test_mode_script [of exec_init os "[((''ip'', [''link'']), ''out'', None)]"]
  by (simp add: exec_init_def)

end
