(* ===== verification/GoFmt.thy ===== *)
theory GoFmt
  imports GoStrings
begin

text \<open>
  The part of package \<open>fmt\<close> the program builds its command arguments with: \<open>Sprintf\<close> with the
  verbs \<open>%s\<close> and \<open>%d\<close> on strings, \<open>uint\<close>s and \<open>int\<close>s, and what Go prints when a verb and its
  operand do not fit or their numbers differ.
\<close>

datatype fmt_arg = S string | U nat | I int

definition itoz :: "int \<Rightarrow> string" where
  "itoz i = (if i < 0 then ''-'' @ itod (nat (- i)) else itod (nat i))"

fun typed :: "fmt_arg \<Rightarrow> string" where
  "typed (S s) = ''string='' @ s"
| "typed (U n) = ''uint='' @ itod n"
| "typed (I i) = ''int='' @ itoz i"

definition fmt_verb :: "char \<Rightarrow> fmt_arg \<Rightarrow> string" where
  "fmt_verb v a =
     (case a of
        S s \<Rightarrow> if v = CHR ''s'' then s else ''%!'' @ [v] @ ''('' @ typed a @ '')''
      | U n \<Rightarrow> if v = CHR ''d'' then itod n else ''%!'' @ [v] @ ''('' @ typed a @ '')''
      | I i \<Rightarrow> if v = CHR ''d'' then itoz i else ''%!'' @ [v] @ ''('' @ typed a @ '')'')"

definition fmt_extra :: "fmt_arg list \<Rightarrow> string" where
  "fmt_extra args = (if args = [] then [] else ''%!(EXTRA '' @ Join (map typed args) '', '' @ '')'')"

fun Sprintf :: "string \<Rightarrow> fmt_arg list \<Rightarrow> string" where
  "Sprintf [] args = fmt_extra args"
| "Sprintf [c] args = (if c = CHR ''%'' then ''%!(NOVERB)'' @ fmt_extra args else c # fmt_extra args)"
| "Sprintf (c # v # f) args =
     (if c \<noteq> CHR ''%'' then c # Sprintf (v # f) args
      else if v = CHR ''%'' then CHR ''%'' # Sprintf f args
      else case args of
             [] \<Rightarrow> ''%!'' @ [v] @ ''(MISSING)'' @ Sprintf f []
           | a # args' \<Rightarrow> fmt_verb v a @ Sprintf f args')"

text \<open>Evaluation on literal formats.\<close>

lemma Sprintf_eval [str_simps]:
  "Sprintf [] [] = []"
  "c \<noteq> CHR ''%'' \<Longrightarrow> Sprintf (c # f) args = c # Sprintf f args"
  "Sprintf (CHR ''%'' # CHR ''s'' # f) (S s # args) = s @ Sprintf f args"
  "Sprintf (CHR ''%'' # CHR ''d'' # f) (U n # args) = itod n @ Sprintf f args"
  "Sprintf (CHR ''%'' # CHR ''d'' # f) (I i # args) = itoz i @ Sprintf f args"
  by (simp_all add: fmt_extra_def fmt_verb_def, cases f) (simp_all add: fmt_extra_def)

declare Sprintf.simps [simp del]

lemma Sprintf_literal: "CHR ''%'' \<notin> set f \<Longrightarrow> Sprintf f [] = f"
  by (induction f) (auto simp: Sprintf_eval)

lemma Sprintf_example:
  "Sprintf ''table=1, tun_src=%s, x=%d'' [S ''10.0.0.1'', U 7] = ''table=1, tun_src=10.0.0.1, x=7''"
  by (simp add: str_simps)

end
