(* ===== verification/Transaction.thy ===== *)
theory Transaction
  imports Exec GoFmt
begin

text \<open>
  The contract that the two transaction types of the program, \<open>ovs.Transaction\<close> and
  \<open>ipcmd.Transaction\<close>, promise in their comments: an error is recorded until \<open>EndTransaction\<close>,
  and every further call is ignored. It is stated as a locale over one step of a transaction,
  whose lemmas say that a transaction runs its commands one after another up to the first that
  fails, whatever the operating system does.
\<close>

section \<open>Runs\<close>

fun tx_run ::
  "('op \<Rightarrow> 'tx \<Rightarrow> execState \<Rightarrow> ('tx \<times> execState) option) \<Rightarrow> 'op list \<Rightarrow> 'tx \<Rightarrow> execState
     \<Rightarrow> ('tx \<times> execState) option" where
  "tx_run step [] tx st = Some (tx, st)"
| "tx_run step (p # ps) tx st = do { (tx1, st1) \<leftarrow> step p tx st; tx_run step ps tx1 st1 }"

lemma tx_run_append:
  "tx_run step (ps @ qs) tx st = do { (tx1, st1) \<leftarrow> tx_run step ps tx st; tx_run step qs tx1 st1 }"
  by (induction ps arbitrary: tx st) (auto split: Option.bind_splits)

text \<open>The abstract specification: run commands until one fails or its program is not found.\<close>

fun until_failure :: "os \<Rightarrow> error \<Rightarrow> command list \<Rightarrow> execState \<Rightarrow> (error option \<times> execState) option" where
  "until_failure os missing [] st = Some (None, st)"
| "until_failure os missing (c # cs) st =
     (case LookPath os (fst c) st of
        Inl e \<Rightarrow> Some (Some missing, st)
      | Inr path \<Rightarrow>
          do { ((out, err), st1) \<leftarrow> Exec os path (snd c) st;
               (case err of None \<Rightarrow> until_failure os missing cs st1 | Some e \<Rightarrow> Some (Some e, st1)) })"

text \<open>What \<open>LookPath\<close> turns the commands into.\<close>

inductive ran :: "os \<Rightarrow> command list \<Rightarrow> action list \<Rightarrow> action list \<Rightarrow> bool" for os where
  ran_Nil: "ran os [] h h"
| ran_Cons: "os_LookPath os h (fst c) = Inr path \<Longrightarrow> ran os cs (h @ [Run (path, snd c)]) h' \<Longrightarrow>
     ran os (c # cs) h h'"

inductive_simps ran_simps [simp]: "ran os [] h h'" "ran os (c # cs) h h'"

lemma ran_snoc:
  "ran os cs h h1 \<Longrightarrow> os_LookPath os h1 (fst c) = Inr path \<Longrightarrow>
     ran os (cs @ [c]) h (h1 @ [Run (path, snd c)])"
  by (induction rule: ran.induct) auto

lemma until_failure_frame:
  "until_failure os missing cs st = Some (e, st') \<Longrightarrow>
     testMode st' = testMode st \<and> testPrograms st' = testPrograms st"
  by (induction cs arbitrary: st)
    (auto split: sum.splits option.splits Option.bind_splits dest!: Exec_frame)

text \<open>
  How such a run stops after \<open>k\<close> of the commands, with the history \<open>h\<close>: at the end, or with the
  program of the next command not found, or with the last command failed.
\<close>

definition stopped :: "os \<Rightarrow> error \<Rightarrow> command list \<Rightarrow> nat \<Rightarrow> action list \<Rightarrow> error option \<Rightarrow> bool" where
  "stopped os missing cs k h e \<longleftrightarrow>
     (case e of
        None \<Rightarrow> k = length cs
      | Some er \<Rightarrow>
          k < length cs \<and> er = missing \<and> (\<exists>x. os_LookPath os h (fst (cs ! k)) = Inl x)
          \<or> (\<exists>j path x h0. k = Suc j \<and> j < length cs \<and> h = h0 @ [Run (path, snd (cs ! j))]
               \<and> snd (os_Run os h0 (path, snd (cs ! j))) = Some x \<and> er = exec_error x))"

lemma stopped_Cons: "stopped os missing cs k h e \<Longrightarrow> stopped os missing (c # cs) (Suc k) h e"
  by (auto simp: stopped_def split: option.splits)

lemma until_failure_real:
  assumes "\<not> testMode st"
  shows "\<exists>e st' k. until_failure os missing cs st = Some (e, st') \<and> k \<le> length cs
    \<and> st' = st\<lparr>hist := hist st'\<rparr> \<and> ran os (take k cs) (hist st) (hist st')
    \<and> stopped os missing cs k (hist st') e"
  using assms
proof (induction cs arbitrary: st)
  case Nil
  then show ?case by (simp add: stopped_def)
next
  case (Cons c cs)
  show ?case
  proof (cases "os_LookPath os (hist st) (fst c)")
    case (Inl x)
    then show ?thesis using Cons.prems
      by (intro exI [of _ "Some missing"] exI [of _ st] exI [of _ 0]) (simp add: stopped_def)
  next
    case (Inr path)
    obtain out err where r: "os_Run os (hist st) (path, snd c) = (out, err)" by fastforce
    let ?st = "st\<lparr>hist := hist st @ [Run (path, snd c)]\<rparr>"
    show ?thesis
    proof (cases err)
      case (Some x)
      then show ?thesis using Cons.prems Inr r
        by (intro exI [of _ "Some (exec_error x)"] exI [of _ ?st] exI [of _ 1]) (auto simp: stopped_def)
    next
      case None
      have step: "until_failure os missing (c # cs) st = until_failure os missing cs ?st"
        using Cons.prems Inr r None by simp
      from Cons.IH [of ?st] Cons.prems obtain e st' k where IH:
        "until_failure os missing cs ?st = Some (e, st')" "k \<le> length cs" "st' = ?st\<lparr>hist := hist st'\<rparr>"
        "ran os (take k cs) (hist ?st) (hist st')" "stopped os missing cs k (hist st') e"
        by auto
      have "st' = st\<lparr>hist := hist st'\<rparr>" using IH(3) by simp
      moreover have "ran os (take (Suc k) (c # cs)) (hist st) (hist st')" using Inr IH(4) by auto
      ultimately show ?thesis unfolding step using IH(1,2) stopped_Cons [OF IH(5)]
        by (intro exI [of _ e] exI [of _ st'] exI [of _ "Suc k"]) simp
    qed
  qed
qed

section \<open>The contract\<close>

locale transaction =
  fixes step :: "os \<Rightarrow> 'op \<Rightarrow> 'tx \<Rightarrow> execState \<Rightarrow> ('tx \<times> execState) option"
    and mk :: "string \<Rightarrow> error option \<Rightarrow> 'tx"
    and fin :: "'tx \<Rightarrow> error option \<times> 'tx"
    and cmd :: "string \<Rightarrow> 'op \<Rightarrow> command"
    and missing :: error
  assumes ignored: "step os p (mk t (Some e)) st = Some (mk t (Some e), st)"
    and performed: "step os p (mk t None) st =
      map_option (\<lambda>(e, st'). (mk t e, st')) (until_failure os missing [cmd t p] st)"
    and ended: "fin (mk t r) = (r, mk t None)"
begin

lemma run_after_error: "tx_run (step os) ps (mk t (Some e)) st = Some (mk t (Some e), st)"
  by (induction ps) (simp_all add: ignored)

text \<open>Refinement: a run of a transaction is the abstract specification on its commands.\<close>

lemma run_refines:
  "tx_run (step os) ps (mk t None) st =
     map_option (\<lambda>(e, st'). (mk t e, st')) (until_failure os missing (map (cmd t) ps) st)"
proof (induction ps arbitrary: st)
  case (Cons p ps)
  show ?case
    by (auto simp: performed Cons run_after_error split: sum.splits option.splits Option.bind_splits)
qed simp

text \<open>From the first call to \<open>EndTransaction\<close>.\<close>

lemma run_end:
  assumes "\<not> testMode st"
  shows "\<exists>tx' st' k. tx_run (step os) ps (mk t None) st = Some (tx', st') \<and> k \<le> length ps
    \<and> st' = st\<lparr>hist := hist st'\<rparr>
    \<and> ran os (map (cmd t) (take k ps)) (hist st) (hist st')
    \<and> stopped os missing (map (cmd t) ps) k (hist st') (fst (fin tx'))
    \<and> snd (fin tx') = mk t None"
proof -
  from until_failure_real [OF assms, of os missing "map (cmd t) ps"] obtain e st' k where
    u: "until_failure os missing (map (cmd t) ps) st = Some (e, st')" "k \<le> length ps"
      "st' = st\<lparr>hist := hist st'\<rparr>" "ran os (take k (map (cmd t) ps)) (hist st) (hist st')"
      "stopped os missing (map (cmd t) ps) k (hist st') e" by auto
  then show ?thesis
    by (intro exI [of _ "mk t e"] exI [of _ st'] exI [of _ k])
      (simp add: run_refines ended take_map)
qed

end

end
