(* ===== verification/Ovs.thy ===== *)
theory Ovs
  imports Transaction
begin

text \<open>
  \<open>pkg/ovs/ovs.go\<close>: transactions on an Open vSwitch bridge. Every method is an operation on the
  transaction and the state of package \<open>exec\<close>; \<open>ovs_op\<close> names the calls, so that a sequence of
  calls is a list. The format strings are applied by \<open>Sprintf\<close> as in the source.
\<close>

record ovsTransaction =
  ovs_bridge :: string
  ovs_err :: "error option"

definition ovs_NewTransaction :: "string \<Rightarrow> ovsTransaction" where
  "ovs_NewTransaction bridge = \<lparr>ovs_bridge = bridge, ovs_err = None\<rparr>"

type_synonym 'r ovs_result = "('r \<times> ovsTransaction \<times> execState) option"

definition ovs_exec ::
  "os \<Rightarrow> string \<Rightarrow> string list \<Rightarrow> ovsTransaction \<Rightarrow> execState \<Rightarrow> (string \<times> error option) ovs_result"
where
  "ovs_exec os cmd args tx st =
     (case ovs_err tx of
        Some e \<Rightarrow> Some (('''', Some e), tx, st)
      | None \<Rightarrow>
          (case LookPath os cmd st of
             Inl err \<Rightarrow>
               (let e = Errorf ''OVS is not installed'' [] in
                  Some (('''', Some e), tx\<lparr>ovs_err := Some e\<rparr>, st))
           | Inr cmdpath \<Rightarrow>
               do { ((output, err), st1) \<leftarrow> Exec os cmdpath args st;
                    Some ((output, err), tx\<lparr>ovs_err := err\<rparr>, st1) }))"

definition vsctlExec ::
  "os \<Rightarrow> string list \<Rightarrow> ovsTransaction \<Rightarrow> execState \<Rightarrow> (string \<times> error option) ovs_result" where
  "vsctlExec os args tx st = ovs_exec os ''ovs-vsctl'' args tx st"

definition ofctlExec ::
  "os \<Rightarrow> string list \<Rightarrow> ovsTransaction \<Rightarrow> execState \<Rightarrow> (string \<times> error option) ovs_result" where
  "ofctlExec os args tx st = ovs_exec os ''ovs-ofctl'' ([''-O'', ''OpenFlow13''] @ args) tx st"

definition AddBridge ::
  "os \<Rightarrow> string list \<Rightarrow> ovsTransaction \<Rightarrow> execState \<Rightarrow> (ovsTransaction \<times> execState) option" where
  "AddBridge os properties tx st =
     (let args = [''--if-exists'', ''del-br'', ovs_bridge tx, ''--'', ''add-br'', ovs_bridge tx];
          args' = (if length properties > 0
                   then args @ [''--'', ''set'', ''Bridge'', ovs_bridge tx] @ properties else args)
      in map_option snd (vsctlExec os args' tx st))"

definition DeleteBridge ::
  "os \<Rightarrow> ovsTransaction \<Rightarrow> execState \<Rightarrow> (ovsTransaction \<times> execState) option" where
  "DeleteBridge os tx st = map_option snd (vsctlExec os [''del-br'', ovs_bridge tx] tx st)"

definition AddPort ::
  "os \<Rightarrow> string \<Rightarrow> nat \<Rightarrow> string list \<Rightarrow> ovsTransaction \<Rightarrow> execState
     \<Rightarrow> (ovsTransaction \<times> execState) option" where
  "AddPort os port ofport properties tx st =
     (let args = [''--if-exists'', ''del-port'', port, ''--'', ''add-port'', ovs_bridge tx, port,
                  ''--'', ''set'', ''Interface'', port, Sprintf ''ofport_request=%d'' [U ofport]];
          args' = (if length properties > 0 then args @ properties else args)
      in map_option snd (vsctlExec os args' tx st))"

definition DeletePort ::
  "os \<Rightarrow> string \<Rightarrow> ovsTransaction \<Rightarrow> execState \<Rightarrow> (ovsTransaction \<times> execState) option" where
  "DeletePort os port tx st = map_option snd (vsctlExec os [''del-port'', port] tx st)"

definition AddFlow ::
  "os \<Rightarrow> string \<Rightarrow> fmt_arg list \<Rightarrow> ovsTransaction \<Rightarrow> execState
     \<Rightarrow> (ovsTransaction \<times> execState) option" where
  "AddFlow os flow args tx st =
     (let flow' = (if length args > 0 then Sprintf flow args else flow)
      in map_option snd (ofctlExec os [''add-flow'', ovs_bridge tx, flow'] tx st))"

definition DeleteFlows ::
  "os \<Rightarrow> string \<Rightarrow> fmt_arg list \<Rightarrow> ovsTransaction \<Rightarrow> execState
     \<Rightarrow> (ovsTransaction \<times> execState) option" where
  "DeleteFlows os flow args tx st =
     (let flow' = (if length args > 0 then Sprintf flow args else flow)
      in map_option snd (ofctlExec os [''del-flows'', ovs_bridge tx, flow'] tx st))"

definition DumpFlows ::
  "os \<Rightarrow> ovsTransaction \<Rightarrow> execState \<Rightarrow> (error + string list) ovs_result" where
  "DumpFlows os tx st =
     do { ((out, err), tx1, st1) \<leftarrow> ofctlExec os [''dump-flows'', ovs_bridge tx] tx st;
          Some (case err of
                  Some e \<Rightarrow> Inl e
                | None \<Rightarrow> Inr (filter (\<lambda>line. Contains line ''cookie='') (Split out [CHR 0x0A])),
                tx1, st1) }"

definition ovs_EndTransaction :: "ovsTransaction \<Rightarrow> error option \<times> ovsTransaction" where
  "ovs_EndTransaction tx = (ovs_err tx, tx\<lparr>ovs_err := None\<rparr>)"

section \<open>Sequences of calls\<close>

datatype ovs_op =
    Add_Bridge "string list"
  | Delete_Bridge
  | Add_Port string nat "string list"
  | Delete_Port string
  | Add_Flow string "fmt_arg list"
  | Delete_Flows string "fmt_arg list"
  | Dump_Flows

fun ovs_step :: "os \<Rightarrow> ovs_op \<Rightarrow> ovsTransaction \<Rightarrow> execState \<Rightarrow> (ovsTransaction \<times> execState) option"
where
  "ovs_step os (Add_Bridge properties) = AddBridge os properties"
| "ovs_step os Delete_Bridge = DeleteBridge os"
| "ovs_step os (Add_Port port ofport properties) = AddPort os port ofport properties"
| "ovs_step os (Delete_Port port) = DeletePort os port"
| "ovs_step os (Add_Flow flow args) = AddFlow os flow args"
| "ovs_step os (Delete_Flows flow args) = DeleteFlows os flow args"
| "ovs_step os Dump_Flows = (\<lambda>tx st. map_option snd (DumpFlows os tx st))"

text \<open>The command line of each call.\<close>

definition flow_arg :: "string \<Rightarrow> fmt_arg list \<Rightarrow> string" where
  "flow_arg flow args = (if args = [] then flow else Sprintf flow args)"

definition ofctl :: "string list \<Rightarrow> command" where
  "ofctl args = (''ovs-ofctl'', [''-O'', ''OpenFlow13''] @ args)"

fun ovs_cmd :: "string \<Rightarrow> ovs_op \<Rightarrow> command" where
  "ovs_cmd br (Add_Bridge properties) =
     (''ovs-vsctl'', [''--if-exists'', ''del-br'', br, ''--'', ''add-br'', br] @
        (if properties = [] then [] else [''--'', ''set'', ''Bridge'', br] @ properties))"
| "ovs_cmd br Delete_Bridge = (''ovs-vsctl'', [''del-br'', br])"
| "ovs_cmd br (Add_Port port ofport properties) =
     (''ovs-vsctl'', [''--if-exists'', ''del-port'', port, ''--'', ''add-port'', br, port,
        ''--'', ''set'', ''Interface'', port, ''ofport_request='' @ itod ofport] @ properties)"
| "ovs_cmd br (Delete_Port port) = (''ovs-vsctl'', [''del-port'', port])"
| "ovs_cmd br (Add_Flow flow args) = ofctl [''add-flow'', br, flow_arg flow args]"
| "ovs_cmd br (Delete_Flows flow args) = ofctl [''del-flows'', br, flow_arg flow args]"
| "ovs_cmd br Dump_Flows = ofctl [''dump-flows'', br]"

definition ovs_mk :: "string \<Rightarrow> error option \<Rightarrow> ovsTransaction" where
  "ovs_mk br e = \<lparr>ovs_bridge = br, ovs_err = e\<rparr>"

lemma ovs_exec_mk:
  "ovs_exec os prog args (ovs_mk br (Some e)) st = Some (('''', Some e), ovs_mk br (Some e), st)"
  "map_option snd (ovs_exec os prog args (ovs_mk br None) st) =
     map_option (\<lambda>(e, st'). (ovs_mk br e, st'))
       (until_failure os (Errorf ''OVS is not installed'' []) [(prog, args)] st)"
  by (auto simp: ovs_exec_def ovs_mk_def Let_def split: sum.splits Option.bind_splits option.splits)

lemma DumpFlows_snd: "map_option snd (DumpFlows os tx st) =
    map_option snd (ofctlExec os [''dump-flows'', ovs_bridge tx] tx st)"
  by (auto simp: DumpFlows_def split: Option.bind_splits)

lemma ovs_bridge_mk [simp]: "ovs_bridge (ovs_mk br e) = br" "ovs_err (ovs_mk br e) = e"
  by (simp_all add: ovs_mk_def)

lemmas ovs_defs = AddBridge_def DeleteBridge_def AddPort_def DeletePort_def AddFlow_def
  DeleteFlows_def vsctlExec_def ofctlExec_def

interpretation ovs: transaction ovs_step ovs_mk ovs_EndTransaction ovs_cmd
  "Errorf ''OVS is not installed'' []"
proof (unfold_locales, goal_cases)
  case (1 os p t e st)
  show ?case by (cases p) (simp_all add: ovs_defs Let_def ovs_exec_mk DumpFlows_snd)
next
  case (2 os p t st)
  show ?case
    by (cases p) (simp_all only: ovs_step.simps ovs_cmd.simps ovs_defs Let_def ovs_exec_mk DumpFlows_snd
      ovs_bridge_mk ofctl_def flow_arg_def, simp_all add: str_simps del: until_failure.simps)
next
  case (3 t r)
  show ?case by (simp add: ovs_EndTransaction_def ovs_mk_def)
qed

section \<open>Properties\<close>

text \<open>
  C25: a transaction of any calls on a bridge, on any host, runs the command lines of an initial
  part of the calls, in order and nothing else. \<open>EndTransaction\<close> reports no error exactly when it
  ran all of them with success, and otherwise the error of the first that failed, after which
  none was run; the transaction is then as new.
\<close>

theorem ovs_transaction_until_failure:
  assumes "\<not> testMode st"
  shows "\<exists>tx st' k. tx_run (ovs_step os) ps (ovs_NewTransaction br) st = Some (tx, st')
    \<and> k \<le> length ps \<and> st' = st\<lparr>hist := hist st'\<rparr>
    \<and> ran os (map (ovs_cmd br) (take k ps)) (hist st) (hist st')
    \<and> stopped os (Errorf ''OVS is not installed'' []) (map (ovs_cmd br) ps) k (hist st')
        (fst (ovs_EndTransaction tx))
    \<and> snd (ovs_EndTransaction tx) = ovs_NewTransaction br"
  using ovs.run_end [OF assms, of os ps br] by (simp add: ovs_NewTransaction_def ovs_mk_def)

definition broken_host :: os where
  "broken_host =
     \<lparr>os_LookPath = \<lambda>h p. Inr (''/usr/bin/'' @ p),
      os_Run = \<lambda>h c. ([], if h = [] then None else Some ExitError),
      os_WriteFile = \<lambda>h p c. None, os_SetSysctl = \<lambda>h p v. None\<rparr>"

theorem ovs_transaction_until_failure_witness:
  "\<exists>tx st' k. tx_run (ovs_step broken_host) [Delete_Port ''p'', Delete_Port ''q'', Delete_Bridge]
       (ovs_NewTransaction ''br0'') exec_init = Some (tx, st')
     \<and> stopped broken_host (Errorf ''OVS is not installed'' [])
         (map (ovs_cmd ''br0'') [Delete_Port ''p'', Delete_Port ''q'', Delete_Bridge]) k (hist st')
         (fst (ovs_EndTransaction tx))"
  using ovs_transaction_until_failure [OF exec_init_simps(1), of broken_host
      "[Delete_Port ''p'', Delete_Port ''q'', Delete_Bridge]" "''br0''"] by blast

text \<open>
  \<open>DumpFlows\<close> gives the lines of the output of \<open>ovs-ofctl\<close> that hold a flow, in order, and it
  reports an error at once; after an earlier error it runs nothing.
\<close>

lemma DumpFlows_lines:
  assumes "\<not> testMode st" and "os_LookPath os (hist st) ''ovs-ofctl'' = Inr path"
    and "os_Run os (hist st) (path, [''-O'', ''OpenFlow13'', ''dump-flows'', br]) = (Join ls [CHR 0x0A], e)"
    and "\<forall>l\<in>set ls. CHR 0x0A \<notin> set l" and "ls \<noteq> []"
  shows "map_option fst (DumpFlows os (ovs_mk br None) st) =
      Some (case e of None \<Rightarrow> Inr (filter (\<lambda>l. Contains l ''cookie='') ls) | Some x \<Rightarrow> Inl (exec_error x))
    \<and> DumpFlows os (ovs_mk br (Some e')) st = Some (Inl e', ovs_mk br (Some e'), st)"
  using assms
  by (cases e) (simp_all add: DumpFlows_def ofctlExec_def ovs_exec_def ovs_mk_def Split_Join)

end
