(* ===== verification/IpCmd.thy ===== *)
theory IpCmd
  imports Transaction
begin

text \<open>
  \<open>pkg/ipcmd/ipcmd.go\<close>: transactions on a network interface, each a sequence of calls of the
  \<open>ip\<close> command. The methods have the shape of those of \<open>Ovs\<close>; \<open>IgnoreError\<close> is the one addition.
\<close>

record ipTransaction =
  ip_link :: string
  ip_err :: "error option"

definition ip_NewTransaction :: "string \<Rightarrow> ipTransaction" where
  "ip_NewTransaction link = \<lparr>ip_link = link, ip_err = None\<rparr>"

definition ip_exec ::
  "os \<Rightarrow> string list \<Rightarrow> ipTransaction \<Rightarrow> execState
     \<Rightarrow> ((string \<times> error option) \<times> ipTransaction \<times> execState) option" where
  "ip_exec os args tx st =
     (case ip_err tx of
        Some e \<Rightarrow> Some (('''', Some e), tx, st)
      | None \<Rightarrow>
          (case LookPath os ''ip'' st of
             Inl err \<Rightarrow>
               (let e = Errorf ''ip is not installed'' [] in
                  Some (('''', Some e), tx\<lparr>ip_err := Some e\<rparr>, st))
           | Inr ipcmdPath \<Rightarrow>
               do { ((output, err), st1) \<leftarrow> Exec os ipcmdPath args st;
                    Some ((output, err), tx\<lparr>ip_err := err\<rparr>, st1) }))"

type_synonym ip_method = "ipTransaction \<Rightarrow> execState \<Rightarrow> (ipTransaction \<times> execState) option"

definition AddLink :: "os \<Rightarrow> string list \<Rightarrow> ip_method" where
  "AddLink os args tx st = map_option snd (ip_exec os ([''link'', ''add'', ip_link tx] @ args) tx st)"

definition DeleteLink :: "os \<Rightarrow> ip_method" where
  "DeleteLink os tx st = map_option snd (ip_exec os [''link'', ''del'', ip_link tx] tx st)"

definition SetLink :: "os \<Rightarrow> string list \<Rightarrow> ip_method" where
  "SetLink os args tx st = map_option snd (ip_exec os ([''link'', ''set'', ip_link tx] @ args) tx st)"

definition AddAddress :: "os \<Rightarrow> string \<Rightarrow> string list \<Rightarrow> ip_method" where
  "AddAddress os cidr args tx st =
     map_option snd (ip_exec os ([''addr'', ''add'', cidr, ''dev'', ip_link tx] @ args) tx st)"

definition DeleteAddress :: "os \<Rightarrow> string \<Rightarrow> string list \<Rightarrow> ip_method" where
  "DeleteAddress os cidr args tx st =
     map_option snd (ip_exec os ([''addr'', ''del'', cidr, ''dev'', ip_link tx] @ args) tx st)"

text \<open>
  The regular expression \<open>inet ([0-9.]*/[0-9]*) \<close>: at a given place it has at most one match,
  since neither class holds the character after it, and \<open>FindAllStringSubmatch\<close> goes on behind
  a match and one character on otherwise.
\<close>

definition addr_char :: "char \<Rightarrow> bool" where
  "addr_char c \<longleftrightarrow> is_digit c \<or> c = CHR ''.''"

definition match_inet :: "string \<Rightarrow> (string \<times> string) option" where
  "match_inet s =
     (if \<not> HasPrefix s ''inet '' then None
      else let s1 = drop 5 s; a = takeWhile addr_char s1; s2 = dropWhile addr_char s1
           in case s2 of
                [] \<Rightarrow> None
              | c # s3 \<Rightarrow>
                  if c \<noteq> CHR ''/'' then None
                  else let l = takeWhile is_digit s3; s4 = dropWhile is_digit s3
                       in case s4 of
                            [] \<Rightarrow> None
                          | d # s5 \<Rightarrow> if d \<noteq> CHR '' '' then None else Some (a @ ''/'' @ l, s5))"

lemma match_inet_eq:
  "match_inet s = Some (m, rest) \<Longrightarrow>
     \<exists>a l. m = a @ ''/'' @ l \<and> s = ''inet '' @ m @ '' '' @ rest
       \<and> (\<forall>c\<in>set a. addr_char c) \<and> (\<forall>c\<in>set l. is_digit c)"
proof (goal_cases)
  case 1
  have pre: "HasPrefix s ''inet ''" using 1 by (auto simp: match_inet_def split: if_splits)
  have five: "take 5 s = ''inet ''" using pre by (simp add: HasPrefix_def eval_nat_numeral)
  have s: "s = ''inet '' @ drop 5 s"
    by (rule subst [OF five, of "\<lambda>x. s = x @ drop 5 s"]) simp
  let ?s1 = "drop 5 s"
  obtain s3 where s2: "dropWhile addr_char ?s1 = CHR ''/'' # s3"
    using 1 pre by (auto simp: match_inet_def Let_def split: list.splits if_splits)
  have m: "dropWhile is_digit s3 = CHR '' '' # rest" "m = takeWhile addr_char ?s1 @ ''/'' @ takeWhile is_digit s3"
    using 1 pre s2 by (auto simp: match_inet_def Let_def split: list.splits if_splits)
  have "?s1 = takeWhile addr_char ?s1 @ dropWhile addr_char ?s1" by simp
  also have "dropWhile addr_char ?s1 = ''/'' @ takeWhile is_digit s3 @ '' '' @ rest"
    using s2 m(1) takeWhile_dropWhile_id [of is_digit s3] by simp
  finally have "s = ''inet '' @ m @ '' '' @ rest" using s m(2) by simp
  then show ?case using m(2) by (intro exI conjI) (auto dest: set_takeWhileD)
qed

function find_inet :: "string \<Rightarrow> string list" where
  "find_inet s =
     (case match_inet s of
        Some (m, rest) \<Rightarrow> m # find_inet rest
      | None \<Rightarrow> (case s of [] \<Rightarrow> [] | c # s' \<Rightarrow> find_inet s'))"
  by pat_completeness auto
termination
  by (relation "measure length") (auto dest!: match_inet_eq)

declare find_inet.simps [simp del]

definition GetAddresses ::
  "os \<Rightarrow> ipTransaction \<Rightarrow> execState \<Rightarrow> ((error + string list) \<times> ipTransaction \<times> execState) option"
where
  "GetAddresses os tx st =
     do { ((out, err), tx1, st1) \<leftarrow> ip_exec os [''addr'', ''show'', ''dev'', ip_link tx] tx st;
          Some (case err of Some e \<Rightarrow> Inl e | None \<Rightarrow> Inr (find_inet out), tx1, st1) }"

definition AddRoute :: "os \<Rightarrow> string \<Rightarrow> string list \<Rightarrow> ip_method" where
  "AddRoute os cidr args tx st =
     map_option snd (ip_exec os ([''route'', ''add'', cidr, ''dev'', ip_link tx] @ args) tx st)"

definition DeleteRoute :: "os \<Rightarrow> string \<Rightarrow> string list \<Rightarrow> ip_method" where
  "DeleteRoute os cidr args tx st =
     map_option snd (ip_exec os ([''route'', ''del'', cidr, ''dev'', ip_link tx] @ args) tx st)"

definition GetRoutes ::
  "os \<Rightarrow> ipTransaction \<Rightarrow> execState \<Rightarrow> ((error + string list) \<times> ipTransaction \<times> execState) option"
where
  "GetRoutes os tx st =
     do { ((out, err), tx1, st1) \<leftarrow> ip_exec os [''route'', ''show'', ''dev'', ip_link tx] tx st;
          Some (case err of
                  Some e \<Rightarrow> Inl e
                | None \<Rightarrow> Inr (butlast (Split out [CHR 0x0A])), tx1, st1) }"

definition AddSlave :: "os \<Rightarrow> string \<Rightarrow> ip_method" where
  "AddSlave os slave tx st =
     map_option snd (ip_exec os [''link'', ''set'', slave, ''master'', ip_link tx] tx st)"

definition DeleteSlave :: "os \<Rightarrow> string \<Rightarrow> ip_method" where
  "DeleteSlave os slave tx st =
     map_option snd (ip_exec os [''link'', ''set'', slave, ''nomaster''] tx st)"

definition IgnoreError :: "ipTransaction \<Rightarrow> ipTransaction" where
  "IgnoreError tx = tx\<lparr>ip_err := None\<rparr>"

definition ip_EndTransaction :: "ipTransaction \<Rightarrow> error option \<times> ipTransaction" where
  "ip_EndTransaction tx = (ip_err tx, tx\<lparr>ip_err := None\<rparr>)"

section \<open>Sequences of calls\<close>

datatype ip_op =
    Add_Link "string list"
  | Delete_Link
  | Set_Link "string list"
  | Add_Address string "string list"
  | Delete_Address string "string list"
  | Get_Addresses
  | Add_Route string "string list"
  | Delete_Route string "string list"
  | Get_Routes
  | Add_Slave string
  | Delete_Slave string

fun ip_step :: "os \<Rightarrow> ip_op \<Rightarrow> ip_method" where
  "ip_step os (Add_Link args) = AddLink os args"
| "ip_step os Delete_Link = DeleteLink os"
| "ip_step os (Set_Link args) = SetLink os args"
| "ip_step os (Add_Address cidr args) = AddAddress os cidr args"
| "ip_step os (Delete_Address cidr args) = DeleteAddress os cidr args"
| "ip_step os Get_Addresses = (\<lambda>tx st. map_option snd (GetAddresses os tx st))"
| "ip_step os (Add_Route cidr args) = AddRoute os cidr args"
| "ip_step os (Delete_Route cidr args) = DeleteRoute os cidr args"
| "ip_step os Get_Routes = (\<lambda>tx st. map_option snd (GetRoutes os tx st))"
| "ip_step os (Add_Slave slave) = AddSlave os slave"
| "ip_step os (Delete_Slave slave) = DeleteSlave os slave"

fun ip_cmd :: "string \<Rightarrow> ip_op \<Rightarrow> command" where
  "ip_cmd link (Add_Link args) = (''ip'', [''link'', ''add'', link] @ args)"
| "ip_cmd link Delete_Link = (''ip'', [''link'', ''del'', link])"
| "ip_cmd link (Set_Link args) = (''ip'', [''link'', ''set'', link] @ args)"
| "ip_cmd link (Add_Address cidr args) = (''ip'', [''addr'', ''add'', cidr, ''dev'', link] @ args)"
| "ip_cmd link (Delete_Address cidr args) = (''ip'', [''addr'', ''del'', cidr, ''dev'', link] @ args)"
| "ip_cmd link Get_Addresses = (''ip'', [''addr'', ''show'', ''dev'', link])"
| "ip_cmd link (Add_Route cidr args) = (''ip'', [''route'', ''add'', cidr, ''dev'', link] @ args)"
| "ip_cmd link (Delete_Route cidr args) = (''ip'', [''route'', ''del'', cidr, ''dev'', link] @ args)"
| "ip_cmd link Get_Routes = (''ip'', [''route'', ''show'', ''dev'', link])"
| "ip_cmd link (Add_Slave slave) = (''ip'', [''link'', ''set'', slave, ''master'', link])"
| "ip_cmd link (Delete_Slave slave) = (''ip'', [''link'', ''set'', slave, ''nomaster''])"

definition ip_mk :: "string \<Rightarrow> error option \<Rightarrow> ipTransaction" where
  "ip_mk link e = \<lparr>ip_link = link, ip_err = e\<rparr>"

lemma ip_mk_simps [simp]:
  "ip_link (ip_mk link e) = link" "ip_err (ip_mk link e) = e"
  "IgnoreError (ip_mk link e) = ip_mk link None"
  "ip_EndTransaction (ip_mk link e) = (e, ip_mk link None)"
  "ip_NewTransaction link = ip_mk link None"
  by (simp_all add: ip_mk_def IgnoreError_def ip_EndTransaction_def ip_NewTransaction_def)

lemma ip_exec_mk:
  "ip_exec os args (ip_mk link (Some e)) st = Some (('''', Some e), ip_mk link (Some e), st)"
  "map_option snd (ip_exec os args (ip_mk link None) st) =
     map_option (\<lambda>(e, st'). (ip_mk link e, st'))
       (until_failure os (Errorf ''ip is not installed'' []) [(''ip'', args)] st)"
  by (auto simp: ip_exec_def ip_mk_def Let_def split: sum.splits Option.bind_splits option.splits)

lemma Get_snd:
  "map_option snd (GetAddresses os tx st) =
     map_option snd (ip_exec os [''addr'', ''show'', ''dev'', ip_link tx] tx st)"
  "map_option snd (GetRoutes os tx st) =
     map_option snd (ip_exec os [''route'', ''show'', ''dev'', ip_link tx] tx st)"
  by (auto simp: GetAddresses_def GetRoutes_def split: Option.bind_splits)

lemmas ip_defs = AddLink_def DeleteLink_def SetLink_def AddAddress_def DeleteAddress_def
  AddRoute_def DeleteRoute_def AddSlave_def DeleteSlave_def

interpretation ip: transaction ip_step ip_mk ip_EndTransaction ip_cmd "Errorf ''ip is not installed'' []"
proof (unfold_locales, goal_cases)
  case (1 os p t e st)
  show ?case by (cases p) (simp_all add: ip_defs ip_exec_mk Get_snd)
next
  case (2 os p t st)
  show ?case
    by (cases p) (simp_all only: ip_step.simps ip_cmd.simps ip_defs ip_exec_mk Get_snd ip_mk_simps)
next
  case (3 t r)
  show ?case by simp
qed

section \<open>The addresses in the output\<close>

definition inet_addr :: "string \<Rightarrow> bool" where
  "inet_addr m \<longleftrightarrow> (\<exists>a l. m = a @ ''/'' @ l \<and> (\<forall>c\<in>set a. addr_char c) \<and> (\<forall>c\<in>set l. is_digit c))"

lemma not_addr_char: "\<not> addr_char CHR ''/''" "\<not> is_digit CHR '' ''" "\<not> addr_char CHR ''i''" "\<not> is_digit CHR ''i''"
  by (simp_all add: addr_char_def is_digit_def)

lemma match_inet_complete:
  assumes "inet_addr m"
  shows "match_inet (''inet '' @ m @ '' '' @ rest) = Some (m, rest)"
proof -
  from assms obtain a l where m: "m = a @ ''/'' @ l" and a: "\<forall>c\<in>set a. addr_char c" and l: "\<forall>c\<in>set l. is_digit c"
    by (auto simp: inet_addr_def)
  have "takeWhile addr_char (a @ CHR ''/'' # l @ '' '' @ rest) = a"
    "dropWhile addr_char (a @ CHR ''/'' # l @ '' '' @ rest) = CHR ''/'' # l @ '' '' @ rest"
    using a not_addr_char by (simp_all add: takeWhile_append2 dropWhile_append2)
  moreover have "takeWhile is_digit (l @ CHR '' '' # rest) = l"
    "dropWhile is_digit (l @ CHR '' '' # rest) = CHR '' '' # rest"
    using l not_addr_char by (simp_all add: takeWhile_append2 dropWhile_append2)
  moreover have "HasPrefix (''inet '' @ r) ''inet ''" for r by (simp add: HasPrefix_def)
  ultimately show ?thesis by (simp add: match_inet_def m)
qed

lemma no_i_inside:
  assumes "inet_addr m" and "''inet '' @ m @ '' '' @ rest = u @ CHR ''i'' # v" and "u \<noteq> []"
  shows "\<exists>u'. u = ''inet '' @ m @ '' '' @ u'"
proof -
  let ?p = "''inet '' @ m @ '' ''"
  from assms(1) have i: "CHR ''i'' \<notin> set (tl ?p)"
    using not_addr_char by (auto simp: inet_addr_def)
  from assms(2) have "?p @ rest = u @ CHR ''i'' # v" by simp
  then consider (in_p) w where "?p = u @ w" "w @ rest = CHR ''i'' # v" | (past) w where "?p @ w = u"
    unfolding append_eq_append_conv2 by blast
  then show ?thesis
  proof cases
    case in_p
    show ?thesis
    proof (cases w)
      case Nil
      with in_p(1) show ?thesis by auto
    next
      case (Cons c w')
      with in_p(2) have "w = CHR ''i'' # w'" by simp
      with in_p(1) assms(3) have "CHR ''i'' \<in> set (tl ?p)" by (cases u) auto
      with i show ?thesis by contradiction
    qed
  next
    case past
    then show ?thesis by auto
  qed
qed

lemma find_inet_iff:
  "m \<in> set (find_inet s) \<longleftrightarrow> inet_addr m \<and> (\<exists>u v. s = u @ ''inet '' @ m @ '' '' @ v)"
proof (induction s rule: find_inet.induct)
  case (1 s)
  show ?case
  proof (cases "match_inet s")
    case None
    show ?thesis
    proof (cases s)
      case Nil
      then have "find_inet s = []" using None by (subst find_inet.simps) simp
      with Nil show ?thesis by simp
    next
      case (Cons c s')
      have nn: "u \<noteq> []" if "inet_addr m" "s = u @ ''inet '' @ m @ '' '' @ v" for u v
        using None match_inet_complete [OF that(1), of v] that(2) by auto
      have "\<exists>u' v'. s' = u' @ ''inet '' @ m @ '' '' @ v'"
        if "inet_addr m" "s = u @ ''inet '' @ m @ '' '' @ v" for u v
        using nn [OF that] that(2) Cons by (cases u) auto
      moreover have "\<exists>u v. s = u @ ''inet '' @ m @ '' '' @ v" if "s' = u' @ ''inet '' @ m @ '' '' @ v'" for u' v'
        using that Cons by (intro exI [of _ "c # u'"] exI [of _ v']) simp
      ultimately have "(inet_addr m \<and> (\<exists>u v. s = u @ ''inet '' @ m @ '' '' @ v)) =
          (inet_addr m \<and> (\<exists>u v. s' = u @ ''inet '' @ m @ '' '' @ v))"
        by blast
      moreover have "find_inet s = find_inet s'" using None Cons by (subst find_inet.simps) simp
      ultimately show ?thesis using 1(1) [OF None Cons] by (simp only:)
    qed
  next
    case (Some p)
    obtain m0 rest where p: "p = (m0, rest)" by fastforce
    have m0: "inet_addr m0" and s: "s = ''inet '' @ m0 @ '' '' @ rest"
      using match_inet_eq [of s m0 rest] Some p by (auto simp: inet_addr_def)
    have "(inet_addr m \<and> (\<exists>u v. s = u @ ''inet '' @ m @ '' '' @ v)) =
        (m = m0 \<or> inet_addr m \<and> (\<exists>u v. rest = u @ ''inet '' @ m @ '' '' @ v))" (is "?L = ?R")
    proof
      assume ?L
      then obtain u v where m: "inet_addr m" and uv: "s = u @ ''inet '' @ m @ '' '' @ v" by blast
      show ?R
      proof (cases "u = []")
        case True
        with match_inet_complete [OF m, of v] uv Some p show ?thesis by simp
      next
        case False
        from no_i_inside [OF m0 _ False, of rest "''net '' @ m @ '' '' @ v"] s uv
        obtain u' where "u = ''inet '' @ m0 @ '' '' @ u'" by auto
        with uv s have "rest = u' @ ''inet '' @ m @ '' '' @ v" by simp
        with m show ?thesis by blast
      qed
    next
      assume ?R
      then show ?L
      proof
        assume "m = m0"
        then show ?L using m0 s by (auto intro: exI [of _ "[]"])
      next
        assume "inet_addr m \<and> (\<exists>u v. rest = u @ ''inet '' @ m @ '' '' @ v)"
        then obtain u v where m: "inet_addr m" and "rest = u @ ''inet '' @ m @ '' '' @ v" by blast
        then have "s = (''inet '' @ m0 @ '' '' @ u) @ ''inet '' @ m @ '' '' @ v" using s by simp
        with m show ?L by blast
      qed
    qed
    moreover have "find_inet s = m0 # find_inet rest" using Some p by (subst find_inet.simps) simp
    ultimately show ?thesis using 1(2) [OF Some p [symmetric]] by (simp only: list.set insert_iff)
  qed
qed

section \<open>Properties\<close>

text \<open>
  A transaction of any calls on an interface, on any host, runs the command lines of an
  initial part of the calls, in order and nothing else, and \<open>EndTransaction\<close> reports how it
  stopped; a call whose error is ignored before the next ones does not keep them from running.
\<close>

lemma ip_transaction_until_failure:
  assumes "\<not> testMode st"
  shows "\<exists>tx st' k. tx_run (ip_step os) ps (ip_NewTransaction link) st = Some (tx, st')
    \<and> k \<le> length ps \<and> st' = st\<lparr>hist := hist st'\<rparr>
    \<and> ran os (map (ip_cmd link) (take k ps)) (hist st) (hist st')
    \<and> stopped os (Errorf ''ip is not installed'' []) (map (ip_cmd link) ps) k (hist st')
        (fst (ip_EndTransaction tx))
    \<and> snd (ip_EndTransaction tx) = ip_NewTransaction link
    \<and> IgnoreError tx = ip_NewTransaction link"
proof -
  from ip.run_end [OF assms, of os ps link] obtain tx st' k where
    r: "tx_run (ip_step os) ps (ip_mk link None) st = Some (tx, st')" "k \<le> length ps"
      "st' = st\<lparr>hist := hist st'\<rparr>" "ran os (map (ip_cmd link) (take k ps)) (hist st) (hist st')"
      "stopped os (Errorf ''ip is not installed'' []) (map (ip_cmd link) ps) k (hist st')
        (fst (ip_EndTransaction tx))" "snd (ip_EndTransaction tx) = ip_mk link None" by blast
  moreover have "IgnoreError tx = ip_mk link None"
    using r(6) by (simp add: IgnoreError_def ip_EndTransaction_def)
  ultimately show ?thesis by auto
qed

lemma ip_transaction_until_failure_witness:
  "\<exists>tx st' k. tx_run (ip_step (table_host (\<lambda>c. ([], None)))) [Delete_Link] (ip_NewTransaction ''lbr0'') exec_init
     = Some (tx, st') \<and> k \<le> length [Delete_Link] \<and> IgnoreError tx = ip_NewTransaction ''lbr0''"
  using ip_transaction_until_failure [OF exec_init_simps(1), of "table_host (\<lambda>c. ([], None))" "[Delete_Link]" "''lbr0''"]
  by blast

text \<open>
  \<open>GetAddresses\<close> gives exactly the addresses that stand after a keyword \<open>inet\<close> in the output
  of the command, those with an error or an interface that is gone excepted: a string is among
  them if and only if it is a dotted number with a slash and a length between \<open>inet\<close> and a blank.
\<close>

lemma GetAddresses_exact:
  assumes "\<not> testMode st" and "os_LookPath os (hist st) ''ip'' = Inr path"
    and "os_Run os (hist st) (path, [''addr'', ''show'', ''dev'', link]) = (out, None)"
  shows "\<exists>addrs st'. GetAddresses os (ip_NewTransaction link) st = Some (Inr addrs, ip_NewTransaction link, st')
    \<and> (\<forall>m. m \<in> set addrs \<longleftrightarrow> inet_addr m \<and> (\<exists>u v. out = u @ ''inet '' @ m @ '' '' @ v))"
  using assms by (auto simp: GetAddresses_def ip_exec_def ip_mk_def find_inet_iff)

lemma GetAddresses_exact_witness:
  "\<exists>addrs st'. GetAddresses (table_host (\<lambda>c. (''2: lbr0: inet 10.1.2.1/24 scope'', None)))
      (ip_NewTransaction ''lbr0'') exec_init = Some (Inr addrs, ip_NewTransaction ''lbr0'', st')
    \<and> ''10.1.2.1/24'' \<in> set addrs"
proof -
  have "inet_addr ''10.1.2.1/24''"
    unfolding inet_addr_def
    by (rule exI [of _ "''10.1.2.1''"], rule exI [of _ "''24''"]) (simp add: addr_char_def is_digit_def)
  moreover have "\<exists>u v. ''2: lbr0: inet 10.1.2.1/24 scope'' = u @ ''inet '' @ ''10.1.2.1/24'' @ '' '' @ v"
    by (rule exI [of _ "''2: lbr0: ''"], rule exI [of _ "''scope''"]) simp
  ultimately show ?thesis
    using GetAddresses_exact [of exec_init "table_host (\<lambda>c. (''2: lbr0: inet 10.1.2.1/24 scope'', None))"
        "''ip''" "''lbr0''" "''2: lbr0: inet 10.1.2.1/24 scope''"] by fastforce
qed

end
