(* ===== verification/Controller.thy ===== *)
theory Controller
  imports Registry Ovs IpCmd
begin

text \<open>
  \<open>plugins/osdn/controller.go\<close>: what the node sets up on its host, and the OpenFlow rules it adds
  and removes for the subnets of other nodes and for services. Every function takes the host and
  gives the actions it performed on it through the state of package \<open>exec\<close>; a whole result of
  \<open>None\<close> is a panic. The straight-line calls on one transaction are lists of calls, run by
  \<open>tx_run\<close>; a function that returns at its first error is the list of its steps, run by
  \<open>first_error\<close>; the deferred calls follow in the order in which Go runs them.
\<close>

section \<open>Constants\<close>

definition VERSION :: nat where "VERSION = 1"

definition VERSION_TABLE :: string where "VERSION_TABLE = ''table=253''"

definition VERSION_ACTION :: string where "VERSION_ACTION = ''actions=note:''"

definition BR :: string where "BR = ''br0''"

definition LBR :: string where "LBR = ''lbr0''"

definition TUN :: string where "TUN = ''tun0''"

definition VLINUXBR :: string where "VLINUXBR = ''vlinuxbr''"

definition VOVSBR :: string where "VOVSBR = ''vovsbr''"

definition VXLAN :: string where "VXLAN = ''vxlan0''"

definition VXLAN_PORT :: string where "VXLAN_PORT = ''4789''"

section \<open>The state of the node\<close>

text \<open>
  \<open>OsdnNode\<close> of \<open>plugins/osdn/node.go\<close>. The channel \<open>podNetworkReady\<close> only ever gets closed, so it
  is the flag that it is; the subnet is a pointer that is nil until the start.
\<close>

record OsdnNode =
  n_multitenant :: bool
  n_registry :: Registry
  n_localIP :: string
  n_localSubnet :: "HostSubnet option"
  n_hostName :: string
  n_podNetworkReady :: bool
  n_vnids :: "(string \<times> u64) list"
  n_iptablesSyncPeriod :: int
  n_mtu :: nat

section \<open>Is the host set up?\<close>

text \<open>\<open>fmt.Sprintf("%02X", n)\<close>.\<close>

definition hex_upper :: "nat \<Rightarrow> char" where
  "hex_upper n = (if n < 10 then digit n else char_of (55 + n))"

definition hex2 :: "nat \<Rightarrow> string" where
  "hex2 n = [hex_upper (n div 16), hex_upper (n mod 16)]"

definition getPluginVersion :: "bool \<Rightarrow> string list" where
  "getPluginVersion multitenant =
     (let version = hex2 VERSION in
      if multitenant then [''01'', version] else [''00'', version])"

definition is_version_flow :: "bool \<Rightarrow> string \<Rightarrow> bool" where
  "is_version_flow multitenant flow =
     (if \<not> Contains flow VERSION_TABLE then False
      else case Index flow VERSION_ACTION of
             None \<Rightarrow> False
           | Some idx \<Rightarrow>
               (let expected = getPluginVersion multitenant;
                    existing = Split (drop (idx + length VERSION_ACTION) flow) ''.''
                in length existing \<ge> 2 \<and> existing ! 0 = expected ! 0 \<and> existing ! 1 = expected ! 1))"

definition alreadySetUp :: "os \<Rightarrow> bool \<Rightarrow> string \<Rightarrow> execState \<Rightarrow> (bool \<times> execState) option" where
  "alreadySetUp os multitenant localSubnetGatewayCIDR st =
     do { (addrs, itx, st1) \<leftarrow> GetAddresses os (ip_NewTransaction LBR) st;
          (case addrs of
             Inl err \<Rightarrow> Some (False, st1)
           | Inr as \<Rightarrow>
               if \<not> list_ex (\<lambda>addr. addr = localSubnetGatewayCIDR) as then Some (False, st1)
               else do { (flows, otx, st2) \<leftarrow> DumpFlows os (ovs_NewTransaction BR) st1;
                         (case flows of
                            Inl err \<Rightarrow> Some (False, st2)
                          | Inr fs \<Rightarrow> Some (list_ex (is_version_flow multitenant) fs, st2)) }) }"

section \<open>The routes the kernel adds by itself\<close>

text \<open>
  At most twenty looks at the routes of the device, 100 milliseconds apart; \<open>n\<close> are left. Errors
  are only logged.
\<close>

fun delete_route_loop :: "os \<Rightarrow> nat \<Rightarrow> string \<Rightarrow> string \<Rightarrow> execState \<Rightarrow> execState option" where
  "delete_route_loop os 0 device localSubnetCIDR st = Some st"
| "delete_route_loop os (Suc n) device localSubnetCIDR st =
     do { (routes, itx, st1) \<leftarrow> GetRoutes os (ip_NewTransaction device) st;
          (case routes of
             Inl err \<Rightarrow> Some st1
           | Inr rs \<Rightarrow>
               if list_ex (\<lambda>route. Contains route localSubnetCIDR) rs
               then map_option snd (DeleteRoute os localSubnetCIDR [] itx st1)
               else delete_route_loop os n device localSubnetCIDR st1) }"

definition deleteLocalSubnetRoute :: "os \<Rightarrow> string \<Rightarrow> string \<Rightarrow> execState \<Rightarrow> execState option" where
  "deleteLocalSubnetRoute os device localSubnetCIDR st =
     delete_route_loop os 20 device localSubnetCIDR st"

section \<open>Setting up the host\<close>

type_synonym setup_step = "execState \<Rightarrow> (error option \<times> execState) option"

fun first_error :: "setup_step list \<Rightarrow> setup_step" where
  "first_error [] st = Some (None, st)"
| "first_error (f # fs) st =
     do { (err, st1) \<leftarrow> f st;
          (case err of Some e \<Rightarrow> Some (Some e, st1) | None \<Rightarrow> first_error fs st1) }"

definition ip_transaction :: "os \<Rightarrow> string \<Rightarrow> ip_op list \<Rightarrow> setup_step" where
  "ip_transaction os link ops st =
     do { (itx, st1) \<leftarrow> tx_run (ip_step os) ops (ip_NewTransaction link) st;
          Some (fst (ip_EndTransaction itx), st1) }"

definition ovs_transaction :: "os \<Rightarrow> ovs_op list \<Rightarrow> setup_step" where
  "ovs_transaction os ops st =
     do { (otx, st1) \<leftarrow> tx_run (ovs_step os) ops (ovs_NewTransaction BR) st;
          Some (fst (ovs_EndTransaction otx), st1) }"

definition setup_lbr :: "os \<Rightarrow> string \<Rightarrow> setup_step" where
  "setup_lbr os gwCIDR st =
     do { (itx, st) \<leftarrow> SetLink os [''down''] (ip_NewTransaction LBR) st;
          (itx, st) \<leftarrow> DeleteLink os (IgnoreError itx) st;
          (itx, st) \<leftarrow> AddLink os [''type'', ''bridge''] (IgnoreError itx) st;
          (itx, st) \<leftarrow> AddAddress os gwCIDR [] itx st;
          (itx, st) \<leftarrow> SetLink os [''up''] itx st;
          Some (fst (ip_EndTransaction itx), st) }"

definition setup_docker :: "os \<Rightarrow> string \<Rightarrow> setup_step" where
  "setup_docker os mtuStr st =
     (case CombinedOutput os ''openshift-sdn-docker-setup.sh'' [LBR, mtuStr] st of
        ((out, err), st1) \<Rightarrow> Some (err, st1))"

definition write_config :: "os \<Rightarrow> string \<Rightarrow> setup_step" where
  "write_config os clusterNetworkCIDR st =
     (let config = Sprintf ''export OPENSHIFT_CLUSTER_SUBNET=%s'' [S clusterNetworkCIDR]
      in Some (write_file os ''/run/openshift-sdn/config.env'' config st))"

definition setup_vlinuxbr :: "os \<Rightarrow> string \<Rightarrow> setup_step" where
  "setup_vlinuxbr os mtuStr st =
     do { (itx, st) \<leftarrow> DeleteLink os (ip_NewTransaction VLINUXBR) st;
          (itx, st) \<leftarrow> AddLink os [''mtu'', mtuStr, ''type'', ''veth'', ''peer'', ''name'', VOVSBR, ''mtu'', mtuStr]
                        (IgnoreError itx) st;
          (itx, st) \<leftarrow> SetLink os [''up''] itx st;
          (itx, st) \<leftarrow> SetLink os [''txqueuelen'', ''0''] itx st;
          Some (fst (ip_EndTransaction itx), st) }"

definition setup_vovsbr :: "os \<Rightarrow> setup_step" where
  "setup_vovsbr os = ip_transaction os VOVSBR [Set_Link [''up''], Set_Link [''txqueuelen'', ''0'']]"

definition setup_slave :: "os \<Rightarrow> setup_step" where
  "setup_slave os = ip_transaction os LBR [Add_Slave VLINUXBR]"

definition bridge_ops :: "ovs_op list" where
  "bridge_ops =
     [Add_Bridge [''fail-mode=secure'', ''protocols=OpenFlow13''],
      Add_Port VXLAN 1 [''type=vxlan'', ''options:remote_ip=\"flow\"'', ''options:key=\"flow\"''],
      Add_Port TUN 2 [''type=internal''],
      Add_Port VOVSBR 3 []]"

text \<open>The rules of table 0, which dispatches on the port a packet comes in at.\<close>

definition table0_ops :: "string \<Rightarrow> string \<Rightarrow> string \<Rightarrow> ovs_op list" where
  "table0_ops clusterNetworkCIDR localSubnetCIDR localSubnetGateway =
     [Add_Flow ''table=0, priority=200, in_port=1, arp, nw_src=%s, nw_dst=%s, actions=move:NXM_NX_TUN_ID[0..31]->NXM_NX_REG0[],goto_table:1'' [S clusterNetworkCIDR, S localSubnetCIDR],
      Add_Flow ''table=0, priority=200, in_port=1, ip, nw_src=%s, nw_dst=%s, actions=move:NXM_NX_TUN_ID[0..31]->NXM_NX_REG0[],goto_table:1'' [S clusterNetworkCIDR, S localSubnetCIDR],
      Add_Flow ''table=0, priority=150, in_port=1, actions=drop'' [],
      Add_Flow ''table=0, priority=200, in_port=2, arp, nw_src=%s, nw_dst=%s, actions=goto_table:5'' [S localSubnetGateway, S clusterNetworkCIDR],
      Add_Flow ''table=0, priority=200, in_port=2, ip, actions=goto_table:5'' [],
      Add_Flow ''table=0, priority=150, in_port=2, actions=drop'' [],
      Add_Flow ''table=0, priority=200, in_port=3, arp, nw_src=%s, actions=goto_table:5'' [S localSubnetCIDR],
      Add_Flow ''table=0, priority=200, in_port=3, ip, nw_src=%s, actions=goto_table:5'' [S localSubnetCIDR],
      Add_Flow ''table=0, priority=150, in_port=3, actions=drop'' [],
      Add_Flow ''table=0, priority=100, arp, actions=goto_table:2'' [],
      Add_Flow ''table=0, priority=100, ip, actions=goto_table:2'' [],
      Add_Flow ''table=0, priority=0, actions=drop'' []]"

text \<open>Tables 1 to 4: ingress filtering, tenant ids, services.\<close>

definition table1_4_ops :: "string \<Rightarrow> ovs_op list" where
  "table1_4_ops servicesNetworkCIDR =
     [Add_Flow ''table=1, priority=0, actions=drop'' [],
      Add_Flow ''table=2, priority=0, actions=drop'' [],
      Add_Flow ''table=3, priority=100, ip, nw_dst=%s, actions=goto_table:4'' [S servicesNetworkCIDR],
      Add_Flow ''table=3, priority=0, actions=goto_table:5'' [],
      Add_Flow ''table=4, priority=200, reg0=0, actions=output:2'' [],
      Add_Flow ''table=4, priority=0, actions=drop'' []]"

text \<open>Tables 5 to 8: routing, delivery to the pods of the node, delivery to other nodes.\<close>

definition table5_8_ops :: "string \<Rightarrow> string \<Rightarrow> string \<Rightarrow> ovs_op list" where
  "table5_8_ops clusterNetworkCIDR localSubnetCIDR localSubnetGateway =
     [Add_Flow ''table=5, priority=300, arp, nw_dst=%s, actions=output:2'' [S localSubnetGateway],
      Add_Flow ''table=5, priority=300, ip, nw_dst=%s, actions=output:2'' [S localSubnetGateway],
      Add_Flow ''table=5, priority=200, arp, nw_dst=%s, actions=goto_table:6'' [S localSubnetCIDR],
      Add_Flow ''table=5, priority=200, ip, nw_dst=%s, actions=goto_table:7'' [S localSubnetCIDR],
      Add_Flow ''table=5, priority=100, arp, nw_dst=%s, actions=goto_table:8'' [S clusterNetworkCIDR],
      Add_Flow ''table=5, priority=100, ip, nw_dst=%s, actions=goto_table:8'' [S clusterNetworkCIDR],
      Add_Flow ''table=5, priority=0, ip, actions=output:2'' [],
      Add_Flow ''table=5, priority=0, arp, actions=drop'' [],
      Add_Flow ''table=6, priority=0, actions=output:3'' [],
      Add_Flow ''table=7, priority=0, actions=output:3'' [],
      Add_Flow ''table=8, priority=0, actions=drop'' []]"

definition base_ops :: "string \<Rightarrow> string \<Rightarrow> string \<Rightarrow> string \<Rightarrow> ovs_op list" where
  "base_ops localSubnetCIDR localSubnetGateway clusterNetworkCIDR servicesNetworkCIDR =
     table0_ops clusterNetworkCIDR localSubnetCIDR localSubnetGateway @
     table1_4_ops servicesNetworkCIDR @
     table5_8_ops clusterNetworkCIDR localSubnetCIDR localSubnetGateway"

definition setup_ovs :: "os \<Rightarrow> string \<Rightarrow> string \<Rightarrow> string \<Rightarrow> string \<Rightarrow> setup_step" where
  "setup_ovs os localSubnetCIDR localSubnetGateway clusterNetworkCIDR servicesNetworkCIDR =
     ovs_transaction os
       (bridge_ops @ base_ops localSubnetCIDR localSubnetGateway clusterNetworkCIDR servicesNetworkCIDR)"

definition setup_tun :: "os \<Rightarrow> string \<Rightarrow> string \<Rightarrow> string \<Rightarrow> string \<Rightarrow> setup_step" where
  "setup_tun os gwCIDR mtuStr clusterNetworkCIDR servicesNetworkCIDR =
     ip_transaction os TUN
       [Add_Address gwCIDR [],
        Set_Link [''mtu'', mtuStr],
        Set_Link [''up''],
        Add_Route clusterNetworkCIDR [''proto'', ''kernel'', ''scope'', ''link''],
        Add_Route servicesNetworkCIDR []]"

definition remove_docker0 :: "os \<Rightarrow> setup_step" where
  "remove_docker0 os st =
     do { (itx, st) \<leftarrow> SetLink os [''down''] (ip_NewTransaction ''docker0'') st;
          (itx, st) \<leftarrow> DeleteLink os (IgnoreError itx) st;
          Some (None, st) }"

definition setup_kernel :: "os \<Rightarrow> setup_step" where
  "setup_kernel os st =
     (let (_, st1) = CombinedOutput os ''modprobe'' [''br_netfilter''] st;
          (_, st2) = set_sysctl os ''net/bridge/bridge-nf-call-iptables'' 0 st1;
          (err, st3) = set_sysctl os ''net/ipv4/ip_forward'' 1 st2
      in case err of
           Some e \<Rightarrow> Some (Some (Errorf ''Could not enable IPv4 forwarding: %s'' [e]), st3)
         | None \<Rightarrow>
             (let (err, st4) = set_sysctl os (Sprintf ''net/ipv4/conf/%s/forwarding'' [S TUN]) 1 st3
              in case err of
                   Some e \<Rightarrow> Some (Some (Errorf ''Could not enable IPv4 forwarding on %s: %s'' [e]), st4)
                 | None \<Rightarrow> Some (None, st4)))"

definition version_ops :: "bool \<Rightarrow> ovs_op list" where
  "version_ops multitenant =
     (let pluginVersion = getPluginVersion multitenant
      in [Add_Flow ''%s, %s%s.%s'' [S VERSION_TABLE, S VERSION_ACTION, S (pluginVersion ! 0), S (pluginVersion ! 1)]])"

definition setup_version :: "os \<Rightarrow> bool \<Rightarrow> setup_step" where
  "setup_version os multitenant = ovs_transaction os (version_ops multitenant)"

text \<open>
  \<open>None\<close> at the start is the nil pointer of a subnet that does not parse, or a subnet that is not
  IPv4. The two deferred calls run in reverse order on every return behind them.
\<close>

definition SetupSDN ::
  "os \<Rightarrow> OsdnNode \<Rightarrow> string \<Rightarrow> string \<Rightarrow> string \<Rightarrow> nat \<Rightarrow> execState
     \<Rightarrow> ((bool \<times> error option) \<times> execState) option" where
  "SetupSDN os plugin localSubnetCIDR clusterNetworkCIDR servicesNetworkCIDR mtu st =
     (case ParseCIDR localSubnetCIDR of
        Inl err \<Rightarrow> None
      | Inr (_, ipnet) \<Rightarrow>
          do { gw \<leftarrow> GenerateDefaultGateway ipnet;
               let localSubnetMaskLength = fst (Mask_Size (ipnet_Mask ipnet));
               let localSubnetGateway = IP_String gw;
               let gwCIDR = Sprintf ''%s/%d'' [S localSubnetGateway, I (int localSubnetMaskLength)];
               let mtuStr = itod mtu;
               (found, st1) \<leftarrow> alreadySetUp os (n_multitenant plugin) gwCIDR st;
               if found then Some ((False, None), st1)
               else do {
                 (err, st2) \<leftarrow> setup_lbr os gwCIDR st1;
                 (case err of
                    Some e \<Rightarrow> Some ((False, Some e), st2)
                  | None \<Rightarrow> do {
                      (err1, st3) \<leftarrow> first_error
                        [setup_docker os mtuStr, write_config os clusterNetworkCIDR,
                         setup_vlinuxbr os mtuStr, setup_vovsbr os, setup_slave os,
                         setup_ovs os localSubnetCIDR localSubnetGateway clusterNetworkCIDR servicesNetworkCIDR] st2;
                      (case err1 of
                         Some e \<Rightarrow> do { st4 \<leftarrow> deleteLocalSubnetRoute os LBR localSubnetCIDR st3;
                                        Some ((False, Some e), st4) }
                       | None \<Rightarrow> do {
                           (err2, st4) \<leftarrow> first_error
                             [setup_tun os gwCIDR mtuStr clusterNetworkCIDR servicesNetworkCIDR,
                              remove_docker0 os, setup_kernel os, setup_version os (n_multitenant plugin)] st3;
                           st5 \<leftarrow> deleteLocalSubnetRoute os TUN localSubnetCIDR st4;
                           st6 \<leftarrow> deleteLocalSubnetRoute os LBR localSubnetCIDR st5;
                           Some ((err2 = None, err2), st6) }) }) } })"

section \<open>Rules for the subnets of other nodes\<close>

definition AddHostSubnetRules :: "os \<Rightarrow> HostSubnet \<Rightarrow> setup_step" where
  "AddHostSubnetRules os subnet st =
     do { (err, st1) \<leftarrow> ovs_transaction os
            [Add_Flow ''table=1, priority=100, tun_src=%s, actions=goto_table:5'' [S (hs_HostIP subnet)],
             Add_Flow ''table=8, priority=100, arp, nw_dst=%s, actions=move:NXM_NX_REG0[]->NXM_NX_TUN_ID[0..31],set_field:%s->tun_dst,output:1'' [S (hs_Subnet subnet), S (hs_HostIP subnet)],
             Add_Flow ''table=8, priority=100, ip, nw_dst=%s, actions=move:NXM_NX_REG0[]->NXM_NX_TUN_ID[0..31],set_field:%s->tun_dst,output:1'' [S (hs_Subnet subnet), S (hs_HostIP subnet)]] st;
          Some (map_option (\<lambda>e. Errorf ''Error adding OVS flows for subnet: %v, %v'' [e]) err, st1) }"

definition DeleteHostSubnetRules :: "os \<Rightarrow> HostSubnet \<Rightarrow> setup_step" where
  "DeleteHostSubnetRules os subnet st =
     do { (err, st1) \<leftarrow> ovs_transaction os
            [Delete_Flows ''table=1, tun_src=%s'' [S (hs_HostIP subnet)],
             Delete_Flows ''table=8, nw_dst=%s'' [S (hs_Subnet subnet)]] st;
          Some (map_option (\<lambda>e. Errorf ''Error deleting OVS flows for subnet: %v, %v'' [e]) err, st1) }"

section \<open>Rules for services\<close>

definition generateBaseServiceRule :: "string \<Rightarrow> string \<Rightarrow> int \<Rightarrow> string" where
  "generateBaseServiceRule IP protocol port =
     Sprintf ''table=4, %s, nw_dst=%s, tp_dst=%d'' [S (ToLower protocol), S IP, I port]"

definition generateAddServiceRule :: "u64 \<Rightarrow> string \<Rightarrow> string \<Rightarrow> int \<Rightarrow> string" where
  "generateAddServiceRule netID IP protocol port =
     (let baseRule = generateBaseServiceRule IP protocol port
      in if netID = 0 then Sprintf ''%s, priority=100, actions=output:2'' [S baseRule]
         else Sprintf ''%s, priority=100, reg0=%d, actions=output:2'' [S baseRule, U (unat netID)])"

definition generateDeleteServiceRule :: "string \<Rightarrow> string \<Rightarrow> int \<Rightarrow> string" where
  "generateDeleteServiceRule IP protocol port = generateBaseServiceRule IP protocol port"

text \<open>One transaction for all the ports, ended after each of them.\<close>

fun add_port_rules :: "os \<Rightarrow> u64 \<Rightarrow> string \<Rightarrow> ServicePort list \<Rightarrow> ovsTransaction \<Rightarrow> setup_step" where
  "add_port_rules os netID IP [] otx st = Some (None, st)"
| "add_port_rules os netID IP (port # ports) otx st =
     do { (otx1, st1) \<leftarrow> AddFlow os (generateAddServiceRule netID IP (sp_Protocol port) (sp_Port port)) [] otx st;
          let (err, otx2) = ovs_EndTransaction otx1;
          (case err of
             Some e \<Rightarrow> Some (Some (Errorf ''Error adding OVS flows for service: %v, netid: %d, %v'' [e]), st1)
           | None \<Rightarrow> add_port_rules os netID IP ports otx2 st1) }"

definition AddServiceRules :: "os \<Rightarrow> OsdnNode \<Rightarrow> Service \<Rightarrow> u64 \<Rightarrow> setup_step" where
  "AddServiceRules os plugin service netID st =
     (if \<not> n_multitenant plugin then Some (None, st)
      else add_port_rules os netID (svc_ClusterIP service) (svc_Ports service) (ovs_NewTransaction BR) st)"

fun delete_port_rules :: "os \<Rightarrow> string \<Rightarrow> ServicePort list \<Rightarrow> ovsTransaction \<Rightarrow> setup_step" where
  "delete_port_rules os IP [] otx st = Some (None, st)"
| "delete_port_rules os IP (port # ports) otx st =
     do { (otx1, st1) \<leftarrow> DeleteFlows os (generateDeleteServiceRule IP (sp_Protocol port) (sp_Port port)) [] otx st;
          let (err, otx2) = ovs_EndTransaction otx1;
          (case err of
             Some e \<Rightarrow> Some (Some (Errorf ''Error deleting OVS flows for service: %v, %v'' [e]), st1)
           | None \<Rightarrow> delete_port_rules os IP ports otx2 st1) }"

definition DeleteServiceRules :: "os \<Rightarrow> OsdnNode \<Rightarrow> Service \<Rightarrow> setup_step" where
  "DeleteServiceRules os plugin service st =
     (if \<not> n_multitenant plugin then Some (None, st)
      else delete_port_rules os (svc_ClusterIP service) (svc_Ports service) (ovs_NewTransaction BR) st)"

section \<open>The version flow\<close>

lemma Split_first: "c \<notin> set xs \<Longrightarrow> Split (xs @ c # ys) [c] = xs # Split ys [c]"
  by (subst Split.simps) (simp add: Index_single)

lemma Split_last: "c \<notin> set xs \<Longrightarrow> Split xs [c] = [xs]"
  by (subst Split.simps) (simp add: Index_single_None)

lemma plugin_version: "getPluginVersion m = [if m then ''01'' else ''00'', ''01'']"
  by (simp add: getPluginVersion_def Let_def hex2_def hex_upper_def VERSION_def str_simps)

lemma is_version_flow_note:
  assumes "line = pre @ VERSION_ACTION @ Join (getPluginVersion m) ''.'' @ pad"
    and "pad = '''' \<or> hd pad = CHR ''.''" and "Index line VERSION_ACTION = Some (length pre)"
    and "Contains line VERSION_TABLE"
  shows "is_version_flow m' line \<longleftrightarrow> m' = m"
proof -
  have d: "drop (length pre + length VERSION_ACTION) line = (if m then ''01'' else ''00'') @ CHR ''.'' # ''01'' @ pad"
    by (simp add: assms(1) plugin_version)
  have "Split (''01'' @ pad) ''.'' = ''01'' # (if pad = '''' then [] else Split (tl pad) ''.'')"
  proof (cases "pad = ''''")
    case True
    then show ?thesis by (simp add: Split_last)
  next
    case False
    with assms(2) have "pad = CHR ''.'' # tl pad" by (cases pad) auto
    then show ?thesis using Split_first [of "CHR ''.''" "''01''" "tl pad"] by (cases pad) simp_all
  qed
  then have "Split (drop (length pre + length VERSION_ACTION) line) ''.'' =
      (if m then ''01'' else ''00'') # ''01'' # (if pad = '''' then [] else Split (tl pad) ''.'')"
    unfolding d by (subst Split_first) simp_all
  with assms(3,4) show ?thesis
    by (simp add: is_version_flow_def Let_def plugin_version)
qed

text \<open>
  C15: a node finds a finished set-up again, and only its own: the last flow of the set-up of a
  plugin carries the kind of the plugin and the version of the rules in a note; when the switch
  lists a flow of the same table with this note, padded or not, and the bridge of the containers
  has the gateway address, \<open>alreadySetUp\<close> answers yes, and the other kind of plugin does not take
  that flow for its own.
\<close>

theorem finished_setup_recognised:
  assumes "line = pre @ VERSION_ACTION @ Join (getPluginVersion m) ''.'' @ pad"
    and "pad = '''' \<or> hd pad = CHR ''.''" and "Index line VERSION_ACTION = Some (length pre)"
    and "Contains line VERSION_TABLE"
    and "GetAddresses os (ip_NewTransaction LBR) st = Some (Inr addrs, itx, st1)" and "gwCIDR \<in> set addrs"
    and "DumpFlows os (ovs_NewTransaction BR) st1 = Some (Inr flows, otx, st2)" and "line \<in> set flows"
  shows "alreadySetUp os m gwCIDR st = Some (True, st2) \<and> \<not> is_version_flow (\<not> m) line
    \<and> (\<exists>f args. version_ops m = [Add_Flow f args]
         \<and> Sprintf f args = VERSION_TABLE @ '', '' @ VERSION_ACTION @ Join (getPluginVersion m) ''.'')"
proof -
  note v = is_version_flow_note [OF assms(1-4)]
  have "list_ex (is_version_flow m) flows" using v [of m] assms(8) by (auto simp: list_ex_iff)
  moreover have "list_ex (\<lambda>addr. addr = gwCIDR) addrs" using assms(6) by (auto simp: list_ex_iff)
  ultimately have "alreadySetUp os m gwCIDR st = Some (True, st2)"
    by (simp add: alreadySetUp_def assms(5,7) [simplified])
  with v [of "\<not> m"] show ?thesis
    by (simp add: version_ops_def plugin_version VERSION_TABLE_def VERSION_ACTION_def str_simps)
qed


text \<open>A host whose bridge of containers has an address and whose switch lists a version flow.\<close>

definition ready_host :: os where
  "ready_host = table_host (\<lambda>(cmd, args).
     (if cmd = ''ip'' then ''3: lbr0: inet 10.1.0.1/24 scope global''
      else ''cookie=0x0, table=253, actions=note:01.01.00.00'', None))"

lemma ready_host_addresses:
  "\<not> testMode st \<Longrightarrow> \<exists>addrs st1. GetAddresses ready_host (ip_NewTransaction LBR) st = Some (Inr addrs, ip_NewTransaction LBR, st1)
     \<and> ''10.1.0.1/24'' \<in> set addrs \<and> \<not> testMode st1 \<and> st1 = st\<lparr>hist := hist st1\<rparr>"
proof -
  assume t: "\<not> testMode st"
  let ?out = "''3: lbr0: inet 10.1.0.1/24 scope global''"
  have "inet_addr ''10.1.0.1/24''"
    unfolding inet_addr_def
    by (rule exI [of _ "''10.1.0.1''"], rule exI [of _ "''24''"]) (simp add: addr_char_def is_digit_def)
  moreover have "\<exists>u v. ?out = u @ ''inet '' @ ''10.1.0.1/24'' @ '' '' @ v"
    by (rule exI [of _ "''3: lbr0: ''"], rule exI [of _ "''scope global''"]) simp
  ultimately have "''10.1.0.1/24'' \<in> set (find_inet ?out)" by (simp add: find_inet_iff)
  with t show ?thesis
    by (simp add: GetAddresses_def ip_exec_def ip_mk_def ready_host_def)
qed

lemma ready_host_flows:
  "\<not> testMode st \<Longrightarrow> \<exists>st1. DumpFlows ready_host (ovs_NewTransaction BR) st =
     Some (Inr [''cookie=0x0, table=253, actions=note:01.01.00.00''], ovs_NewTransaction BR, st1) \<and> st1 = st\<lparr>hist := hist st1\<rparr>"
proof -
  have "Split ''cookie=0x0, table=253, actions=note:01.01.00.00'' [CHR 0x0A] = [''cookie=0x0, table=253, actions=note:01.01.00.00'']"
    by (rule Split_last) simp
  moreover have "Contains ''cookie=0x0, table=253, actions=note:01.01.00.00'' ''cookie=''"
    by (simp add: Contains_def HasPrefix_def)
  moreover assume "\<not> testMode st"
  ultimately show ?thesis
    by (simp add: DumpFlows_def ofctlExec_def ovs_exec_def ready_host_def ovs_NewTransaction_def)
qed

lemma ready_note:
  "''cookie=0x0, table=253, actions=note:01.01.00.00'' =
     ''cookie=0x0, table=253, '' @ VERSION_ACTION @ Join (getPluginVersion True) ''.'' @ ''.00.00''"
  "Index ''cookie=0x0, table=253, actions=note:01.01.00.00'' VERSION_ACTION = Some (length ''cookie=0x0, table=253, '')"
  "Contains ''cookie=0x0, table=253, actions=note:01.01.00.00'' VERSION_TABLE"
  by (simp_all add: VERSION_ACTION_def VERSION_TABLE_def plugin_version Contains_def HasPrefix_def)

theorem finished_setup_recognised_witness:
  "\<exists>st2. alreadySetUp ready_host True ''10.1.0.1/24'' exec_init = Some (True, st2)
     \<and> \<not> is_version_flow False ''cookie=0x0, table=253, actions=note:01.01.00.00''"
proof -
  obtain addrs st1 where a: "GetAddresses ready_host (ip_NewTransaction LBR) exec_init = Some (Inr addrs, ip_NewTransaction LBR, st1)"
    "''10.1.0.1/24'' \<in> set addrs" "\<not> testMode st1"
    using ready_host_addresses [OF exec_init_simps(1)] by blast
  from ready_host_flows [OF a(3)] obtain st2 where f: "DumpFlows ready_host (ovs_NewTransaction BR) st1 =
     Some (Inr [''cookie=0x0, table=253, actions=note:01.01.00.00''], ovs_NewTransaction BR, st2)" by blast
  show ?thesis
    using finished_setup_recognised [OF ready_note(1) _ ready_note(2,3) a(1,2) f] by auto
qed

lemma ready_host_set_up:
  assumes "\<not> testMode st"
  shows "\<exists>st2. alreadySetUp ready_host True ''10.1.0.1/24'' st = Some (True, st2)"
proof -
  obtain addrs st1 where a: "GetAddresses ready_host (ip_NewTransaction LBR) st = Some (Inr addrs, ip_NewTransaction LBR, st1)"
    "''10.1.0.1/24'' \<in> set addrs" "\<not> testMode st1"
    using ready_host_addresses [OF assms] by blast
  from ready_host_flows [OF a(3)] obtain st2 where f: "DumpFlows ready_host (ovs_NewTransaction BR) st1 =
     Some (Inr [''cookie=0x0, table=253, actions=note:01.01.00.00''], ovs_NewTransaction BR, st2)" by blast
  have "is_version_flow True ''cookie=0x0, table=253, actions=note:01.01.00.00''"
    using is_version_flow_note [OF ready_note(1) _ ready_note(2,3), of True] by simp
  with a(2) show ?thesis
    by (auto simp: alreadySetUp_def a(1) [simplified] f [simplified] list_ex_iff)
qed

end
