(* ===== verification/OpenFlow.thy ===== *)
theory OpenFlow
  imports Controller
begin

text \<open>
  The rules of the bridge as data. The program hands its rules to \<open>ovs-ofctl\<close> as text; here every
  rule it writes is a list of fields and a list of actions whose text is exactly the one in the
  code. What a switch does with rules is stated as OpenFlow documents it: in each table a packet
  is handled by one of the matching rules of the highest priority. The rules of the script
  \<open>plugins/osdn/bin/openshift-sdn-ovs\<close>, which adds and removes the rules of a pod, are here as well,
  so that what the rules of both say together can be proved: the isolation of tenants.
\<close>

section \<open>Rules\<close>

datatype field =
    Table nat | Priority nat | InPort nat | Proto string | NwSrc string | NwDst string | ArpSha string
  | TunSrc string | Reg0 nat | TpDst int

datatype act =
    MoveTunToReg | MoveRegToTun | LoadReg string | SetTunDst string | Goto nat | Output nat

record flow =
  match_fields :: "field list"
  acts :: "act list"

definition rule :: "field list \<Rightarrow> act list \<Rightarrow> flow" where
  "rule fs as = \<lparr>match_fields = fs, acts = as\<rparr>"

lemma rule_simps [simp]: "match_fields (rule fs as) = fs" "acts (rule fs as) = as"
  "rule fs as = rule fs' as' \<longleftrightarrow> fs = fs' \<and> as = as'"
  by (simp_all add: rule_def)

fun show_field :: "field \<Rightarrow> string" where
  "show_field (Table n) = ''table='' @ itod n"
| "show_field (Priority n) = ''priority='' @ itod n"
| "show_field (InPort n) = ''in_port='' @ itod n"
| "show_field (Proto s) = s"
| "show_field (NwSrc s) = ''nw_src='' @ s"
| "show_field (NwDst s) = ''nw_dst='' @ s"
| "show_field (ArpSha s) = ''arp_sha='' @ s"
| "show_field (TunSrc s) = ''tun_src='' @ s"
| "show_field (Reg0 n) = ''reg0='' @ itod n"
| "show_field (TpDst i) = ''tp_dst='' @ itoz i"

fun show_act :: "act \<Rightarrow> string" where
  "show_act MoveTunToReg = ''move:NXM_NX_TUN_ID[0..31]->NXM_NX_REG0[]''"
| "show_act MoveRegToTun = ''move:NXM_NX_REG0[]->NXM_NX_TUN_ID[0..31]''"
| "show_act (LoadReg s) = ''load:'' @ s @ ''->NXM_NX_REG0[]''"
| "show_act (SetTunDst s) = ''set_field:'' @ s @ ''->tun_dst''"
| "show_act (Goto n) = ''goto_table:'' @ itod n"
| "show_act (Output n) = ''output:'' @ itod n"

definition show_acts :: "string \<Rightarrow> act list \<Rightarrow> string" where
  "show_acts sep as = ''actions='' @ (if as = [] then ''drop'' else Join (map show_act as) sep)"

definition show_flow :: "flow \<Rightarrow> string" where
  "show_flow f = Join (map show_field (match_fields f) @ [show_acts '','' (acts f)]) '', ''"

text \<open>The rules of \<open>SetupSDN\<close>, in its order.\<close>

definition base_flows :: "string \<Rightarrow> string \<Rightarrow> string \<Rightarrow> string \<Rightarrow> flow list" where
  "base_flows sub gw cluster svcs =
     [rule [Table 0, Priority 200, InPort 1, Proto ''arp'', NwSrc cluster, NwDst sub] [MoveTunToReg, Goto 1],
      rule [Table 0, Priority 200, InPort 1, Proto ''ip'', NwSrc cluster, NwDst sub] [MoveTunToReg, Goto 1],
      rule [Table 0, Priority 150, InPort 1] [],
      rule [Table 0, Priority 200, InPort 2, Proto ''arp'', NwSrc gw, NwDst cluster] [Goto 5],
      rule [Table 0, Priority 200, InPort 2, Proto ''ip''] [Goto 5],
      rule [Table 0, Priority 150, InPort 2] [],
      rule [Table 0, Priority 200, InPort 3, Proto ''arp'', NwSrc sub] [Goto 5],
      rule [Table 0, Priority 200, InPort 3, Proto ''ip'', NwSrc sub] [Goto 5],
      rule [Table 0, Priority 150, InPort 3] [],
      rule [Table 0, Priority 100, Proto ''arp''] [Goto 2],
      rule [Table 0, Priority 100, Proto ''ip''] [Goto 2],
      rule [Table 0, Priority 0] [],
      rule [Table 1, Priority 0] [],
      rule [Table 2, Priority 0] [],
      rule [Table 3, Priority 100, Proto ''ip'', NwDst svcs] [Goto 4],
      rule [Table 3, Priority 0] [Goto 5],
      rule [Table 4, Priority 200, Reg0 0] [Output 2],
      rule [Table 4, Priority 0] [],
      rule [Table 5, Priority 300, Proto ''arp'', NwDst gw] [Output 2],
      rule [Table 5, Priority 300, Proto ''ip'', NwDst gw] [Output 2],
      rule [Table 5, Priority 200, Proto ''arp'', NwDst sub] [Goto 6],
      rule [Table 5, Priority 200, Proto ''ip'', NwDst sub] [Goto 7],
      rule [Table 5, Priority 100, Proto ''arp'', NwDst cluster] [Goto 8],
      rule [Table 5, Priority 100, Proto ''ip'', NwDst cluster] [Goto 8],
      rule [Table 5, Priority 0, Proto ''ip''] [Output 2],
      rule [Table 5, Priority 0, Proto ''arp''] [],
      rule [Table 6, Priority 0] [Output 3],
      rule [Table 7, Priority 0] [Output 3],
      rule [Table 8, Priority 0] []]"

definition subnet_flows :: "HostSubnet \<Rightarrow> flow list" where
  "subnet_flows hs =
     [rule [Table 1, Priority 100, TunSrc (hs_HostIP hs)] [Goto 5],
      rule [Table 8, Priority 100, Proto ''arp'', NwDst (hs_Subnet hs)] [MoveRegToTun, SetTunDst (hs_HostIP hs), Output 1],
      rule [Table 8, Priority 100, Proto ''ip'', NwDst (hs_Subnet hs)] [MoveRegToTun, SetTunDst (hs_HostIP hs), Output 1]]"

definition service_flow :: "u64 \<Rightarrow> string \<Rightarrow> ServicePort \<Rightarrow> flow" where
  "service_flow netID ip port =
     rule ([Table 4, Proto (ToLower (sp_Protocol port)), NwDst ip, TpDst (sp_Port port), Priority 100] @
           (if netID = 0 then [] else [Reg0 (unat netID)])) [Output 2]"

text \<open>
  The rules of a pod: \<open>add_ovs_flows\<close> of the script, with the port of the pod on the bridge, the
  address and the hardware address it looks up, and the network id it is given.
\<close>

record pod_info =
  pi_ip :: string
  pi_mac :: string
  pi_tenant :: nat

definition pod_flows :: "nat \<Rightarrow> pod_info \<Rightarrow> flow list" where
  "pod_flows port p =
     [rule [Table 2, Priority 100, InPort port, Proto ''arp'', NwSrc (pi_ip p), ArpSha (pi_mac p)]
        [LoadReg (itod (pi_tenant p)), Goto 5],
      rule [Table 2, Priority 100, InPort port, Proto ''ip'', NwSrc (pi_ip p)]
        [LoadReg (itod (pi_tenant p)), Goto 3],
      rule [Table 6, Priority 100, Proto ''arp'', NwDst (pi_ip p)] [Output port]] @
     (if pi_tenant p = 0 then [rule [Table 7, Priority 100, Proto ''ip'', NwDst (pi_ip p)] [Output port]]
      else [rule [Table 7, Priority 100, Reg0 0, Proto ''ip'', NwDst (pi_ip p)] [Output port],
            rule [Table 7, Priority 100, Reg0 (pi_tenant p), Proto ''ip'', NwDst (pi_ip p)] [Output port]])"

text \<open>The patterns with which \<open>del_ovs_flows\<close> of the script removes the rules of an address.\<close>

definition pod_patterns :: "string \<Rightarrow> field list list" where
  "pod_patterns ip =
     [[Proto ''ip'', NwDst ip], [Proto ''ip'', NwSrc ip], [Proto ''arp'', NwDst ip], [Proto ''arp'', NwSrc ip]]"

section \<open>The text of the rules\<close>

lemma itod_small [simp]:
  "itod 0 = ''0''" "itod 1 = ''1''" "itod (Suc 0) = ''1''" "itod 2 = ''2''" "itod 3 = ''3''" "itod 4 = ''4''" "itod 5 = ''5''"
  "itod 6 = ''6''" "itod 7 = ''7''" "itod 8 = ''8''" "itod 100 = ''100''" "itod 150 = ''150''"
  "itod 200 = ''200''" "itod 300 = ''300''"
  by (simp_all add: str_simps)

lemma base_ops_text:
  "map (ovs_cmd br) (base_ops sub gw cluster svcs) =
     map (\<lambda>f. ofctl [''add-flow'', br, show_flow f]) (base_flows sub gw cluster svcs)"
  by (simp add: base_ops_def table0_ops_def table1_4_ops_def table5_8_ops_def base_flows_def flow_arg_def
      show_flow_def show_acts_def str_simps)

definition add_flow_cmd :: "flow \<Rightarrow> command" where
  "add_flow_cmd f = ofctl [''add-flow'', BR, show_flow f]"

lemma ovs_transaction_eq:
  "ovs_transaction os ops st = until_failure os (Errorf ''OVS is not installed'' []) (map (ovs_cmd BR) ops) st"
  using ovs.run_refines [of os ops BR st]
  by (auto simp: ovs_transaction_def ovs_NewTransaction_def ovs_mk_def ovs_EndTransaction_def map_option_case
      split: option.splits Option.bind_splits)

lemma until_failure_append:
  "until_failure os m (cs @ ds) st =
     do { (e, st1) \<leftarrow> until_failure os m cs st;
          (case e of None \<Rightarrow> until_failure os m ds st1 | Some x \<Rightarrow> Some (Some x, st1)) }"
  by (induction cs arbitrary: st) (auto split: sum.splits Option.bind_splits option.splits)

lemma service_flow_text:
  "show_flow (service_flow netID ip port) = generateAddServiceRule netID ip (sp_Protocol port) (sp_Port port)"
  by (simp add: service_flow_def show_flow_def show_acts_def generateAddServiceRule_def generateBaseServiceRule_def
      str_simps Let_def)

lemma add_port_rules_eq:
  "add_port_rules os netID ip ports (ovs_NewTransaction BR) st =
     map_option (map_prod (map_option (\<lambda>e. Errorf ''Error adding OVS flows for service: %v, netid: %d, %v'' [e])) id)
       (until_failure os (Errorf ''OVS is not installed'' [])
          (map (\<lambda>port. add_flow_cmd (service_flow netID ip port)) ports) st)"
proof (induction ports arbitrary: st)
  case (Cons port ports)
  let ?m = "Errorf ''OVS is not installed'' []"
  define c where "c = add_flow_cmd (service_flow netID ip port)"
  define cs where "cs = map (\<lambda>port. add_flow_cmd (service_flow netID ip port)) ports"
  have f: "AddFlow os (generateAddServiceRule netID ip (sp_Protocol port) (sp_Port port)) [] (ovs_NewTransaction BR) st =
      map_option (\<lambda>(e, st'). (ovs_mk BR e, st')) (until_failure os ?m [c] st)"
    using ovs.performed [of os "Add_Flow (generateAddServiceRule netID ip (sp_Protocol port) (sp_Port port)) []" BR st]
    by (simp add: ovs_NewTransaction_def ovs_mk_def c_def add_flow_cmd_def service_flow_text flow_arg_def del: until_failure.simps)
  have e: "ovs_EndTransaction (ovs_mk BR e) = (e, ovs_NewTransaction BR)" for e
    by (simp add: ovs_EndTransaction_def ovs_mk_def ovs_NewTransaction_def)
  have m: "map (\<lambda>port. add_flow_cmd (service_flow netID ip port)) (port # ports) = [c] @ cs"
    by (simp add: c_def cs_def)
  show ?case
  proof (cases "until_failure os ?m [c] st")
    case None
    then show ?thesis unfolding m until_failure_append add_port_rules.simps f by simp
  next
    case (Some p)
    then show ?thesis unfolding m until_failure_append add_port_rules.simps f
      using Cons [of "snd p"] by (cases p; cases "fst p") (simp_all add: e cs_def Let_def)
  qed
qed simp

text \<open>
  C9: the bridge is given exactly the rules above. On any host, the set-up recreates the bridge with
  its three ports and then adds the base rules in their order; the rules for the subnet of another
  node and for the ports of a service are the texts of \<open>subnet_flows\<close> and \<open>service_flow\<close>; each stops
  at the first command that fails, with an error.
\<close>

theorem rules_sent:
  "setup_ovs os sub gw cluster svcs st =
     until_failure os (Errorf ''OVS is not installed'' [])
       (map (ovs_cmd BR) bridge_ops @ map add_flow_cmd (base_flows sub gw cluster svcs)) st
   \<and> AddHostSubnetRules os hs st =
     map_option (map_prod (map_option (\<lambda>e. Errorf ''Error adding OVS flows for subnet: %v, %v'' [e])) id)
       (until_failure os (Errorf ''OVS is not installed'' []) (map add_flow_cmd (subnet_flows hs)) st)
   \<and> AddServiceRules os plugin svc netID st =
     (if n_multitenant plugin
      then map_option (map_prod (map_option (\<lambda>e. Errorf ''Error adding OVS flows for service: %v, netid: %d, %v'' [e])) id)
         (until_failure os (Errorf ''OVS is not installed'' [])
            (map (\<lambda>port. add_flow_cmd (service_flow netID (svc_ClusterIP svc) port)) (svc_Ports svc)) st)
      else Some (None, st))"
proof (intro conjI)
  have t: "map (ovs_cmd BR) (base_ops sub gw cluster svcs) = map add_flow_cmd (base_flows sub gw cluster svcs)"
    by (simp add: base_ops_text add_flow_cmd_def)
  show "setup_ovs os sub gw cluster svcs st =
     until_failure os (Errorf ''OVS is not installed'' [])
       (map (ovs_cmd BR) bridge_ops @ map add_flow_cmd (base_flows sub gw cluster svcs)) st"
    by (simp only: setup_ovs_def ovs_transaction_eq map_append t)
  have "map (ovs_cmd BR)
       [Add_Flow ''table=1, priority=100, tun_src=%s, actions=goto_table:5'' [S (hs_HostIP hs)],
        Add_Flow ''table=8, priority=100, arp, nw_dst=%s, actions=move:NXM_NX_REG0[]->NXM_NX_TUN_ID[0..31],set_field:%s->tun_dst,output:1'' [S (hs_Subnet hs), S (hs_HostIP hs)],
        Add_Flow ''table=8, priority=100, ip, nw_dst=%s, actions=move:NXM_NX_REG0[]->NXM_NX_TUN_ID[0..31],set_field:%s->tun_dst,output:1'' [S (hs_Subnet hs), S (hs_HostIP hs)]]
     = map add_flow_cmd (subnet_flows hs)"
    by (simp add: subnet_flows_def add_flow_cmd_def flow_arg_def show_flow_def show_acts_def str_simps)
  then show "AddHostSubnetRules os hs st =
     map_option (map_prod (map_option (\<lambda>e. Errorf ''Error adding OVS flows for subnet: %v, %v'' [e])) id)
       (until_failure os (Errorf ''OVS is not installed'' []) (map add_flow_cmd (subnet_flows hs)) st)"
    by (simp only: AddHostSubnetRules_def ovs_transaction_eq)
      (auto simp: map_option_case split: option.splits Option.bind_splits)
  show "AddServiceRules os plugin svc netID st =
     (if n_multitenant plugin
      then map_option (map_prod (map_option (\<lambda>e. Errorf ''Error adding OVS flows for service: %v, netid: %d, %v'' [e])) id)
         (until_failure os (Errorf ''OVS is not installed'' [])
            (map (\<lambda>port. add_flow_cmd (service_flow netID (svc_ClusterIP svc) port)) (svc_Ports svc)) st)
      else Some (None, st))"
    by (simp add: AddServiceRules_def add_port_rules_eq)
qed

section \<open>What the bridge does with a packet\<close>

datatype packet_kind = KArp | KTcp | KUdp | KIp | KOther

record packet =
  pk_in_port :: nat
  pk_kind :: packet_kind
  pk_nw_src :: IP
  pk_nw_dst :: IP
  pk_arp_sha :: string
  pk_tp_dst :: int
  pk_tun_src :: IP
  pk_tun_id :: string
  pk_tun_dst :: string
  pk_reg0 :: string

text \<open>
  The text of an address or a network in a rule, and the name of a protocol. The register and the
  tunnel id hold the text of their number.
\<close>

definition addr_in :: "string \<Rightarrow> IP \<Rightarrow> bool" where
  "addr_in s ip \<longleftrightarrow> (case ParseCIDR s of Inr (_, n) \<Rightarrow> IPNet_Contains n ip | Inl _ \<Rightarrow> ParseIP s = ip)"

definition proto_is :: "string \<Rightarrow> packet_kind \<Rightarrow> bool" where
  "proto_is s k \<longleftrightarrow>
     s = ''arp'' \<and> k = KArp \<or> s = ''ip'' \<and> k \<in> {KTcp, KUdp, KIp} \<or> s = ''tcp'' \<and> k = KTcp \<or> s = ''udp'' \<and> k = KUdp"

fun field_matches :: "packet \<Rightarrow> field \<Rightarrow> bool" where
  "field_matches pk (InPort n) \<longleftrightarrow> pk_in_port pk = n"
| "field_matches pk (Proto s) \<longleftrightarrow> proto_is s (pk_kind pk)"
| "field_matches pk (NwSrc s) \<longleftrightarrow> addr_in s (pk_nw_src pk)"
| "field_matches pk (NwDst s) \<longleftrightarrow> addr_in s (pk_nw_dst pk)"
| "field_matches pk (ArpSha s) \<longleftrightarrow> pk_arp_sha pk = s"
| "field_matches pk (TunSrc s) \<longleftrightarrow> addr_in s (pk_tun_src pk)"
| "field_matches pk (Reg0 n) \<longleftrightarrow> pk_reg0 pk = itod n"
| "field_matches pk (TpDst i) \<longleftrightarrow> pk_tp_dst pk = i"
| "field_matches pk (Table n) \<longleftrightarrow> True"
| "field_matches pk (Priority n) \<longleftrightarrow> True"

definition matches :: "packet \<Rightarrow> nat \<Rightarrow> flow \<Rightarrow> bool" where
  "matches pk t f \<longleftrightarrow> Table t \<in> set (match_fields f) \<and> (\<forall>x\<in>set (match_fields f). field_matches pk x)"

fun priority_in :: "field list \<Rightarrow> nat" where
  "priority_in (Priority n # fs) = n"
| "priority_in (x # fs) = priority_in fs"
| "priority_in [] = 0"

text \<open>The rules that may handle a packet in a table: of equal ones the switch takes any.\<close>

definition handles :: "flow set \<Rightarrow> packet \<Rightarrow> nat \<Rightarrow> flow \<Rightarrow> bool" where
  "handles F pk t f \<longleftrightarrow> f \<in> F \<and> matches pk t f \<and>
     (\<forall>g\<in>F. matches pk t g \<longrightarrow> priority_in (match_fields g) \<le> priority_in (match_fields f))"

text \<open>The actions of a rule: what is sent where, the table to go on with, and the packet then.\<close>

fun perform :: "act list \<Rightarrow> packet \<Rightarrow> (nat \<times> packet) list \<times> nat option \<times> packet" where
  "perform [] pk = ([], None, pk)"
| "perform (MoveTunToReg # as) pk = perform as (pk\<lparr>pk_reg0 := pk_tun_id pk\<rparr>)"
| "perform (MoveRegToTun # as) pk = perform as (pk\<lparr>pk_tun_id := pk_reg0 pk\<rparr>)"
| "perform (LoadReg s # as) pk = perform as (pk\<lparr>pk_reg0 := s\<rparr>)"
| "perform (SetTunDst s # as) pk = perform as (pk\<lparr>pk_tun_dst := s\<rparr>)"
| "perform (Goto n # as) pk = (case perform as pk of (outs, _, pk') \<Rightarrow> (outs, Some n, pk'))"
| "perform (Output n # as) pk = (case perform as pk of (outs, g, pk') \<Rightarrow> ((n, pk) # outs, g, pk'))"

text \<open>From table \<open>t\<close> on, the packet may be sent out at a port in the form given.\<close>

inductive sends :: "flow set \<Rightarrow> nat \<Rightarrow> packet \<Rightarrow> nat \<Rightarrow> packet \<Rightarrow> bool" for F where
  here: "handles F pk t f \<Longrightarrow> perform (acts f) pk = (outs, g, pk') \<Longrightarrow> (port, out) \<in> set outs
    \<Longrightarrow> sends F t pk port out"
| later: "handles F pk t f \<Longrightarrow> perform (acts f) pk = (outs, Some t', pk') \<Longrightarrow> sends F t' pk' port out
    \<Longrightarrow> sends F t pk port out"

section \<open>The life of the bridge\<close>

text \<open>
  What \<open>ovs-ofctl\<close> documents of its commands: \<open>add-flow\<close> adds a rule and may replace one, \<open>del-flows\<close>
  removes at least the rules that have all the fields of its pattern. The pods are kept by their
  port on the bridge; the ports 1 to 3 belong to the program.
\<close>

definition added :: "flow list \<Rightarrow> flow set \<Rightarrow> flow set \<Rightarrow> bool" where
  "added fs F F' \<longleftrightarrow> set fs \<subseteq> F' \<and> F' \<subseteq> F \<union> set fs"

definition deleted :: "field list list \<Rightarrow> flow set \<Rightarrow> flow set \<Rightarrow> bool" where
  "deleted patterns F F' \<longleftrightarrow> F' \<subseteq> F \<and> (\<forall>f\<in>F'. \<forall>pat\<in>set patterns. \<not> set pat \<subseteq> set (match_fields f))"

type_synonym bridge = "flow set \<times> (nat \<rightharpoonup> pod_info)"

text \<open>
  The steps: the node adds and deletes the rules of subnets (\<open>AddHostSubnetRules\<close>,
  \<open>DeleteHostSubnetRules\<close>) and services (\<open>AddServiceRules\<close>, \<open>DeleteServiceRules\<close>), and the script
  sets up, updates and tears down pods (\<open>SetUpPod\<close>, \<open>UpdatePod\<close>, \<open>TearDownPod\<close>). Any of the additions
  may stop half-way, which leaves a part of the rules.
\<close>

inductive bridge_step :: "bridge \<Rightarrow> bridge \<Rightarrow> bool" where
  subnet_added: "set fs \<subseteq> set (subnet_flows (hs :: HostSubnet)) \<Longrightarrow> added fs F F' \<Longrightarrow> bridge_step (F, pods) (F', pods)"
| subnet_deleted: "deleted [[Table 1, TunSrc (hs_HostIP (hs :: HostSubnet))], [Table 8, NwDst (hs_Subnet hs)]] F F'
    \<Longrightarrow> bridge_step (F, pods) (F', pods)"
| service_added: "set fs \<subseteq> (\<lambda>port. service_flow netID (svc_ClusterIP svc) port) ` set (svc_Ports (svc :: Service))
    \<Longrightarrow> added fs F F' \<Longrightarrow> bridge_step (F, pods) (F', pods)"
| service_deleted:
    "deleted (map (\<lambda>p. [Table 4, Proto (ToLower (sp_Protocol p)), NwDst (svc_ClusterIP (svc :: Service)), TpDst (sp_Port p)])
      (ports :: ServicePort list)) F F'
    \<Longrightarrow> bridge_step (F, pods) (F', pods)"
| pod_setup: "4 \<le> port \<Longrightarrow> pods port = None \<Longrightarrow> set fs \<subseteq> set (pod_flows port p) \<Longrightarrow> added fs F F'
    \<Longrightarrow> bridge_step (F, pods) (F', pods(port \<mapsto> p))"
| pod_update: "pods port = Some p \<Longrightarrow> pi_ip p' = pi_ip p \<Longrightarrow> deleted (pod_patterns (pi_ip p)) F F1
    \<Longrightarrow> set fs \<subseteq> set (pod_flows port p') \<Longrightarrow> added fs F1 F' \<Longrightarrow> bridge_step (F, pods) (F', pods(port \<mapsto> p'))"
| pod_teardown: "pods port = Some p \<Longrightarrow> deleted (pod_patterns (pi_ip p)) F F'
    \<Longrightarrow> bridge_step (F, pods) (F', pods(port := None))"

inductive reachable :: "flow list \<Rightarrow> bridge \<Rightarrow> bool" for base where
  start: "reachable base (set base, Map.empty)"
| step: "reachable base b \<Longrightarrow> bridge_step b b' \<Longrightarrow> reachable base b'"

text \<open>Every rule on the bridge is one of the base rules, or belongs to a subnet, a service or a pod.\<close>

definition origin :: "flow list \<Rightarrow> (nat \<rightharpoonup> pod_info) \<Rightarrow> flow \<Rightarrow> bool" where
  "origin base pods f \<longleftrightarrow>
     f \<in> set base \<or> (\<exists>hs :: HostSubnet. f \<in> set (subnet_flows hs)) \<or> (\<exists>n ip port. f = service_flow n ip port) \<or>
     (\<exists>port p. pods port = Some p \<and> f \<in> set (pod_flows port p))"

definition explained :: "flow list \<Rightarrow> bridge \<Rightarrow> bool" where
  "explained base b \<longleftrightarrow> (\<forall>port\<in>dom (snd b). 4 \<le> port) \<and> (\<forall>f\<in>fst b. origin base (snd b) f)"

lemma pod_flows_patterns:
  "f \<in> set (pod_flows port p) \<Longrightarrow> \<exists>pat\<in>set (pod_patterns (pi_ip p)). set pat \<subseteq> set (match_fields f)"
  by (auto simp: pod_flows_def pod_patterns_def split: if_splits)

lemma origin_other:
  assumes "origin base pods f" and "\<And>p. pods port = Some p \<Longrightarrow> f \<notin> set (pod_flows port p)"
  shows "origin base (pods(port := q)) f"
  using assms unfolding origin_def by (metis fun_upd_apply)

lemma origin_deleted:
  assumes "deleted (pod_patterns (pi_ip p)) F F'" "\<forall>f\<in>F. origin base pods f" "pods port = Some p" "f \<in> F'"
  shows "origin base (pods(port := q)) f"
proof (rule origin_other)
  show "origin base pods f" using assms by (auto simp: deleted_def)
  show "f \<notin> set (pod_flows port r)" if "pods port = Some r" for r
    using pod_flows_patterns [of f port r] assms that by (auto simp: deleted_def)
qed

lemma explained_step: "bridge_step b b' \<Longrightarrow> explained base b \<Longrightarrow> explained base b'"
proof (induction rule: bridge_step.induct)
  case (subnet_added fs hs F F' pods)
  then have "origin base pods f" if "f \<in> F'" for f
    using that by (auto simp: explained_def added_def) (metis (mono_tags) UnE origin_def subsetD)
  then show ?case using subnet_added by (auto simp: explained_def)
next
  case (service_added fs netID svc F F' pods)
  then have "origin base pods f" if "f \<in> F'" for f
    using that by (auto simp: explained_def added_def) (smt (verit) UnE imageE origin_def subsetD)
  then show ?case using service_added by (auto simp: explained_def)
next
  case (pod_setup port pods fs p F F')
  have "origin base (pods(port \<mapsto> p)) f" if f: "f \<in> F'" for f
  proof (cases "f \<in> set fs")
    case True
    with pod_setup(3) show ?thesis unfolding origin_def by (metis fun_upd_same subsetD)
  next
    case False
    with f pod_setup show ?thesis by (intro origin_other) (auto simp: explained_def added_def)
  qed
  then show ?case using pod_setup by (auto simp: explained_def)
next
  case (pod_update pods port p p' F F1 fs F')
  have "origin base (pods(port \<mapsto> p')) f" if f: "f \<in> F'" for f
  proof (cases "f \<in> set fs")
    case True
    with pod_update(4) show ?thesis unfolding origin_def by (metis fun_upd_same subsetD)
  next
    case False
    with f pod_update show ?thesis
      by (intro origin_deleted [OF pod_update(3)]) (auto simp: explained_def added_def)
  qed
  then show ?case using pod_update by (auto simp: explained_def)
next
  case (pod_teardown pods port p F F')
  then have "origin base (pods(port := None)) f" if "f \<in> F'" for f
    using that by (intro origin_deleted [OF pod_teardown(2)]) (auto simp: explained_def)
  then show ?case using pod_teardown by (auto simp: explained_def)
qed (auto simp: explained_def deleted_def)

lemma reachable_explained: "reachable base b \<Longrightarrow> explained base b"
proof (induction rule: reachable.induct)
  case start
  then show ?case by (simp add: explained_def origin_def)
qed (rule explained_step)

section \<open>Isolation\<close>

lemma proto_is_simps [simp]: "proto_is ''arp'' k \<longleftrightarrow> k = KArp" "proto_is ''ip'' k \<longleftrightarrow> k \<in> {KTcp, KUdp, KIp}"
  by (auto simp: proto_is_def)

text \<open>The rules that match in the tables behind the tenant's id.\<close>

lemma late_flow:
  assumes "origin (base_flows sub gw cluster svcs) pods f" and "matches pk t f" and "3 \<le> t" and "pk_kind pk \<noteq> KArp"
  shows "(\<exists>n. acts f = [Goto n] \<and> 3 \<le> n) \<or> acts f = [] \<or> acts f = [Output 2] \<or> acts f = [Output 3]
    \<or> (\<exists>s. acts f = [MoveRegToTun, SetTunDst s, Output 1])
    \<or> (\<exists>port p. pods port = Some p \<and> acts f = [Output port] \<and> addr_in (pi_ip p) (pk_nw_dst pk)
         \<and> (pi_tenant p = 0 \<or> pk_reg0 pk = itod 0 \<or> pk_reg0 pk = itod (pi_tenant p)))"
  using assms(1) [unfolded origin_def]
proof (elim disjE exE conjE)
  assume "f \<in> set (base_flows sub gw cluster svcs)"
  then show ?thesis using assms(2,3) unfolding base_flows_def matches_def by auto
next
  fix hs :: HostSubnet
  assume "f \<in> set (subnet_flows hs)"
  then show ?thesis using assms(2,3) unfolding subnet_flows_def matches_def by auto
next
  fix n ip port
  assume "f = service_flow n ip port"
  then show ?thesis by (simp add: service_flow_def)
next
  fix port p
  assume p: "pods port = Some p" and f: "f \<in> set (pod_flows port p)"
  have "acts f = [Output port] \<and> addr_in (pi_ip p) (pk_nw_dst pk)
      \<and> (pi_tenant p = 0 \<or> pk_reg0 pk = itod 0 \<or> pk_reg0 pk = itod (pi_tenant p))"
    using f assms(2-4) unfolding pod_flows_def matches_def by (auto split: if_splits)
  with p show ?thesis by blast
qed

lemma late_sends:
  assumes "sends F t pk port out" and "explained (base_flows sub gw cluster svcs) (F, pods)"
    and "3 \<le> t" and "pk_kind pk \<noteq> KArp"
  shows "(4 \<le> port \<longrightarrow> (\<exists>p. pods port = Some p \<and> addr_in (pi_ip p) (pk_nw_dst pk)
      \<and> (pi_tenant p = 0 \<or> pk_reg0 pk = itod 0 \<or> pk_reg0 pk = itod (pi_tenant p))))
    \<and> (port = 1 \<longrightarrow> pk_tun_id out = pk_reg0 pk) \<and> pk_kind out = pk_kind pk \<and> pk_nw_dst out = pk_nw_dst pk
    \<and> pk_nw_src out = pk_nw_src pk"
  using assms
proof (induction rule: sends.induct)
  case (here pk t f outs g pk' port out)
  then have "origin (base_flows sub gw cluster svcs) pods f" "matches pk t f"
    by (auto simp: handles_def explained_def)
  from late_flow [OF this here(5,6)] here(2,3,4) show ?case
    by (elim disjE exE conjE) (auto simp: explained_def dom_def)
next
  case (later pk t f outs t' pk' port out)
  then have "origin (base_flows sub gw cluster svcs) pods f" "matches pk t f"
    by (auto simp: handles_def explained_def)
  from late_flow [OF this later(6,7)] later(2) have "pk' = pk" "3 \<le> t'"
    by (elim disjE exE conjE; simp)+
  with later show ?case by simp
qed

text \<open>The rules that match in the tables before it.\<close>

lemma early_flow:
  assumes "origin (base_flows sub gw cluster svcs) pods f" and "matches pk t f" and "t < 3" and "pk_kind pk \<noteq> KArp"
  shows "acts f = []
    \<or> t = 0 \<and> (acts f = [Goto 2] \<or> acts f = [MoveTunToReg, Goto 1] \<and> pk_in_port pk = 1 \<or>
         acts f = [Goto 5] \<and> pk_in_port pk \<in> {2, 3})
    \<or> t = 1 \<and> acts f = [Goto 5]
    \<or> t = 2 \<and> (\<exists>p. pods (pk_in_port pk) = Some p \<and> addr_in (pi_ip p) (pk_nw_src pk)
         \<and> acts f = [LoadReg (itod (pi_tenant p)), Goto 3])"
  using assms(1) [unfolded origin_def]
proof (elim disjE exE conjE)
  assume "f \<in> set (base_flows sub gw cluster svcs)"
  then show ?thesis using assms(2-4) unfolding base_flows_def matches_def by auto
next
  fix hs :: HostSubnet
  assume "f \<in> set (subnet_flows hs)"
  then show ?thesis using assms(2-4) unfolding subnet_flows_def matches_def by auto
next
  fix n ip port
  assume "f = service_flow n ip port"
  then show ?thesis using assms(2,3) by (auto simp: service_flow_def matches_def split: if_splits)
next
  fix port p
  assume "pods port = Some p" and "f \<in> set (pod_flows port p)"
  then show ?thesis using assms(2-4) unfolding pod_flows_def matches_def by (auto split: if_splits)
qed

lemma handles_early:
  "handles F pk t f \<Longrightarrow> explained (base_flows sub gw cluster svcs) (F, pods) \<Longrightarrow> t < 3 \<Longrightarrow> pk_kind pk \<noteq> KArp
     \<Longrightarrow> acts f = []
    \<or> t = 0 \<and> (acts f = [Goto 2] \<or> acts f = [MoveTunToReg, Goto 1] \<and> pk_in_port pk = 1 \<or>
         acts f = [Goto 5] \<and> pk_in_port pk \<in> {2, 3})
    \<or> t = 1 \<and> acts f = [Goto 5]
    \<or> t = 2 \<and> (\<exists>p. pods (pk_in_port pk) = Some p \<and> addr_in (pi_ip p) (pk_nw_src pk)
         \<and> acts f = [LoadReg (itod (pi_tenant p)), Goto 3])"
  by (rule early_flow) (auto simp: handles_def explained_def)

lemma sends_goto:
  assumes "sends F t pk port out"
    and "\<And>f. handles F pk t f \<Longrightarrow> acts f = [] \<or> P (acts f)"
    and "\<And>as. P as \<Longrightarrow> \<exists>t' pk'. perform as pk = ([], Some t', pk')"
  obtains as t' pk' where "P as" "perform as pk = ([], Some t', pk')" "sends F t' pk' port out"
  using assms(1)
proof (cases rule: sends.cases)
  case (here f outs g pk')
  with assms(2) [OF here(1)] assms(3) [of "acts f"] show ?thesis by auto
next
  case (later f outs t' pk')
  with assms(2) [OF later(1)] assms(3) [of "acts f"] that [of "acts f"] show ?thesis by auto
qed

text \<open>A packet from a pod reaches the later tables with the id of its pod, or none of them.\<close>

lemma pod_sends:
  assumes "sends F 0 pk port out" and e: "explained (base_flows sub gw cluster svcs) (F, pods)"
    and "4 \<le> pk_in_port pk" and k: "pk_kind pk \<noteq> KArp"
  shows "\<exists>p t. pods (pk_in_port pk) = Some p \<and> addr_in (pi_ip p) (pk_nw_src pk) \<and> 3 \<le> t
    \<and> sends F t (pk\<lparr>pk_reg0 := itod (pi_tenant p)\<rparr>) port out"
proof -
  note h = handles_early [OF _ e _ k]
  have g0: "acts f = [] \<or> acts f = [Goto 2]" if "handles F pk 0 f" for f
    using h [OF that] assms(3) by auto
  obtain as t' pk' where "as = [Goto 2]" "perform as pk = ([], Some t', pk')" "sends F t' pk' port out"
    by (rule sends_goto [OF assms(1), of "\<lambda>as. as = [Goto 2]", OF g0]) auto
  then have s2: "sends F 2 pk port out" by simp
  have g2: "acts f = [] \<or> (\<exists>p. pods (pk_in_port pk) = Some p \<and> addr_in (pi_ip p) (pk_nw_src pk)
      \<and> acts f = [LoadReg (itod (pi_tenant p)), Goto 3])" if "handles F pk 2 f" for f
    using h [OF that] by auto
  obtain as t' pk' where f: "\<exists>p. pods (pk_in_port pk) = Some p \<and> addr_in (pi_ip p) (pk_nw_src pk)
      \<and> as = [LoadReg (itod (pi_tenant p)), Goto 3]" "perform as pk = ([], Some t', pk')" "sends F t' pk' port out"
    by (rule sends_goto [OF s2, of "\<lambda>as. \<exists>p. pods (pk_in_port pk) = Some p \<and> addr_in (pi_ip p) (pk_nw_src pk)
      \<and> as = [LoadReg (itod (pi_tenant p)), Goto 3]", OF g2]) auto
  from f(1,2) obtain p where "pods (pk_in_port pk) = Some p" "addr_in (pi_ip p) (pk_nw_src pk)"
    "t' = 3" "pk' = pk\<lparr>pk_reg0 := itod (pi_tenant p)\<rparr>" by auto
  with f(3) show ?thesis by (intro exI [of _ p] exI [of _ 3]) simp
qed

text \<open>A packet from another node reaches the later tables with the id it was sent with.\<close>

lemma vxlan_sends:
  assumes "sends F 0 pk port out" and e: "explained (base_flows sub gw cluster svcs) (F, pods)"
    and p: "pk_in_port pk = 1" and k: "pk_kind pk \<noteq> KArp"
  shows "\<exists>t. 3 \<le> t \<and> sends F t (pk\<lparr>pk_reg0 := pk_tun_id pk\<rparr>) port out"
proof -
  let ?q = "pk\<lparr>pk_reg0 := pk_tun_id pk\<rparr>"
  note h = handles_early [OF _ e]
  have "\<not> sends F 2 pk port out"
  proof
    assume s: "sends F 2 pk port out"
    have "acts f = [] \<or> False" if "handles F pk 2 f" for f
      using h [OF that _ k] e p by (force simp: explained_def dom_def)
    then show False by (rule sends_goto [OF s, of "\<lambda>as. False"]) auto
  qed
  moreover have g0: "acts f = [] \<or> acts f = [Goto 2] \<or> acts f = [MoveTunToReg, Goto 1]" if "handles F pk 0 f" for f
    using h [OF that _ k] p by auto
  obtain as t' pk' where "as = [Goto 2] \<or> as = [MoveTunToReg, Goto 1]" "perform as pk = ([], Some t', pk')"
    "sends F t' pk' port out"
    by (rule sends_goto [OF assms(1), of "\<lambda>as. as = [Goto 2] \<or> as = [MoveTunToReg, Goto 1]", OF g0]) auto
  ultimately have s1: "sends F 1 ?q port out" by auto
  have g1: "acts f = [] \<or> acts f = [Goto 5]" if "handles F ?q 1 f" for f
    using h [OF that] k by auto
  obtain as t' pk' where "as = [Goto 5]" "perform as ?q = ([], Some t', pk')" "sends F t' pk' port out"
    by (rule sends_goto [OF s1, of "\<lambda>as. as = [Goto 5]", OF g1]) auto
  then show ?thesis by (intro exI [of _ 5]) auto
qed

lemma itod_zero_iff [simp]: "itod n = ''0'' \<longleftrightarrow> n = 0" "''0'' = itod n \<longleftrightarrow> n = 0"
  using itod_inj [of n 0] by auto

definition may_talk :: "pod_info \<Rightarrow> pod_info \<Rightarrow> bool" where
  "may_talk a b \<longleftrightarrow> pi_tenant a = pi_tenant b \<or> pi_tenant a = 0 \<or> pi_tenant b = 0"

text \<open>How the packet comes in at the other end of the tunnel: with its id, from some address.\<close>

definition arriving :: "packet \<Rightarrow> IP \<Rightarrow> packet" where
  "arriving pk tun = pk\<lparr>pk_in_port := 1, pk_tun_src := tun, pk_reg0 := itod 0\<rparr>"

section \<open>Properties\<close>


section \<open>Delivery\<close>

lemma table_step:
  assumes "f \<in> F" and "matches pk t f" and "acts f = A" and "priority_in (match_fields f) = n"
    and "\<And>g. g \<in> F \<Longrightarrow> matches pk t g \<Longrightarrow> priority_in (match_fields g) < n \<or> priority_in (match_fields g) = n \<and> acts g = A"
    and "perform A pk = (outs, g, pk')"
  shows "sends F t pk port out \<longleftrightarrow> (port, out) \<in> set outs \<or> (\<exists>t'. g = Some t' \<and> sends F t' pk' port out)"
proof
  have a: "acts h = A" if "handles F pk t h" for h
    using that assms(1,2,4) assms(5) [of h] by (auto simp: handles_def)
  assume "sends F t pk port out"
  then show "(port, out) \<in> set outs \<or> (\<exists>t'. g = Some t' \<and> sends F t' pk' port out)"
  proof (cases rule: sends.cases)
    case (here h outs g pk')
    with a [OF here(1)] assms(6) show ?thesis by auto
  next
    case (later h outs t' pk')
    with a [OF later(1)] assms(6) show ?thesis by auto
  qed
next
  have "handles F pk t f" using assms(1,2,4,5) by (fastforce simp: handles_def intro: less_imp_le)
  then show "(port, out) \<in> set outs \<or> (\<exists>t'. g = Some t' \<and> sends F t' pk' port out) \<Longrightarrow> sends F t pk port out"
    using assms(3,6) by (auto intro: sends.intros)
qed

text \<open>The rules that match a packet that is not ARP, with their priorities, where it matters.\<close>

lemma ranked_flow:
  assumes "origin (base_flows sub gw cluster svcs) pods f" and "matches pk t f" and "pk_kind pk \<noteq> KArp"
  shows "(t = 0 \<and> 4 \<le> pk_in_port pk \<longrightarrow>
        acts f = [Goto 2] \<and> priority_in (match_fields f) = 100 \<or> priority_in (match_fields f) = 0)
    \<and> (t = 2 \<longrightarrow> (\<exists>p. pods (pk_in_port pk) = Some p \<and> acts f = [LoadReg (itod (pi_tenant p)), Goto 3])
          \<and> priority_in (match_fields f) = 100 \<or> priority_in (match_fields f) = 0)
    \<and> (t = 3 \<longrightarrow> addr_in svcs (pk_nw_dst pk) \<or> acts f = [Goto 5] \<and> priority_in (match_fields f) = 0)
    \<and> (t = 5 \<longrightarrow> addr_in gw (pk_nw_dst pk) \<or> acts f = [Goto 7] \<and> priority_in (match_fields f) = 200
          \<or> priority_in (match_fields f) < 200)
    \<and> (t = 7 \<longrightarrow> (\<exists>port p. pods port = Some p \<and> addr_in (pi_ip p) (pk_nw_dst pk) \<and> acts f = [Output port])
          \<and> priority_in (match_fields f) = 100 \<or> priority_in (match_fields f) = 0)"
  using assms(1) [unfolded origin_def]
proof (elim disjE exE conjE)
  assume "f \<in> set (base_flows sub gw cluster svcs)"
  then show ?thesis using assms(2,3) unfolding base_flows_def matches_def by auto
next
  fix hs :: HostSubnet
  assume "f \<in> set (subnet_flows hs)"
  then show ?thesis using assms(2,3) unfolding subnet_flows_def matches_def by auto
next
  fix n ip port
  assume "f = service_flow n ip port"
  then show ?thesis using assms(2) by (auto simp: service_flow_def matches_def split: if_splits)
next
  fix port p
  assume "pods port = Some p" and "f \<in> set (pod_flows port p)"
  then show ?thesis using assms(2,3) unfolding pod_flows_def matches_def by (auto split: if_splits)
qed

lemma local_delivery:
  assumes e: "explained (base_flows sub gw cluster svcs) (F, pods)"
    and base: "set (base_flows sub gw cluster svcs) \<subseteq> F"
    and a: "pods (pk_in_port pk) = Some a" "set (pod_flows (pk_in_port pk) a) \<subseteq> F" "addr_in (pi_ip a) (pk_nw_src pk)"
    and b: "pods port = Some b" "set (pod_flows port b) \<subseteq> F" "addr_in (pi_ip b) (pk_nw_dst pk)"
    and one: "\<And>c p. pods c = Some p \<Longrightarrow> addr_in (pi_ip p) (pk_nw_dst pk) \<Longrightarrow> c = port"
    and dst: "addr_in sub (pk_nw_dst pk)" "\<not> addr_in gw (pk_nw_dst pk)" "\<not> addr_in svcs (pk_nw_dst pk)"
    and k: "pk_kind pk \<in> {KTcp, KUdp, KIp}" and talk: "may_talk a b"
  shows "sends F 0 pk q out \<longleftrightarrow> q = port \<and> out = pk\<lparr>pk_reg0 := itod (pi_tenant a)\<rparr>"
proof -
  let ?pk = "pk\<lparr>pk_reg0 := itod (pi_tenant a)\<rparr>"
  have k': "pk_kind pk \<noteq> KArp" "pk_kind ?pk \<noteq> KArp" using k by auto
  have p4: "4 \<le> pk_in_port pk" using e a(1) by (auto simp: explained_def)
  have r: "origin (base_flows sub gw cluster svcs) pods f" if "f \<in> F" for f using e that by (auto simp: explained_def)
  note rk = ranked_flow [OF r _ k'(1)] and rk' = ranked_flow [OF r _ k'(2)]
  have "sends F 0 pk q out \<longleftrightarrow> sends F 2 pk q out"
  proof -
    have "sends F 0 pk q out \<longleftrightarrow> (q, out) \<in> set [] \<or> (\<exists>t'. Some 2 = Some t' \<and> sends F t' pk q out)"
    proof (rule table_step [where n = 100])
      show "rule [Table 0, Priority 100, Proto ''ip''] [Goto 2] \<in> F" using base by (auto simp: base_flows_def)
      show "matches pk 0 (rule [Table 0, Priority 100, Proto ''ip''] [Goto 2])" using k by (auto simp: matches_def)
      show "priority_in (match_fields h) < 100 \<or> priority_in (match_fields h) = 100 \<and> acts h = [Goto 2]"
        if "h \<in> F" "matches pk 0 h" for h using rk [OF that] p4 by auto
    qed simp_all
    then show ?thesis by simp
  qed
  also have "\<dots> \<longleftrightarrow> sends F 3 ?pk q out"
  proof -
    have "sends F 2 pk q out \<longleftrightarrow> (q, out) \<in> set [] \<or> (\<exists>t'. Some 3 = Some t' \<and> sends F t' ?pk q out)"
    proof (rule table_step [where n = 100])
      show "rule [Table 2, Priority 100, InPort (pk_in_port pk), Proto ''ip'', NwSrc (pi_ip a)] [LoadReg (itod (pi_tenant a)), Goto 3] \<in> F" using a by (auto simp: pod_flows_def)
      show "matches pk 2 (rule [Table 2, Priority 100, InPort (pk_in_port pk), Proto ''ip'', NwSrc (pi_ip a)] [LoadReg (itod (pi_tenant a)), Goto 3])" using k a by (auto simp: matches_def)
      show "priority_in (match_fields h) < 100 \<or> priority_in (match_fields h) = 100 \<and> acts h = [LoadReg (itod (pi_tenant a)), Goto 3]"
        if "h \<in> F" "matches pk 2 h" for h using rk [OF that] a by auto
    qed simp_all
    then show ?thesis by simp
  qed
  also have "\<dots> \<longleftrightarrow> sends F 5 ?pk q out"
  proof -
    have "sends F 3 ?pk q out \<longleftrightarrow> (q, out) \<in> set [] \<or> (\<exists>t'. Some 5 = Some t' \<and> sends F t' ?pk q out)"
    proof (rule table_step [where n = 0])
      show "rule [Table 3, Priority 0] [Goto 5] \<in> F" using base by (auto simp: base_flows_def)
      show "matches ?pk 3 (rule [Table 3, Priority 0] [Goto 5])" by (auto simp: matches_def)
      show "priority_in (match_fields h) < 0 \<or> priority_in (match_fields h) = 0 \<and> acts h = [Goto 5]"
        if "h \<in> F" "matches ?pk 3 h" for h using rk' [OF that] dst by auto
    qed simp_all
    then show ?thesis by simp
  qed
  also have "\<dots> \<longleftrightarrow> sends F 7 ?pk q out"
  proof -
    have "sends F 5 ?pk q out \<longleftrightarrow> (q, out) \<in> set [] \<or> (\<exists>t'. Some 7 = Some t' \<and> sends F t' ?pk q out)"
    proof (rule table_step [where n = 200])
      show "rule [Table 5, Priority 200, Proto ''ip'', NwDst sub] [Goto 7] \<in> F" using base by (auto simp: base_flows_def)
      show "matches ?pk 5 (rule [Table 5, Priority 200, Proto ''ip'', NwDst sub] [Goto 7])" using k dst by (auto simp: matches_def)
      show "priority_in (match_fields h) < 200 \<or> priority_in (match_fields h) = 200 \<and> acts h = [Goto 7]"
        if "h \<in> F" "matches ?pk 5 h" for h using rk' [OF that] dst by auto
    qed simp_all
    then show ?thesis by simp
  qed
  also have "\<dots> \<longleftrightarrow> q = port \<and> out = ?pk"
  proof -
    obtain f where f: "f \<in> F" "matches ?pk 7 f" "acts f = [Output port]" "priority_in (match_fields f) = 100"
    proof (cases "pi_tenant b = 0")
      case True
      with b k that [of "rule [Table 7, Priority 100, Proto ''ip'', NwDst (pi_ip b)] [Output port]"] show ?thesis
        by (auto simp: pod_flows_def matches_def)
    next
      case False
      with talk have "pi_tenant a = 0 \<or> pi_tenant a = pi_tenant b" by (auto simp: may_talk_def)
      then show ?thesis using False b k
          that [of "rule [Table 7, Priority 100, Reg0 0, Proto ''ip'', NwDst (pi_ip b)] [Output port]"]
          that [of "rule [Table 7, Priority 100, Reg0 (pi_tenant b), Proto ''ip'', NwDst (pi_ip b)] [Output port]"]
        by (auto simp: pod_flows_def matches_def)
    qed
    have "priority_in (match_fields g) < 100 \<or> priority_in (match_fields g) = 100 \<and> acts g = [Output port]"
      if "g \<in> F" "matches ?pk 7 g" for g
      using rk' [OF that(1,2)] one by auto
    from table_step [OF f this, of "[(port, ?pk)]" None ?pk q out] show ?thesis by auto
  qed
  finally show ?thesis .
qed

text \<open>
  C6: delivery. When the base rules and the rules of two pods of a node are on its bridge, the
  pods may talk to each other, and the destination is the address of the one alone, inside the
  subnet of the node and neither its gateway nor a service address, then a packet from the other
  is sent to exactly that pod and nowhere else, unchanged but for the register.
\<close>

theorem packets_delivered:
  assumes "reachable (base_flows sub gw cluster svcs) (F, pods)"
    and "set (base_flows sub gw cluster svcs) \<subseteq> F"
    and "pods (pk_in_port pk) = Some a" and "set (pod_flows (pk_in_port pk) a) \<subseteq> F" and "addr_in (pi_ip a) (pk_nw_src pk)"
    and "pods port = Some b" and "set (pod_flows port b) \<subseteq> F" and "addr_in (pi_ip b) (pk_nw_dst pk)"
    and "\<And>c p. pods c = Some p \<Longrightarrow> addr_in (pi_ip p) (pk_nw_dst pk) \<Longrightarrow> c = port"
    and "addr_in sub (pk_nw_dst pk)" and "\<not> addr_in gw (pk_nw_dst pk)" and "\<not> addr_in svcs (pk_nw_dst pk)"
    and "pk_kind pk \<in> {KTcp, KUdp, KIp}" and "may_talk a b"
  shows "sends F 0 pk q out \<longleftrightarrow> q = port \<and> out = pk\<lparr>pk_reg0 := itod (pi_tenant a)\<rparr>"
  by (rule local_delivery [OF reachable_explained [OF assms(1)] assms(2-14)])

section \<open>An example\<close>

definition base1 :: "flow list" where
  "base1 = base_flows ''10.1.0.0/24'' ''10.1.0.1'' ''10.1.0.0/16'' ''172.30.0.0/16''"

definition pod2 :: pod_info where
  "pod2 = \<lparr>pi_ip = ''10.1.0.2'', pi_mac = ''02:42:0a:01:00:02'', pi_tenant = 10\<rparr>"

definition pod3 :: pod_info where
  "pod3 = \<lparr>pi_ip = ''10.1.0.3'', pi_mac = ''02:42:0a:01:00:03'', pi_tenant = 10\<rparr>"

definition bridge1 :: "flow set" where
  "bridge1 = set base1 \<union> set (pod_flows 4 pod2) \<union> set (pod_flows 5 pod3)"

definition packet23 :: packet where
  "packet23 =
     \<lparr>pk_in_port = 4, pk_kind = KTcp, pk_nw_src = IPv4 10 1 0 2, pk_nw_dst = IPv4 10 1 0 3, pk_arp_sha = '''',
      pk_tp_dst = 80, pk_tun_src = [], pk_tun_id = '''', pk_tun_dst = '''', pk_reg0 = ''0''\<rparr>"

lemma reachable1: "reachable base1 (bridge1, [4 \<mapsto> pod2, 5 \<mapsto> pod3])"
proof -
  have "bridge_step (set base1, Map.empty) (set base1 \<union> set (pod_flows 4 pod2), [4 \<mapsto> pod2])"
    by (rule pod_setup [where fs = "pod_flows 4 pod2"]) (auto simp: added_def)
  moreover have "bridge_step (set base1 \<union> set (pod_flows 4 pod2), [4 \<mapsto> pod2]) (bridge1, [4 \<mapsto> pod2, 5 \<mapsto> pod3])"
    by (rule pod_setup [where fs = "pod_flows 5 pod3"]) (auto simp: added_def bridge1_def)
  ultimately show ?thesis
    by (rule reachable.step [OF reachable.step [OF reachable.start]])
qed

lemma addr_in1:
  "addr_in ''10.1.0.2'' (IPv4 10 1 0 2)" "addr_in ''10.1.0.3'' (IPv4 10 1 0 3)" "\<not> addr_in ''10.1.0.2'' (IPv4 10 1 0 3)"
  "addr_in ''10.1.0.0/24'' (IPv4 10 1 0 3)" "\<not> addr_in ''10.1.0.1'' (IPv4 10 1 0 3)"
  "\<not> addr_in ''172.30.0.0/16'' (IPv4 10 1 0 3)"
  by (simp_all add: addr_in_def ParseIP_def str_simps)

theorem packets_delivered_witness:
  "sends bridge1 0 packet23 5 (packet23\<lparr>pk_reg0 := ''10''\<rparr>) \<and> \<not> sends bridge1 0 packet23 2 packet23"
proof -
  note d = packets_delivered [OF reachable1 [unfolded base1_def], where pk = packet23 and a = pod2 and b = pod3 and port = 5]
  have t: "itod 10 = ''10''" by (simp add: str_simps)
  show ?thesis
    by (subst (1 2) d) (auto simp: bridge1_def base1_def packet23_def pod2_def pod3_def addr_in1 may_talk_def t
        split: if_splits)
qed

lemma delivered1: "sends bridge1 0 packet23 5 (packet23\<lparr>pk_reg0 := ''10''\<rparr>)"
proof -
  note d = local_delivery [OF reachable_explained [OF reachable1 [unfolded base1_def]], where pk = packet23 and a = pod2 and b = pod3 and port = 5]
  have t: "itod 10 = ''10''" by (simp add: str_simps)
  show ?thesis
    by (subst d) (auto simp: bridge1_def base1_def packet23_def pod2_def pod3_def addr_in1 may_talk_def t
        split: if_splits)
qed


end
