(* ===== verification/Plugin.thy ===== *)
theory Plugin
  imports Controller VnidMap MemoryApi
begin

text \<open>
  \<open>plugins/osdn/plugin.go\<close>: the network plugin the kubelet calls to connect a pod, to disconnect it
  and to update its network id. The work is done by the script \<open>openshift-sdn-ovs\<close>, which the
  plugin runs on the host; here are the arguments it gets and what becomes of its output. The
  parser of quantities is a parameter: it gives the value of a quantity, or an error. A whole
  result of \<open>None\<close> is a panic.
\<close>

section \<open>Names\<close>

definition SingleTenantPluginName :: string where
  "SingleTenantPluginName = ''redhat/openshift-ovs-subnet''"

definition MultiTenantPluginName :: string where
  "MultiTenantPluginName = ''redhat/openshift-ovs-multitenant''"

definition IngressBandwidthAnnotation :: string where
  "IngressBandwidthAnnotation = ''kubernetes.io/ingress-bandwidth''"

definition EgressBandwidthAnnotation :: string where
  "EgressBandwidthAnnotation = ''kubernetes.io/egress-bandwidth''"

definition AssignMacVlanAnnotation :: string where
  "AssignMacVlanAnnotation = ''pod.network.openshift.io/assign-macvlan''"

definition IsOpenShiftNetworkPlugin :: "string \<Rightarrow> bool" where
  "IsOpenShiftNetworkPlugin pluginName =
     (if ToLower pluginName \<in> {SingleTenantPluginName, MultiTenantPluginName} then True else False)"

definition IsOpenShiftMultitenantNetworkPlugin :: "string \<Rightarrow> bool" where
  "IsOpenShiftMultitenantNetworkPlugin pluginName =
     (if ToLower pluginName = MultiTenantPluginName then True else False)"

definition setUpCmd :: string where "setUpCmd = ''setup''"

definition tearDownCmd :: string where "tearDownCmd = ''teardown''"

definition statusCmd :: string where "statusCmd = ''status''"

definition updateCmd :: string where "updateCmd = ''update''"

definition getExecutable :: string where
  "getExecutable = ''openshift-sdn-ovs''"

definition Init :: "OsdnNode \<Rightarrow> error option" where
  "Init plugin = None"

definition Name :: "OsdnNode \<Rightarrow> string" where
  "Name plugin = (if n_multitenant plugin then MultiTenantPluginName else SingleTenantPluginName)"

definition Status :: "OsdnNode \<Rightarrow> error option" where
  "Status plugin = None"

section \<open>The network id of a namespace\<close>

text \<open>\<open>tries\<close> is the table at each look of \<open>WaitAndGetVNID\<close>.\<close>

definition getVNID :: "OsdnNode \<Rightarrow> (nat \<Rightarrow> vnidMap) \<Rightarrow> string \<Rightarrow> error + string" where
  "getVNID plugin tries namespace =
     (if n_multitenant plugin then
        (case WaitAndGetVNID namespace tries of
           (vnid, Some err) \<Rightarrow> Inl err
         | (vnid, None) \<Rightarrow> Inr (itod (unat vnid)))
      else Inr ''0'')"

section \<open>Bandwidth\<close>

type_synonym quantity_parser = "string \<Rightarrow> error + int"

text \<open>\<open>resource.MustParse\<close> panics when it cannot parse.\<close>

definition minRsrc :: "quantity_parser \<Rightarrow> int option" where
  "minRsrc parse = (case parse ''1k'' of Inl _ \<Rightarrow> None | Inr q \<Rightarrow> Some q)"

definition maxRsrc :: "quantity_parser \<Rightarrow> int option" where
  "maxRsrc parse = (case parse ''1P'' of Inl _ \<Rightarrow> None | Inr q \<Rightarrow> Some q)"

definition parseAndValidateBandwidth :: "quantity_parser \<Rightarrow> string \<Rightarrow> (int \<times> error option) option" where
  "parseAndValidateBandwidth parse value =
     do { lo \<leftarrow> minRsrc parse;
          hi \<leftarrow> maxRsrc parse;
          Some (case parse value of
                  Inl err \<Rightarrow> (-1, Some err)
                | Inr rsrc \<Rightarrow>
                    if rsrc < lo then (-1, Some (Errorf ''resource value %d is unreasonably small (< %d)'' []))
                    else if rsrc > hi then (-1, Some (Errorf ''resource value %d is unreasonably large (> %d)'' []))
                    else (rsrc, None)) }"

text \<open>One annotation: absent, it leaves the zero value.\<close>

definition annotated_bandwidth ::
  "quantity_parser \<Rightarrow> (string \<rightharpoonup> string) \<Rightarrow> string \<Rightarrow> (int \<times> error option) option" where
  "annotated_bandwidth parse annotations key =
     (case annotations key of
        None \<Rightarrow> Some (0, None)
      | Some str \<Rightarrow> parseAndValidateBandwidth parse str)"

definition extractBandwidthResources ::
  "quantity_parser \<Rightarrow> Pod \<Rightarrow> (int \<times> int \<times> error option) option" where
  "extractBandwidthResources parse pod =
     do { (ingress, err) \<leftarrow> annotated_bandwidth parse (pod_Annotations pod) IngressBandwidthAnnotation;
          if err \<noteq> None then Some (-1, -1, err)
          else do {
            (egress, err) \<leftarrow> annotated_bandwidth parse (pod_Annotations pod) EgressBandwidthAnnotation;
            if err \<noteq> None then Some (-1, -1, err)
            else Some (ingress, egress, None) } }"

section \<open>Macvlan\<close>

text \<open>A nil security context is dereferenced: the loop panics there.\<close>

fun any_privileged :: "bool option option list \<Rightarrow> bool option" where
  "any_privileged [] = Some False"
| "any_privileged (None # containers) = None"
| "any_privileged (Some privileged # containers) =
     (if privileged \<noteq> None \<and> privileged = Some True then Some True else any_privileged containers)"

definition wantsMacvlan :: "Pod \<Rightarrow> (bool \<times> error option) option" where
  "wantsMacvlan pod =
     (case pod_Annotations pod AssignMacVlanAnnotation of
        None \<Rightarrow> Some (False, None)
      | Some val \<Rightarrow>
          if val \<noteq> ''true'' then Some (False, None)
          else do { b \<leftarrow> any_privileged (pod_Containers pod);
                    Some (if b then (True, None)
                          else (False, Some (Errorf ''Pod has %q annotation but is not privileged'' []))) })"

section \<open>The script and its errors\<close>

definition newline :: string where
  "newline = [CHR 0x0A]"

definition isScriptError :: "error option \<Rightarrow> bool" where
  "isScriptError err = (err = Some ExitError)"

text \<open>The loop down the lines; \<open>n\<close> are left, and \<open>None\<close> is the end of the loop.\<close>

fun script_loop :: "string list \<Rightarrow> nat \<Rightarrow> nat \<Rightarrow> string option" where
  "script_loop lines stop 0 = None"
| "script_loop lines stop (Suc n) =
     (if HasPrefix (lines ! n) ''+ exit'' then script_loop lines n n
      else if HasPrefix (lines ! n) ''+ echo'' then Some (Join (take (stop - (n + 1)) (drop (n + 1) lines)) newline)
      else if HasPrefix (lines ! n) ''+'' then Some (Join (drop n lines) newline)
      else script_loop lines stop n)"

definition getScriptError :: "string \<Rightarrow> string" where
  "getScriptError output =
     (let lines = Split output newline
      in case script_loop lines (length lines) (length lines) of
           Some msg \<Rightarrow> msg
         | None \<Rightarrow> output)"

text \<open>How the three calls of the script end: \<open>what\<close> is the format of their error.\<close>

definition script_result :: "string \<Rightarrow> string \<Rightarrow> error option \<Rightarrow> error option" where
  "script_result what out err =
     (if isScriptError err then Some (Errorf what [Foreign (getScriptError out)]) else err)"

section \<open>The operations of the plugin\<close>

text \<open>
  At most twelve waits of ten seconds for the channel; \<open>ready\<close> is whether it is closed by the end
  of each.
\<close>

fun ready_loop :: "nat \<Rightarrow> nat \<Rightarrow> (nat \<Rightarrow> bool) \<Rightarrow> error option" where
  "ready_loop i 0 ready = Some (Errorf ''SDN pod network is not ready(timeout: 2 mins)'' [])"
| "ready_loop i (Suc n) ready = (if ready i then None else ready_loop (Suc i) n ready)"

definition WaitForPodNetworkReady :: "(nat \<Rightarrow> bool) \<Rightarrow> error option" where
  "WaitForPodNetworkReady ready = ready_loop 0 12 ready"

definition show_bool :: "bool \<Rightarrow> string" where
  "show_bool b = (if b then ''true'' else ''false'')"

text \<open>The arguments of the script for a pod, or the error that keeps it from being run.\<close>

definition setup_args ::
  "quantity_parser \<Rightarrow> OsdnNode \<Rightarrow> (nat \<Rightarrow> vnidMap) \<Rightarrow> string \<Rightarrow> string \<Rightarrow> Pod \<Rightarrow> (error + string list) option"
where
  "setup_args parse plugin tries namespace containerID pod =
     do { (ingress, egress, err) \<leftarrow> extractBandwidthResources parse pod;
          (case err of
             Some e \<Rightarrow> Some (Inl (Errorf ''failed to parse pod %s/%s ingress/egress quantity: %v'' [e]))
           | None \<Rightarrow>
               (let ingressStr = (if ingress > 0 then itoz ingress else '''');
                    egressStr = (if egress > 0 then itoz egress else '''')
                in case getVNID plugin tries namespace of
                     Inl e \<Rightarrow> Some (Inl e)
                   | Inr vnidstr \<Rightarrow>
                       do { (macvlan, merr) \<leftarrow> wantsMacvlan pod;
                            Some (case merr of
                                    Some e \<Rightarrow> Inl e
                                  | None \<Rightarrow> Inr [setUpCmd, containerID, vnidstr, ingressStr, egressStr,
                                                 show_bool macvlan]) })) }"

definition SetUpPod ::
  "'w api \<Rightarrow> os \<Rightarrow> quantity_parser \<Rightarrow> OsdnNode \<Rightarrow> (nat \<Rightarrow> bool) \<Rightarrow> (nat \<Rightarrow> vnidMap) \<Rightarrow> string \<Rightarrow> string \<Rightarrow> string
     \<Rightarrow> 'w \<Rightarrow> execState \<Rightarrow> (error option \<times> 'w \<times> execState) option" where
  "SetUpPod api os parse plugin ready tries namespace name containerID w st =
     (case WaitForPodNetworkReady ready of
        Some e \<Rightarrow> Some (Some e, w, st)
      | None \<Rightarrow>
          (case GetPod api (n_hostName plugin) namespace name w of
             (Inl e, w1) \<Rightarrow> Some (Some e, w1, st)
           | (Inr None, w1) \<Rightarrow> Some (Some (Errorf ''failed to retrieve pod %s/%s'' []), w1, st)
           | (Inr (Some pod), w1) \<Rightarrow>
               do { r \<leftarrow> setup_args parse plugin tries namespace containerID pod;
                    (case r of
                       Inl e \<Rightarrow> Some (Some e, w1, st)
                     | Inr args \<Rightarrow>
                         (let ((out, err), st1) = CombinedOutput os getExecutable args st
                          in Some (script_result ''Error running network setup script: %s'' out err, w1, st1))) }))"

definition TearDownPod :: "os \<Rightarrow> string \<Rightarrow> execState \<Rightarrow> error option \<times> execState" where
  "TearDownPod os containerID st =
     (let ((out, err), st1) = CombinedOutput os getExecutable [tearDownCmd, containerID, ''-1'', ''-1'', ''-1''] st
      in (script_result ''Error running network teardown script: %s'' out err, st1))"

definition UpdatePod ::
  "os \<Rightarrow> OsdnNode \<Rightarrow> (nat \<Rightarrow> vnidMap) \<Rightarrow> string \<Rightarrow> string \<Rightarrow> execState \<Rightarrow> error option \<times> execState" where
  "UpdatePod os plugin tries namespace containerID st =
     (case getVNID plugin tries namespace of
        Inl err \<Rightarrow> (Some err, st)
      | Inr vnidstr \<Rightarrow>
          (let ((out, err), st1) = CombinedOutput os getExecutable [updateCmd, containerID, vnidstr] st
           in (script_result ''Error running network update script: %s'' out err, st1)))"

section \<open>Lemmas\<close>

text \<open>The first try that finds the channel closed ends the wait; without one the wait fails.\<close>

lemma ready_loop_None: "ready_loop i n ready = None \<longleftrightarrow> (\<exists>k<n. ready (i + k))"
proof (induction n arbitrary: i)
  case (Suc n)
  have "(\<exists>k<Suc n. ready (i + k)) \<longleftrightarrow> ready i \<or> (\<exists>k<n. ready (Suc i + k))"
    by (auto simp: less_Suc_eq_0_disj)
  then show ?case by (simp add: Suc)
qed simp

lemma any_privileged_Some:
  "any_privileged cs = Some b \<longleftrightarrow>
     (if b then \<exists>xs ys. cs = xs @ Some (Some True) # ys \<and> None \<notin> set xs
      else None \<notin> set cs \<and> Some (Some True) \<notin> set cs)"
proof (induction cs)
  case Nil
  then show ?case by auto
next
  case (Cons c cs)
  show ?case
  proof (cases "c = Some (Some True)")
    case True
    then show ?thesis by (auto intro: exI [of _ "[]"])
  next
    case False
    have "(\<exists>xs ys. c # cs = xs @ Some (Some True) # ys \<and> None \<notin> set xs) \<longleftrightarrow>
        c \<noteq> None \<and> (\<exists>xs ys. cs = xs @ Some (Some True) # ys \<and> None \<notin> set xs)" (is "?L \<longleftrightarrow> ?R")
    proof
      assume ?L
      then obtain xs ys where e: "c # cs = xs @ Some (Some True) # ys" and n: "None \<notin> set xs" by blast
      then show ?R using False by (cases xs; cases c) auto
    next
      assume ?R
      then obtain xs ys where "cs = xs @ Some (Some True) # ys" "None \<notin> set xs" "c \<noteq> None" by blast
      then have "c # cs = (c # xs) @ Some (Some True) # ys \<and> None \<notin> set (c # xs)" by auto
      then show ?L by blast
    qed
    then show ?thesis using False Cons by (cases c) auto
  qed
qed

text \<open>
  A pod is given to the script only with bandwidths of zero or between the two bounds.
\<close>

lemma annotated_bandwidth_bounds:
  assumes "annotated_bandwidth parse annotations key = Some (v, None)" "minRsrc parse = Some lo" "maxRsrc parse = Some hi"
  shows "annotations key = None \<and> v = 0 \<or> (\<exists>s. annotations key = Some s \<and> parse s = Inr v \<and> lo \<le> v \<and> v \<le> hi)"
  using assms
  by (auto simp: annotated_bandwidth_def parseAndValidateBandwidth_def split: option.splits sum.splits if_splits)

lemma wait_loop_inv:
  "wait_loop i n name tries = (v, None) \<Longrightarrow> \<exists>k<n. map_of (tries (i + k)) name = Some v"
proof (induction n arbitrary: i)
  case (Suc n)
  show ?case
  proof (cases "map_of (tries i) name")
    case None
    with Suc.prems have "wait_loop (Suc i) n name tries = (v, None)" by (simp add: GetVNID_def)
    from Suc.IH [OF this] obtain k where "k < n" "map_of (tries (Suc i + k)) name = Some v" by blast
    then show ?thesis by (intro exI [of _ "Suc k"]) simp
  next
    case (Some x)
    with Suc.prems show ?thesis by (intro exI [of _ 0]) (simp add: GetVNID_def)
  qed
qed simp

lemma getVNID_cases:
  assumes "getVNID plugin tries ns = Inr s"
  shows "if n_multitenant plugin then \<exists>k<20. \<exists>v. map_of (tries k) ns = Some v \<and> s = itod (unat v) else s = ''0''"
  using assms wait_loop_inv [of 0 20 ns tries]
  by (auto simp: getVNID_def WaitAndGetVNID_def split: prod.splits option.splits)

text \<open>A bandwidth argument: empty, or a quantity between the bounds.\<close>

definition bandwidth_arg :: "quantity_parser \<Rightarrow> string option \<Rightarrow> string \<Rightarrow> bool" where
  "bandwidth_arg parse annotation arg \<longleftrightarrow>
     (case annotation of
        None \<Rightarrow> arg = ''''
      | Some text \<Rightarrow> \<exists>q lo hi. parse text = Inr q \<and> parse ''1k'' = Inr lo \<and> parse ''1P'' = Inr hi \<and> lo \<le> q \<and> q \<le> hi
          \<and> arg = (if q > 0 then itoz q else ''''))"

lemma bandwidth_arg_annotated:
  assumes "annotated_bandwidth parse annotations key = Some (v, None)"
  shows "bandwidth_arg parse (annotations key) (if v > 0 then itoz v else '''')"
proof (cases "annotations key")
  case None
  with assms show ?thesis by (simp add: annotated_bandwidth_def bandwidth_arg_def)
next
  case (Some str)
  with assms obtain lo hi where b: "minRsrc parse = Some lo" "maxRsrc parse = Some hi"
    by (auto simp: annotated_bandwidth_def parseAndValidateBandwidth_def bind_eq_Some_conv)
  from annotated_bandwidth_bounds [OF assms b] Some have "parse str = Inr v" "lo \<le> v" "v \<le> hi" by auto
  moreover from b have "parse ''1k'' = Inr lo" "parse ''1P'' = Inr hi"
    by (auto simp: minRsrc_def maxRsrc_def split: sum.splits)
  ultimately show ?thesis using Some by (simp add: bandwidth_arg_def)
qed

section \<open>Properties\<close>

text \<open>
  C24: the set-up of a pod either runs nothing and gives an error, or it runs the script once, with
  the container's id, the network id that the namespace had at one of the looks (or 0 without
  multitenancy), for each direction no bandwidth or one between the two bounds, and macvlan only
  for a pod that asks for it and has a privileged container. It runs the script only once the pod
  network is ready, and returns what the script said.
\<close>

theorem SetUpPod_runs_script:
  assumes "SetUpPod api os parse plugin ready tries ns name cid w st = Some (e, w', st')"
  shows "st' = st \<and> e \<noteq> None \<or>
    (\<exists>k<12. ready k) \<and>
    (\<exists>pod w1 vnid inb outb macvlan.
       GetPod api (n_hostName plugin) ns name w = (Inr (Some pod), w1)
       \<and> st' = st\<lparr>hist := hist st @ [Run (''openshift-sdn-ovs'', [''setup'', cid, vnid, inb, outb, show_bool macvlan])]\<rparr>
       \<and> (if n_multitenant plugin then \<exists>k<20. \<exists>v. map_of (tries k) ns = Some v \<and> vnid = itod (unat v) else vnid = ''0'')
       \<and> bandwidth_arg parse (pod_Annotations pod IngressBandwidthAnnotation) inb
       \<and> bandwidth_arg parse (pod_Annotations pod EgressBandwidthAnnotation) outb
       \<and> (macvlan \<longrightarrow> pod_Annotations pod AssignMacVlanAnnotation = Some ''true''
            \<and> Some (Some True) \<in> set (pod_Containers pod)))"
proof (cases "WaitForPodNetworkReady ready")
  case (Some x)
  with assms show ?thesis by (auto simp: SetUpPod_def)
next
  case None
  then have ready: "\<exists>k<12. ready k" by (simp add: WaitForPodNetworkReady_def ready_loop_None)
  obtain r w1 where g: "GetPod api (n_hostName plugin) ns name w = (r, w1)" by fastforce
  show ?thesis
  proof (cases "\<exists>pod. r = Inr (Some pod)")
    case False
    with assms None g show ?thesis by (cases r) (auto simp: SetUpPod_def split: option.splits)
  next
    case True
    then obtain pod where r: "r = Inr (Some pod)" by blast
    from assms None g r obtain a where a: "setup_args parse plugin tries ns cid pod = Some a"
      by (auto simp: SetUpPod_def bind_eq_Some_conv)
    show ?thesis
    proof (cases a)
      case (Inl x)
      with assms None g r a show ?thesis by (auto simp: SetUpPod_def)
    next
      case (Inr args)
      from a Inr obtain i u where io: "extractBandwidthResources parse pod = Some (i, u, None)"
        by (auto simp: setup_args_def bind_eq_Some_conv split: option.splits)
      then have bi: "annotated_bandwidth parse (pod_Annotations pod) IngressBandwidthAnnotation = Some (i, None)"
        and bo: "annotated_bandwidth parse (pod_Annotations pod) EgressBandwidthAnnotation = Some (u, None)"
        by (auto simp: extractBandwidthResources_def bind_eq_Some_conv split: if_splits)
      from a Inr io obtain vnid m where v: "getVNID plugin tries ns = Inr vnid" "wantsMacvlan pod = Some (m, None)"
        "args = [setUpCmd, cid, vnid, if i > 0 then itoz i else '''', if u > 0 then itoz u else '''', show_bool m]"
        by (auto simp: setup_args_def bind_eq_Some_conv Let_def split: sum.splits option.splits)
      have m: "m \<longrightarrow> pod_Annotations pod AssignMacVlanAnnotation = Some ''true'' \<and> Some (Some True) \<in> set (pod_Containers pod)"
        using v(2) any_privileged_Some [of "pod_Containers pod" True]
        by (auto simp: wantsMacvlan_def bind_eq_Some_conv split: option.splits if_splits)
      from assms None g r a Inr have "st' = st\<lparr>hist := hist st @ [Run (getExecutable, args)]\<rparr>"
        by (auto simp: SetUpPod_def CombinedOutput_def split: prod.splits)
      then show ?thesis
        using g r ready v m bandwidth_arg_annotated [OF bi] bandwidth_arg_annotated [OF bo] getVNID_cases [OF v(1)]
        by (intro disjI2 conjI exI [of _ pod] exI [of _ w1] exI [of _ vnid] exI [of _ "if i > 0 then itoz i else ''''"]
            exI [of _ "if u > 0 then itoz u else ''''"] exI [of _ m])
          (auto simp: getExecutable_def setUpCmd_def)
    qed
  qed
qed

definition plugin_node :: OsdnNode where
  "plugin_node =
     \<lparr>n_multitenant = True, n_registry = \<lparr>reg_NetworkInfo = Some sample_network\<rparr>, n_localIP = ''192.168.1.1'',
      n_localSubnet = None, n_hostName = ''n1'', n_podNetworkReady = True, n_vnids = [(''p1'', 10)],
      n_iptablesSyncPeriod = 30, n_mtu = 1450\<rparr>"

definition plugin_memory :: memory where
  "plugin_memory = empty_memory\<lparr>mem_pods :=
     [\<lparr>pod_Name = ''a'', pod_Namespace = ''p1'', pod_UID = ''u1'',
       pod_Annotations = [IngressBandwidthAnnotation \<mapsto> ''10k''], pod_Containers = [], pod_Phase = PodPending,
       pod_PodIP = [], pod_ContainerIDs = []\<rparr>]\<rparr>"

definition sample_quantities :: quantity_parser where
  "sample_quantities s =
     (if s = ''1k'' then Inr 1000 else if s = ''10k'' then Inr 10000 else if s = ''1P'' then Inr (10 ^ 15)
      else Inl (Foreign ''not a quantity''))"

theorem SetUpPod_runs_script_witness:
  "\<exists>e w' st'. SetUpPod memory_api (table_host (\<lambda>c. ([], None))) sample_quantities plugin_node (\<lambda>_. True)
       (\<lambda>_. n_vnids plugin_node) ''p1'' ''a'' ''c1'' plugin_memory exec_init = Some (e, w', st')
     \<and> (st' = exec_init \<and> e \<noteq> None \<or>
        (\<exists>args. hist st' = [Run (''openshift-sdn-ovs'', ''setup'' # ''c1'' # args)]))"
proof -
  let ?r = "SetUpPod memory_api (table_host (\<lambda>c. ([], None))) sample_quantities plugin_node (\<lambda>_. True)
       (\<lambda>_. n_vnids plugin_node) ''p1'' ''a'' ''c1'' plugin_memory exec_init"
  have "WaitForPodNetworkReady (\<lambda>_. True) = None"
    by (auto simp: WaitForPodNetworkReady_def ready_loop_None intro: exI [of _ 0])
  moreover have "GetPod memory_api (n_hostName plugin_node) ''p1'' ''a'' plugin_memory =
      (Inr (Some (hd (mem_pods plugin_memory))), plugin_memory)"
    by (simp add: GetPod_def plugin_memory_def memory_api_def)
  moreover have "setup_args sample_quantities plugin_node (\<lambda>_. n_vnids plugin_node) ''p1'' ''c1'' (hd (mem_pods plugin_memory)) \<noteq> None"
    by (simp add: setup_args_def extractBandwidthResources_def annotated_bandwidth_def parseAndValidateBandwidth_def
        minRsrc_def maxRsrc_def sample_quantities_def plugin_memory_def wantsMacvlan_def
        IngressBandwidthAnnotation_def EgressBandwidthAnnotation_def AssignMacVlanAnnotation_def split: sum.splits)
  ultimately have "?r \<noteq> None" by (auto simp: SetUpPod_def split: sum.splits prod.splits)
  then obtain e w' st' where r: "?r = Some (e, w', st')" by auto
  have "st' = exec_init \<and> e \<noteq> None \<or> (\<exists>args. hist st' = [Run (''openshift-sdn-ovs'', ''setup'' # ''c1'' # args)])"
    using SetUpPod_runs_script [OF r] by (elim disjE conjE exE) simp_all
  with r show ?thesis by blast
qed

section \<open>What is reported of a failed script\<close>

lemma HasPrefix_plus:
  "\<not> HasPrefix l ''+'' \<Longrightarrow> \<not> HasPrefix l ''+ exit''" "\<not> HasPrefix l ''+'' \<Longrightarrow> \<not> HasPrefix l ''+ echo''"
  by (cases l; auto simp: HasPrefix_def)+

lemma script_loop_skip:
  assumes "\<And>j. j < k \<Longrightarrow> \<not> HasPrefix (lines ! (m + j)) ''+''"
  shows "script_loop lines stop (m + k) = script_loop lines stop m"
  using assms
proof (induction k)
  case (Suc k)
  from Suc.prems [of k] have "\<not> HasPrefix (lines ! (m + k)) ''+''" by simp
  with Suc HasPrefix_plus show ?case by simp
qed simp

lemma HasPrefix_self [simp]: "HasPrefix (p @ s) p"
  by (simp add: HasPrefix_def)

lemma HasPrefix_literals:
  "HasPrefix (''+ echo'' @ s) ''+ echo''" "\<not> HasPrefix (''+ echo'' @ s) ''+ exit''" "HasPrefix (''+ exit'' @ s) ''+ exit''"
  by (simp_all add: HasPrefix_def)

lemma last_command:
  assumes "\<forall>l\<in>set after. \<not> HasPrefix l ''+''"
    and "HasPrefix cmd ''+''" "\<not> HasPrefix cmd ''+ exit''" "\<not> HasPrefix cmd ''+ echo''"
  shows "script_loop (before @ cmd # after) stop (length (before @ cmd # after)) = Some (Join (cmd # after) newline)"
proof -
  have "script_loop (before @ cmd # after) stop (Suc (length before) + length after) =
      script_loop (before @ cmd # after) stop (Suc (length before))"
    by (rule script_loop_skip) (use assms(1) in \<open>auto simp: nth_append\<close>)
  with assms(2-4) show ?thesis by simp
qed

lemma last_echo:
  assumes "\<forall>l\<in>set text \<union> set after. \<not> HasPrefix l ''+''" and "HasPrefix ex ''+ exit''"
    and "HasPrefix ec ''+ echo''" "\<not> HasPrefix ec ''+ exit''"
  shows "script_loop (before @ ec # text @ ex # after) stop (length (before @ ec # text @ ex # after)) = Some (Join text newline)"
proof -
  let ?ls = "before @ ec # text @ ex # after" and ?m = "Suc (length before)" and ?n = "Suc (length before + length text)"
  have n: "?ls ! ?n = ex" by (simp add: nth_append)
  have "script_loop ?ls stop (Suc ?n + length after) = script_loop ?ls stop (Suc ?n)"
    by (rule script_loop_skip) (use assms(1) in \<open>auto simp: nth_append\<close>)
  also have "\<dots> = script_loop ?ls ?n ?n"
    using assms(2) n by (simp only: script_loop.simps if_True)
  also have "script_loop ?ls ?n ?n = script_loop ?ls ?n (?m + length text)" by simp
  also have "\<dots> = script_loop ?ls ?n ?m"
    by (rule script_loop_skip) (use assms(1) in \<open>auto simp: nth_append\<close>)
  also have "\<dots> = Some (Join text newline)" using assms(3,4) by simp
  finally have "script_loop ?ls stop (Suc ?n + length after) = Some (Join text newline)" .
  moreover have "length ?ls = Suc ?n + length after" by simp
  ultimately show ?thesis by (simp only:)
qed

text \<open>
  The error text of a failed script. With \<open>set -x\<close> every command is printed behind a plus sign.
  If the last command is neither an exit nor an echo, the text is that command with all its
  output; if the script ended with an echo and an exit, the text is what was echoed; and if there
  is no command at all, the text is all the output.
\<close>

lemma getScriptError_last_command:
  assumes "\<forall>l\<in>set before \<union> set text \<union> set after. CHR 0x0A \<notin> set l"
    and "\<forall>l\<in>set text \<union> set after. \<not> HasPrefix l ''+''"
    and "CHR 0x0A \<notin> set cmd" and "CHR 0x0A \<notin> set code"
  shows "(HasPrefix cmd ''+'' \<and> \<not> HasPrefix cmd ''+ exit'' \<and> \<not> HasPrefix cmd ''+ echo'' \<longrightarrow>
      getScriptError (Join (before @ [cmd] @ after) newline) = Join (cmd # after) newline)
    \<and> getScriptError (Join (before @ [''+ echo'' @ cmd] @ text @ [''+ exit'' @ code] @ after) newline) = Join text newline
    \<and> (after \<noteq> [] \<longrightarrow> getScriptError (Join after newline) = Join after newline)"
proof (intro conjI impI)
  note s = assms(1) [rule_format] assms(3,4)
  assume c: "HasPrefix cmd ''+'' \<and> \<not> HasPrefix cmd ''+ exit'' \<and> \<not> HasPrefix cmd ''+ echo''"
  have sp: "Split (Join (before @ cmd # after) newline) newline = before @ cmd # after"
    unfolding newline_def by (rule Split_Join) (use s in auto)
  with last_command [of after cmd before] assms(2) c
  show "getScriptError (Join (before @ [cmd] @ after) newline) = Join (cmd # after) newline"
    by (simp add: getScriptError_def)
next
  note s = assms(1) [rule_format] assms(3,4)
  let ?ec = "''+ echo'' @ cmd" and ?ex = "''+ exit'' @ code"
  have sp: "Split (Join (before @ ?ec # text @ ?ex # after) newline) newline = before @ ?ec # text @ ?ex # after"
    unfolding newline_def by (rule Split_Join) (use s in auto)
  have "script_loop (before @ ?ec # text @ ?ex # after) stop (length (before @ ?ec # text @ ?ex # after)) =
      Some (Join text newline)" for stop
    by (rule last_echo) (use assms(2) HasPrefix_literals in auto)
  with sp show "getScriptError (Join (before @ [?ec] @ text @ [?ex] @ after) newline) = Join text newline"
    by (simp add: getScriptError_def)
next
  assume a: "after \<noteq> []"
  have sp: "Split (Join after newline) newline = after"
    unfolding newline_def by (rule Split_Join) (use assms(1) a in auto)
  have "script_loop after (length after) (0 + length after) = script_loop after (length after) 0"
    by (rule script_loop_skip) (use assms(2) in auto)
  with sp show "getScriptError (Join after newline) = Join after newline" by (simp add: getScriptError_def)
qed

lemma getScriptError_last_command_witness:
  "getScriptError (Join [''+ ip link'', ''+ echo no'', ''no address'', ''+ exit 1''] newline) = ''no address''
   \<and> getScriptError (Join [''+ ip link'', ''+ brctl x'', ''no bridge''] newline) = Join [''+ brctl x'', ''no bridge''] newline"
  using getScriptError_last_command [of "[''+ ip link'']" "[''no address'']" "[]" "'' no''" "'' 1''"]
    getScriptError_last_command [of "[''+ ip link'']" "[]" "[''no bridge'']" "''+ brctl x''" "'' 1''"]
  by (simp add: HasPrefix_def)

end
