(* ===== verification/SubnetNode.thy ===== *)
theory SubnetNode
  imports Plugin
begin

text \<open>
  The node's side of \<open>plugins/osdn/subnets.go\<close>: a node waits for the subnet the master gives it,
  sets its host up for it, and follows the subnets of the other nodes with rules in its bridge.
\<close>

section \<open>The model\<close>

text \<open>
  The first look for the subnet, and the looks after failed ones; \<open>n\<close> are left. The last error
  stays.
\<close>

fun retry_subnet ::
  "'w api \<Rightarrow> string \<Rightarrow> nat \<Rightarrow> (error + HostSubnet) \<times> 'w \<Rightarrow> (error + HostSubnet) \<times> 'w" where
  "retry_subnet api hostName n (Inr subnet, w) = (Inr subnet, w)"
| "retry_subnet api hostName 0 (Inl err, w) = (Inl err, w)"
| "retry_subnet api hostName (Suc n) (Inl err, w) = retry_subnet api hostName n (GetSubnet api hostName w)"

definition initSelfSubnet :: "'w api \<Rightarrow> OsdnNode \<Rightarrow> 'w \<Rightarrow> error option \<times> OsdnNode \<times> 'w" where
  "initSelfSubnet api node w =
     (case retry_subnet api (n_hostName node) 59 (GetSubnet api (n_hostName node) w) of
        (Inl err, w1) \<Rightarrow> (Some (Errorf ''Failed to get subnet for this host: %s, error: %v'' [err]), node, w1)
      | (Inr subnet, w1) \<Rightarrow>
          (case ValidateNodeIP api (hs_HostIP subnet) (n_registry node) w1 of
             (Some err, registry1, w2) \<Rightarrow>
               (Some (Errorf ''Failed to validate own HostSubnet: %v'' [err]), node\<lparr>n_registry := registry1\<rparr>, w2)
           | (None, registry1, w2) \<Rightarrow>
               (None, node\<lparr>n_registry := registry1, n_localSubnet := Some subnet\<rparr>, w2)))"

definition SubnetStartNode ::
  "'w api \<Rightarrow> os \<Rightarrow> nat \<Rightarrow> OsdnNode \<Rightarrow> 'w \<Rightarrow> execState
     \<Rightarrow> ((bool \<times> error option) \<times> OsdnNode \<times> 'w \<times> execState) option" where
  "SubnetStartNode api os mtu node w st =
     (case initSelfSubnet api node w of
        (Some err, node1, w1) \<Rightarrow> Some ((False, Some err), node1, w1, st)
      | (None, node1, w1) \<Rightarrow>
          (case GetNetworkInfo api (n_registry node1) w1 of
             (Inl err, registry1, w2) \<Rightarrow> Some ((False, Some err), node1\<lparr>n_registry := registry1\<rparr>, w2, st)
           | (Inr ni, registry1, w2) \<Rightarrow>
               do { let node2 = node1\<lparr>n_registry := registry1\<rparr>;
                    subnet \<leftarrow> n_localSubnet node2;
                    ((changed, err), st1) \<leftarrow> SetupSDN os node2 (hs_Subnet subnet) (IPNet_String (ni_ClusterNetwork ni))
                                              (IPNet_String (ni_ServiceNetwork ni)) mtu st;
                    Some ((if err = None then changed else False, err), node2, w2, st1) }))"

text \<open>
  One turn of the loop of \<open>watchSubnets\<close>. Its state is the map of the subnets whose rules were
  added, the node, the world and the host; a failed queue makes the function start again with an
  empty map.
\<close>

type_synonym 'w subnets_state = "(string \<rightharpoonup> HostSubnet) \<times> OsdnNode \<times> 'w \<times> execState"

text \<open>The rules of the subnet an event replaces; an error is only logged.\<close>

definition drop_old_subnet :: "os \<Rightarrow> HostSubnet option \<Rightarrow> execState \<Rightarrow> execState option" where
  "drop_old_subnet os old st =
     (case old of None \<Rightarrow> Some st | Some oldSubnet \<Rightarrow> map_option snd (DeleteHostSubnetRules os oldSubnet st))"

fun watchSubnets ::
  "'w api \<Rightarrow> os \<Rightarrow> HostSubnet event \<Rightarrow> 'w subnets_state \<Rightarrow> 'w subnets_state option" where
  "watchSubnets api os (QueueFailed err) (subnets, node, w, st) = Some (Map.empty, node, w, st)"
| "watchSubnets api os (Event t hs) (subnets, node, w, st) =
     (if hs_HostIP hs = n_localIP node then Some (subnets, node, w, st)
      else if t = Added \<or> t = Modified then
        (let old = subnets (hs_UID hs)
         in if map_option hs_HostIP old = Some (hs_HostIP hs) then Some (subnets, node, w, st)
            else do {
              st1 \<leftarrow> drop_old_subnet os old st;
              (case ValidateNodeIP api (hs_HostIP hs) (n_registry node) w of
                 (Some err, registry1, w1) \<Rightarrow> Some (subnets, node\<lparr>n_registry := registry1\<rparr>, w1, st1)
               | (None, registry1, w1) \<Rightarrow>
                   do { (err, st2) \<leftarrow> AddHostSubnetRules os hs st1;
                        Some (if err = None then subnets(hs_UID hs \<mapsto> hs) else subnets,
                              node\<lparr>n_registry := registry1\<rparr>, w1, st2) }) })
      else if t = Deleted then
        do { (err, st1) \<leftarrow> DeleteHostSubnetRules os hs st;
             Some (subnets(hs_UID hs := None), node, w, st1) }
      else Some (subnets, node, w, st))"

end
