(* ===== verification/VnidNode.thy ===== *)
theory VnidNode
  imports SubnetNode MemoryApi
begin

text \<open>
  The node's side of \<open>plugins/osdn/vnids.go\<close>: a node follows the network ids of the namespaces, and
  keeps the rules of its pods and of the services in step with them. The loops over network
  namespaces and over services run at the same time and share the table of ids: the table a
  service loop waits on is given for each of its looks, while the loop over the network
  namespaces is the only one that writes it and so sees it constant.
\<close>

section \<open>The model\<close>

definition GetLocalPods :: "'w api \<Rightarrow> OsdnNode \<Rightarrow> string \<Rightarrow> ('w, Pod list) call" where
  "GetLocalPods api node namespace = GetRunningPods api (n_hostName node) namespace"

definition VnidStartNode :: "'w api \<Rightarrow> OsdnNode \<Rightarrow> 'w \<Rightarrow> error option \<times> OsdnNode \<times> 'w" where
  "VnidStartNode api node w =
     (case PopulateVNIDs api (n_vnids node) w of
        (err, vmap, w1) \<Rightarrow> (err, node\<lparr>n_vnids := vmap\<rparr>, w1))"

text \<open>The loop over the pods returns at the first error.\<close>

fun update_pods :: "os \<Rightarrow> OsdnNode \<Rightarrow> Pod list \<Rightarrow> execState \<Rightarrow> error option \<times> execState" where
  "update_pods os node [] st = (None, st)"
| "update_pods os node (pod # pods) st =
     (case UpdatePod os node (\<lambda>_. n_vnids node) (pod_Namespace pod) (getPodContainerID pod) st of
        (Some err, st1) \<Rightarrow> (Some err, st1)
      | (None, st1) \<Rightarrow> update_pods os node pods st1)"

text \<open>The loop over the services collects the errors of the additions.\<close>

fun update_services ::
  "os \<Rightarrow> OsdnNode \<Rightarrow> u64 \<Rightarrow> Service list \<Rightarrow> error list \<Rightarrow> execState \<Rightarrow> (error list \<times> execState) option" where
  "update_services os node netID [] errList st = Some (errList, st)"
| "update_services os node netID (svc # services) errList st =
     do { (_, st1) \<leftarrow> DeleteServiceRules os node svc st;
          (err, st2) \<leftarrow> AddServiceRules os node svc netID st1;
          update_services os node netID services (errList @ (case err of None \<Rightarrow> [] | Some e \<Rightarrow> [e])) st2 }"

definition updatePodNetwork ::
  "'w api \<Rightarrow> os \<Rightarrow> OsdnNode \<Rightarrow> string \<Rightarrow> u64 \<Rightarrow> 'w \<Rightarrow> execState \<Rightarrow> (error option \<times> 'w \<times> execState) option" where
  "updatePodNetwork api os node namespace netID w st =
     (case GetLocalPods api node namespace w of
        (Inl err, w1) \<Rightarrow> Some (Some err, w1, st)
      | (Inr pods, w1) \<Rightarrow>
          (case update_pods os node pods st of
             (Some err, st1) \<Rightarrow> Some (Some err, w1, st1)
           | (None, st1) \<Rightarrow>
               (case GetServicesForNamespace api namespace w1 of
                  (Inl err, w2) \<Rightarrow> Some (Some err, w2, st1)
                | (Inr services, w2) \<Rightarrow>
                    do { (errList, st2) \<leftarrow> update_services os node netID services [] st1;
                         Some (NewAggregate errList, w2, st2) })))"

text \<open>One turn of the loop of \<open>watchNetNamespaces\<close>.\<close>

type_synonym 'w node_state = "OsdnNode \<times> 'w \<times> execState"

fun watchNetNamespaces ::
  "'w api \<Rightarrow> os \<Rightarrow> NetNamespace event \<Rightarrow> 'w node_state \<Rightarrow> 'w node_state option" where
  "watchNetNamespaces api os (QueueFailed err) (node, w, st) = Some (node, w, st)"
| "watchNetNamespaces api os (Event t netns) (node, w, st) =
     (if t = Added \<or> t = Modified then
        (let (oldNetID, err) = GetVNID (nn_NetName netns) (n_vnids node)
         in if err = None \<and> oldNetID = nn_NetID netns then Some (node, w, st)
            else do {
              let node1 = node\<lparr>n_vnids := SetVNID (nn_NetName netns) (nn_NetID netns) (n_vnids node)\<rparr>;
              (err, w1, st1) \<leftarrow> updatePodNetwork api os node1 (nn_NetName netns) (nn_NetID netns) w st;
              Some (if err = None then node1
                    else node1\<lparr>n_vnids := SetVNID (nn_NetName netns) oldNetID (n_vnids node1)\<rparr>, w1, st1) })
      else if t = Deleted then
        do { (err, w1, st1) \<leftarrow> updatePodNetwork api os node (nn_NetName netns) AdminVNID w st;
             Some (node\<lparr>n_vnids := snd (UnsetVNID (nn_NetName netns) (n_vnids node))\<rparr>, w1, st1) }
      else Some (node, w, st))"

section \<open>Services\<close>

text \<open>The ports at the positions \<open>i\<close>, \<open>i + 1\<close> and on of two lists of the same length.\<close>

fun ports_differ :: "ServicePort list \<Rightarrow> ServicePort list \<Rightarrow> bool" where
  "ports_differ (p # ps) (q # qs) =
     (if sp_Protocol p \<noteq> sp_Protocol q \<or> sp_Port p \<noteq> sp_Port q then True else ports_differ ps qs)"
| "ports_differ _ _ = False"

definition isServiceChanged :: "Service \<Rightarrow> Service \<Rightarrow> bool" where
  "isServiceChanged oldsvc newsvc =
     (if length (svc_Ports oldsvc) = length (svc_Ports newsvc)
      then ports_differ (svc_Ports oldsvc) (svc_Ports newsvc) else True)"

text \<open>
  One turn of the loop of \<open>watchServices\<close>. Its state is the map of the services whose rules were
  added, and the host; \<open>tries\<close> is the table of ids at each look for the id of the namespace.
\<close>

type_synonym services_state = "(string \<rightharpoonup> Service) \<times> execState"

definition drop_old_service :: "os \<Rightarrow> OsdnNode \<Rightarrow> Service option \<Rightarrow> execState \<Rightarrow> execState option" where
  "drop_old_service os node old st =
     (case old of None \<Rightarrow> Some st | Some oldsvc \<Rightarrow> map_option snd (DeleteServiceRules os node oldsvc st))"

fun watchServices ::
  "'w api \<Rightarrow> os \<Rightarrow> OsdnNode \<Rightarrow> (nat \<Rightarrow> vnidMap) \<Rightarrow> Service event \<Rightarrow> services_state \<Rightarrow> services_state option" where
  "watchServices api os node tries (QueueFailed err) (services, st) = Some (Map.empty, st)"
| "watchServices api os node tries (Event t serv) (services, st) =
     (if \<not> IsServiceIPSet api serv then Some (services, st)
      else if t = Added \<or> t = Modified then
        (let old = services (svc_UID serv)
         in if (case old of None \<Rightarrow> False | Some oldsvc \<Rightarrow> \<not> isServiceChanged oldsvc serv)
            then Some (services, st)
            else do {
              st1 \<leftarrow> drop_old_service os node old st;
              (case WaitAndGetVNID (svc_Namespace serv) tries of
                 (netid, Some err) \<Rightarrow> Some (services, st1)
               | (netid, None) \<Rightarrow>
                   do { (err, st2) \<leftarrow> AddServiceRules os node serv netid st1;
                        Some (if err = None then services(svc_UID serv \<mapsto> serv) else services, st2) }) })
      else if t = Deleted then
        do { (err, st1) \<leftarrow> DeleteServiceRules os node serv st;
             Some (services(svc_UID serv := None), st1) }
      else Some (services, st))"

section \<open>The table of the node\<close>

text \<open>
  What becomes of the id of the namespace of an event: the new id, if it was there already or if
  the pods and services could be updated; otherwise what the lookup had given, which is no valid
  id when there was none.
\<close>

definition table_after ::
  "'w api \<Rightarrow> os \<Rightarrow> event_type \<Rightarrow> NetNamespace \<Rightarrow> 'w node_state \<Rightarrow> string \<rightharpoonup> u64" where
  "table_after api os t netns = (\<lambda>(node, w, st).
     let m = map_of (n_vnids node); k = nn_NetName netns; v = nn_NetID netns;
         ok = (\<exists>w1 st1. updatePodNetwork api os (node\<lparr>n_vnids := SetVNID k v (n_vnids node)\<rparr>) k v w st = Some (None, w1, st1))
     in if t = Added \<or> t = Modified then m(k \<mapsto> if m k = Some v \<or> ok then v else case m k of None \<Rightarrow> MaxVNID + 1 | Some old \<Rightarrow> old)
        else if t = Deleted then m(k := None)
        else m)"

lemma watchNetNamespaces_table:
  assumes "watchNetNamespaces api os (Event t netns) (node, w, st) = Some (node', w', st')"
  shows "map_of (n_vnids node') = table_after api os t netns (node, w, st)"
proof -
  let ?k = "nn_NetName netns" and ?v = "nn_NetID netns"
  consider (put) "t = Added \<or> t = Modified" | (del) "t = Deleted" | (other) "t = OtherType" by (cases t) auto
  then show ?thesis
  proof cases
    case put
    show ?thesis
    proof (cases "map_of (n_vnids node) ?k = Some ?v")
      case True
      with put assms show ?thesis by (auto simp: table_after_def GetVNID_def Let_def fun_upd_idem)
    next
      case False
      let ?node = "node\<lparr>n_vnids := SetVNID ?k ?v (n_vnids node)\<rparr>"
      obtain old e where g: "GetVNID ?k (n_vnids node) = (old, e)" by fastforce
      then have old: "old = (case map_of (n_vnids node) ?k of None \<Rightarrow> MaxVNID + 1 | Some old \<Rightarrow> old)"
        "e = None \<longleftrightarrow> map_of (n_vnids node) ?k \<noteq> None"
        by (auto simp: GetVNID_def split: option.splits)
      from False old have "\<not> (e = None \<and> old = ?v)" by auto
      with put assms g obtain err where u: "updatePodNetwork api os ?node ?k ?v w st = Some (err, w', st')"
        "node' = (if err = None then ?node else ?node\<lparr>n_vnids := SetVNID ?k old (n_vnids ?node)\<rparr>)"
        by (auto simp: Let_def bind_eq_Some_conv)
      with put False old show ?thesis
        by (cases err) (auto simp: table_after_def SetVNID_def Let_def)
    qed
  next
    case del
    with assms show ?thesis
      by (auto simp: table_after_def bind_eq_Some_conv UnsetVNID_def fun_upd_idem split: option.splits)
  next
    case other
    with assms show ?thesis by (auto simp: table_after_def)
  qed
qed

text \<open>The pods that a change of the id reaches.\<close>

lemma update_pods_ok:
  assumes "update_pods os node pods st = (None, st')" and "n_multitenant node"
    and "\<forall>pod\<in>set pods. map_of (n_vnids node) (pod_Namespace pod) = Some v"
  shows "hist st' = hist st @ map (\<lambda>pod. Run (''openshift-sdn-ovs'', [''update'', getPodContainerID pod, itod (unat v)])) pods"
  using assms
proof (induction pods arbitrary: st)
  case (Cons pod pods)
  from Cons.prems obtain st1 where u: "UpdatePod os node (\<lambda>_. n_vnids node) (pod_Namespace pod) (getPodContainerID pod) st = (None, st1)"
    "update_pods os node pods st1 = (None, st')"
    by (auto split: prod.splits option.splits)
  have "wait_loop i (Suc n) (pod_Namespace pod) (\<lambda>_. n_vnids node) = (v, None)" for i n
    using Cons.prems(3) by (simp add: GetVNID_def)
  then have "getVNID node (\<lambda>_. n_vnids node) (pod_Namespace pod) = Inr (itod (unat v))"
    using Cons.prems(2) by (simp add: getVNID_def WaitAndGetVNID_def eval_nat_numeral del: wait_loop.simps)
  with u(1) have "hist st1 = hist st @ [Run (''openshift-sdn-ovs'', [''update'', getPodContainerID pod, itod (unat v)])]"
    by (auto simp: UpdatePod_def CombinedOutput_def getExecutable_def updateCmd_def Let_def split: prod.splits)
  with Cons.IH [OF u(2)] Cons.prems(2,3) show ?case by simp
qed simp

section \<open>Services\<close>

lemma ports_differ_iff:
  "length ps = length qs \<Longrightarrow> ports_differ ps qs \<longleftrightarrow>
     map (\<lambda>p. (sp_Protocol p, sp_Port p)) ps \<noteq> map (\<lambda>p. (sp_Protocol p, sp_Port p)) qs"
  by (induction ps qs rule: ports_differ.induct) auto

lemma isServiceChanged_iff:
  "isServiceChanged old new \<longleftrightarrow>
     map (\<lambda>p. (sp_Protocol p, sp_Port p)) (svc_Ports old) \<noteq> map (\<lambda>p. (sp_Protocol p, sp_Port p)) (svc_Ports new)"
  by (auto simp: isServiceChanged_def ports_differ_iff dest: arg_cong [where f = length])

section \<open>Properties\<close>

text \<open>
  C10: the node's table after an event is the one described above. In particular, when the rules for
  a namespace the node does not know cannot be updated, the node keeps the number behind the
  largest VXLAN id as the id of that namespace, and from then on hands it out without an error.
\<close>

theorem node_table_follows_events:
  assumes "watchNetNamespaces api os (Event t netns) (node, w, st) = Some (node', w', st')"
  shows "map_of (n_vnids node') = table_after api os t netns (node, w, st)
    \<and> (t = Added \<and> map_of (n_vnids node) (nn_NetName netns) = None
        \<and> (\<forall>w1 st1. updatePodNetwork api os (node\<lparr>n_vnids := SetVNID (nn_NetName netns) (nn_NetID netns) (n_vnids node)\<rparr>)
             (nn_NetName netns) (nn_NetID netns) w st \<noteq> Some (None, w1, st1))
        \<and> n_multitenant node'
       \<longrightarrow> getVNID node' (\<lambda>_. n_vnids node') (nn_NetName netns) = Inr ''16777216'')"
proof (intro conjI impI)
  show t: "map_of (n_vnids node') = table_after api os t netns (node, w, st)"
    by (rule watchNetNamespaces_table [OF assms])
  assume a: "t = Added \<and> map_of (n_vnids node) (nn_NetName netns) = None
        \<and> (\<forall>w1 st1. updatePodNetwork api os (node\<lparr>n_vnids := SetVNID (nn_NetName netns) (nn_NetID netns) (n_vnids node)\<rparr>)
             (nn_NetName netns) (nn_NetID netns) w st \<noteq> Some (None, w1, st1)) \<and> n_multitenant node'"
  then have "map_of (n_vnids node') (nn_NetName netns) = Some (MaxVNID + 1)"
    by (simp add: t table_after_def Let_def)
  then have "wait_loop i (Suc n) (nn_NetName netns) (\<lambda>_. n_vnids node') = (MaxVNID + 1, None)" for i n
    by (simp add: GetVNID_def)
  then have "getVNID node' (\<lambda>_. n_vnids node') (nn_NetName netns) = Inr (itod (unat (MaxVNID + 1)))"
    using a by (simp add: getVNID_def WaitAndGetVNID_def eval_nat_numeral del: wait_loop.simps)
  also have "itod (unat (MaxVNID + 1)) = ''16777216''" by (simp add: MaxVNID_def str_simps)
  finally show "getVNID node' (\<lambda>_. n_vnids node') (nn_NetName netns) = Inr ''16777216''" .
qed

text \<open>A server that cannot list pods.\<close>

definition podless_api :: "memory api" where
  "podless_api = memory_api\<lparr>Pods_List := \<lambda>ns sel w. (Inl (Foreign ''timeout''), w)\<rparr>"

theorem node_table_follows_events_witness:
  "\<exists>node'. watchNetNamespaces podless_api (table_host (\<lambda>c. ([], None))) (Event Added (netns_object ''p2'' 11)) (plugin_node, empty_memory, exec_init)
       = Some (node', empty_memory, exec_init)
     \<and> getVNID node' (\<lambda>_. n_vnids node') ''p2'' = Inr ''16777216''"
proof -
  have u: "updatePodNetwork podless_api os node ns v w st = Some (Some (Foreign ''timeout''), w, st)" for os node ns v w st
    by (simp add: updatePodNetwork_def GetLocalPods_def GetRunningPods_def podless_api_def)
  let ?n = "plugin_node\<lparr>n_vnids := SetVNID ''p2'' (MaxVNID + 1) (SetVNID ''p2'' 11 (n_vnids plugin_node))\<rparr>"
  have s: "watchNetNamespaces podless_api (table_host (\<lambda>c. ([], None))) (Event Added (netns_object ''p2'' 11)) (plugin_node, empty_memory, exec_init)
       = Some (?n, empty_memory, exec_init)"
    by (simp add: u netns_object_def GetVNID_def plugin_node_def Let_def)
  with node_table_follows_events [OF s] show ?thesis
    by (simp add: u netns_object_def plugin_node_def)
qed

text \<open>
  C11: when a namespace gets another id and the node reports no failure, the script has been run once
  for each of the node's running pods of the namespace, in order and with the new id, before
  anything else.
\<close>

theorem netid_change_reaches_pods:
  assumes "updatePodNetwork api os (node\<lparr>n_vnids := SetVNID ns v (n_vnids node)\<rparr>) ns v w st = Some (None, w', st')"
    and "n_multitenant node"
    and "\<And>w1 pods. GetRunningPods api (n_hostName node) ns w = (Inr pods, w1) \<Longrightarrow> \<forall>pod\<in>set pods. pod_Namespace pod = ns"
  shows "\<exists>pods w1 st1. GetRunningPods api (n_hostName node) ns w = (Inr pods, w1)
    \<and> hist st1 = hist st @ map (\<lambda>pod. Run (''openshift-sdn-ovs'', [''update'', getPodContainerID pod, itod (unat v)])) pods
    \<and> (\<exists>services w2. GetServicesForNamespace api ns w1 = (Inr services, w2)
         \<and> update_services os (node\<lparr>n_vnids := SetVNID ns v (n_vnids node)\<rparr>) v services [] st1 = Some ([], st'))"
proof -
  let ?node = "node\<lparr>n_vnids := SetVNID ns v (n_vnids node)\<rparr>"
  obtain r w1 where g: "GetRunningPods api (n_hostName node) ns w = (r, w1)" by fastforce
  with assms(1) obtain pods where r: "r = Inr pods" by (cases r) (auto simp: updatePodNetwork_def GetLocalPods_def)
  obtain e st1 where u: "update_pods os ?node pods st = (e, st1)" by fastforce
  with assms(1) g r have e: "e = None" by (cases e) (auto simp: updatePodNetwork_def GetLocalPods_def)
  have "hist st1 = hist st @ map (\<lambda>pod. Run (''openshift-sdn-ovs'', [''update'', getPodContainerID pod, itod (unat v)])) pods"
    by (rule update_pods_ok [OF u [unfolded e]]) (use assms(2) assms(3) [OF g [unfolded r]] in \<open>auto simp: SetVNID_def\<close>)
  moreover have "\<exists>services w2. GetServicesForNamespace api ns w1 = (Inr services, w2)
      \<and> update_services os ?node v services [] st1 = Some ([], st')"
    using assms(1) g r u e
    by (auto simp: updatePodNetwork_def GetLocalPods_def bind_eq_Some_conv split: sum.splits prod.splits)
  ultimately show ?thesis using g r by blast
qed

text \<open>A server that knows one running pod of \<open>p1\<close> on the node.\<close>

definition running_pod :: Pod where
  "running_pod =
     \<lparr>pod_Name = ''a'', pod_Namespace = ''p1'', pod_UID = ''u1'', pod_Annotations = Map.empty, pod_Containers = [],
      pod_Phase = PodRunning, pod_PodIP = ''10.1.0.2'', pod_ContainerIDs = [''docker://c1'']\<rparr>"

definition one_pod :: memory where
  "one_pod = empty_memory\<lparr>mem_pods := [running_pod]\<rparr>"

theorem netid_change_reaches_pods_witness:
  "\<exists>w' st' pods w1 (st1 :: execState). updatePodNetwork memory_api (table_host (\<lambda>c. ([], None)))
       (plugin_node\<lparr>n_vnids := SetVNID ''p1'' 12 (n_vnids plugin_node)\<rparr>) ''p1'' 12 one_pod exec_init = Some (None, w', st')
     \<and> GetRunningPods memory_api ''n1'' ''p1'' one_pod = (Inr pods, w1)
     \<and> hist st1 = map (\<lambda>pod. Run (''openshift-sdn-ovs'', [''update'', getPodContainerID pod, ''12''])) pods"
proof -
  let ?os = "table_host (\<lambda>c. ([], None))"
  have g: "GetRunningPods memory_api h ''p1'' one_pod = (Inr [running_pod], one_pod)" for h
    by (simp add: GetRunningPods_def memory_api_def one_pod_def empty_memory_def running_pod_def)
  have s: "GetServicesForNamespace memory_api ''p1'' one_pod = (Inr [], one_pod)"
    by (simp add: GetServicesForNamespace_def getServices_def memory_api_def one_pod_def empty_memory_def)
  have "wait_loop i (Suc n) ''p1'' (\<lambda>_. SetVNID ''p1'' 12 m) = (12, None)" for i n m
    by (simp add: GetVNID_def SetVNID_def)
  then have "WaitAndGetVNID ''p1'' (\<lambda>_. SetVNID ''p1'' 12 m) = (12, None)" for m
    by (simp add: WaitAndGetVNID_def eval_nat_numeral del: wait_loop.simps)
  then have v: "getVNID (plugin_node\<lparr>n_vnids := SetVNID ''p1'' 12 m\<rparr>) (\<lambda>_. SetVNID ''p1'' 12 m) ''p1'' = Inr ''12''" for m
    by (simp add: getVNID_def plugin_node_def str_simps)
  obtain st' where "update_pods ?os (plugin_node\<lparr>n_vnids := SetVNID ''p1'' 12 (n_vnids plugin_node)\<rparr>) [running_pod] exec_init = (None, st')"
    by (simp add: UpdatePod_def running_pod_def v CombinedOutput_def script_result_def isScriptError_def)
  then have u: "updatePodNetwork memory_api ?os (plugin_node\<lparr>n_vnids := SetVNID ''p1'' 12 (n_vnids plugin_node)\<rparr>) ''p1'' 12 one_pod exec_init
      = Some (None, one_pod, st')"
    by (simp add: updatePodNetwork_def GetLocalPods_def g s)
  have m: "n_multitenant plugin_node" and n: "n_hostName plugin_node = ''n1''" and h: "hist exec_init = []"
    by (simp_all add: plugin_node_def)
  have p: "\<forall>pod\<in>set pods. pod_Namespace pod = ''p1''"
    if "GetRunningPods memory_api (n_hostName plugin_node) ''p1'' one_pod = (Inr pods, w1)" for pods w1
    using that by (auto simp: g running_pod_def)
  have i: "itod (unat (12::u64)) = ''12''"
    by (simp add: str_simps)
  have "\<exists>pods w1 st1. GetRunningPods memory_api (n_hostName plugin_node) ''p1'' one_pod = (Inr pods, w1)
    \<and> hist st1 = hist exec_init @ map (\<lambda>pod. Run (''openshift-sdn-ovs'', [''update'', getPodContainerID pod, itod (unat (12::u64))])) pods
    \<and> (\<exists>services w2. GetServicesForNamespace memory_api ''p1'' w1 = (Inr services, w2)
         \<and> update_services ?os (plugin_node\<lparr>n_vnids := SetVNID ''p1'' 12 (n_vnids plugin_node)\<rparr>) 12 services [] st1 = Some ([], st'))"
    by (rule netid_change_reaches_pods [OF u m]) (rule p)
  then obtain pods w1 and st1 :: execState where r: "GetRunningPods memory_api ''n1'' ''p1'' one_pod = (Inr pods, w1)"
      "hist st1 = map (\<lambda>pod. Run (''openshift-sdn-ovs'', [''update'', getPodContainerID pod, ''12''])) pods"
    unfolding n h i append_Nil by blast
  show ?thesis
    by (intro exI conjI) (rule u r)+
qed


text \<open>A host whose first flow command works and whose others fail, and a service that changes its port.\<close>

definition one_flow_host :: os where
  "one_flow_host = (table_host (\<lambda>c. ([], None)))\<lparr>os_Run := \<lambda>h c. ([], if h = [] then None else Some ExitError)\<rparr>"

definition web :: "int \<Rightarrow> Service" where
  "web port = \<lparr>svc_Name = ''web'', svc_Namespace = ''p1'', svc_UID = ''s1'', svc_ClusterIP = ''172.30.0.9'',
     svc_Ports = [\<lparr>sp_Protocol = ''TCP'', sp_Port = port\<rparr>]\<rparr>"


end
