(* ===== verification/IPTables.thy ===== *)
theory IPTables
  imports Controller
begin

text \<open>
  \<open>plugins/osdn/node_iptables.go\<close>: the static rules of the host's firewall. The package that talks
  to iptables is a parameter: \<open>EnsureRule\<close> prepends a rule to a chain of a table when it is not
  there, and gives an error or not, in a world of its own. \<open>syncLoop\<close> and the reload function call
  \<open>syncIPTableRules\<close> again and again, one at a time because of the mutex, and log its errors: a run
  of them is \<open>sync_runs\<close>.
\<close>

section \<open>The model\<close>

record FirewallRule =
  rule_table :: string
  rule_chain :: string
  rule_args :: "string list"

record NodeIPTables =
  ipt_clusterNetworkCIDR :: string
  ipt_syncPeriod :: int

type_synonym 'w ensure_rule = "string \<Rightarrow> string \<Rightarrow> string list \<Rightarrow> 'w \<Rightarrow> error option \<times> 'w"

definition newNodeIPTables :: "string \<Rightarrow> int \<Rightarrow> NodeIPTables" where
  "newNodeIPTables clusterNetworkCIDR syncPeriod =
     \<lparr>ipt_clusterNetworkCIDR = clusterNetworkCIDR, ipt_syncPeriod = syncPeriod\<rparr>"

definition getStaticNodeIPTablesRules :: "NodeIPTables \<Rightarrow> FirewallRule list" where
  "getStaticNodeIPTablesRules n =
     [\<lparr>rule_table = ''nat'', rule_chain = ''POSTROUTING'',
       rule_args = [''-s'', ipt_clusterNetworkCIDR n, ''!'', ''-d'', ipt_clusterNetworkCIDR n, ''-j'', ''MASQUERADE'']\<rparr>,
      \<lparr>rule_table = ''filter'', rule_chain = ''INPUT'',
       rule_args = [''-p'', ''udp'', ''-m'', ''multiport'', ''--dports'', VXLAN_PORT, ''-m'', ''comment'', ''--comment'',
                    ''001 vxlan incoming'', ''-j'', ''ACCEPT'']\<rparr>,
      \<lparr>rule_table = ''filter'', rule_chain = ''INPUT'',
       rule_args = [''-i'', TUN, ''-m'', ''comment'', ''--comment'', ''traffic from docker for internet'', ''-j'', ''ACCEPT'']\<rparr>,
      \<lparr>rule_table = ''filter'', rule_chain = ''FORWARD'', rule_args = [''-d'', ipt_clusterNetworkCIDR n, ''-j'', ''ACCEPT'']\<rparr>,
      \<lparr>rule_table = ''filter'', rule_chain = ''FORWARD'', rule_args = [''-s'', ipt_clusterNetworkCIDR n, ''-j'', ''ACCEPT'']\<rparr>]"

fun ensure_rules :: "'w ensure_rule \<Rightarrow> FirewallRule list \<Rightarrow> 'w \<Rightarrow> error option \<times> 'w" where
  "ensure_rules ensure [] w = (None, w)"
| "ensure_rules ensure (rule # rules) w =
     (case ensure (rule_table rule) (rule_chain rule) (rule_args rule) w of
        (Some err, w1) \<Rightarrow> (Some (Errorf ''Failed to ensure rule %v exists: %v'' [err]), w1)
      | (None, w1) \<Rightarrow> ensure_rules ensure rules w1)"

definition syncIPTableRules :: "'w ensure_rule \<Rightarrow> NodeIPTables \<Rightarrow> 'w \<Rightarrow> error option \<times> 'w" where
  "syncIPTableRules ensure n w = ensure_rules ensure (getStaticNodeIPTablesRules n) w"

definition Setup :: "'w ensure_rule \<Rightarrow> NodeIPTables \<Rightarrow> 'w \<Rightarrow> error option \<times> 'w" where
  "Setup ensure n w = syncIPTableRules ensure n w"

text \<open>\<open>k\<close> ticks of the loop; between two of them anybody may change the tables.\<close>

fun syncLoop :: "'w ensure_rule \<Rightarrow> (nat \<Rightarrow> 'w \<Rightarrow> 'w) \<Rightarrow> NodeIPTables \<Rightarrow> nat \<Rightarrow> 'w \<Rightarrow> 'w" where
  "syncLoop ensure others n 0 w = w"
| "syncLoop ensure others n (Suc k) w =
     snd (syncIPTableRules ensure n (others k (syncLoop ensure others n k w)))"

section \<open>The rules are restored\<close>

text \<open>
  What the package documents of \<open>EnsureRule\<close>, with \<open>present\<close> the rules of a world: a rule is never
  removed, and a rule that was ensured without an error is there.
\<close>

definition ensures :: "'w ensure_rule \<Rightarrow> ('w \<Rightarrow> FirewallRule set) \<Rightarrow> bool" where
  "ensures ensure present \<longleftrightarrow>
     (\<forall>r w e w'. ensure (rule_table r) (rule_chain r) (rule_args r) w = (e, w') \<longrightarrow>
        present w \<subseteq> present w' \<and> (e = None \<longrightarrow> r \<in> present w'))"

lemma ensuresD:
  assumes "ensures ensure present" and "ensure (rule_table r) (rule_chain r) (rule_args r) w = (e, w')"
  shows "present w \<subseteq> present w'" and "e = None \<Longrightarrow> r \<in> present w'"
  using assms unfolding ensures_def by blast+

lemma ensure_rules_present:
  assumes "ensures ensure present" and "ensure_rules ensure rules w = (e, w')"
  shows "present w \<subseteq> present w' \<and> (e = None \<longrightarrow> set rules \<subseteq> present w')"
  using assms(2)
proof (induction rules arbitrary: w)
  case (Cons r rules)
  obtain e1 w1 where s: "ensure (rule_table r) (rule_chain r) (rule_args r) w = (e1, w1)" by fastforce
  with Cons ensuresD [OF assms(1) s] show ?case by (cases e1) fastforce+
qed simp

text \<open>
  C16: whatever other programs do to the tables between two ticks of the loop, after each tick that
  reports no error the five rules of the node are there, and no tick has removed a rule.
\<close>

theorem iptables_rules_restored:
  assumes "ensures ensure present" and "w1 = others k (syncLoop ensure others n k w)"
  shows "present w1 \<subseteq> present (syncLoop ensure others n (Suc k) w)
    \<and> (fst (syncIPTableRules ensure n w1) = None \<longrightarrow>
         set (getStaticNodeIPTablesRules n) \<subseteq> present (syncLoop ensure others n (Suc k) w)
         \<and> card (set (getStaticNodeIPTablesRules n)) = 5)"
proof -
  obtain e w2 where s: "ensure_rules ensure (getStaticNodeIPTablesRules n) w1 = (e, w2)" by fastforce
  have "card (set (getStaticNodeIPTablesRules n)) = 5"
    by (simp add: getStaticNodeIPTablesRules_def)
  moreover have "present w1 \<subseteq> present w2" "e = None \<Longrightarrow> set (getStaticNodeIPTablesRules n) \<subseteq> present w2"
    using ensure_rules_present [OF assms(1) s] by simp_all
  ultimately show ?thesis
    using s by (simp add: syncIPTableRules_def assms(2) [symmetric])
qed

text \<open>Tables that are lists of rules, and a program that flushes them.\<close>

definition list_ensure :: "FirewallRule list ensure_rule" where
  "list_ensure tab chain args w =
     (let r = \<lparr>rule_table = tab, rule_chain = chain, rule_args = args\<rparr>
      in (None, if r \<in> set w then w else r # w))"

lemma list_ensure_rule:
  "list_ensure (rule_table r) (rule_chain r) (rule_args r) w = (None, if r \<in> set w then w else r # w)"
  by (cases r) (simp add: list_ensure_def)

lemma list_ensures: "ensures list_ensure set"
  by (auto simp: ensures_def list_ensure_rule)

theorem iptables_rules_restored_witness:
  "set (getStaticNodeIPTablesRules (newNodeIPTables ''10.1.0.0/16'' 30))
     \<subseteq> set (syncLoop list_ensure (\<lambda>_ _. []) (newNodeIPTables ''10.1.0.0/16'' 30) (Suc 2) [])"
proof -
  have "fst (ensure_rules list_ensure rules w) = None" for rules w
    by (induction rules arbitrary: w) (simp_all add: list_ensure_def Let_def)
  with iptables_rules_restored [OF list_ensures refl, of "\<lambda>_ _. []" 2 "newNodeIPTables ''10.1.0.0/16'' 30" "[]"]
  show ?thesis by (simp add: syncIPTableRules_def)
qed

end
