(* ===== verification/NodeMain.thy ===== *)
theory NodeMain
  imports VnidNode IPTables
begin

text \<open>
  \<open>plugins/osdn/node.go\<close>: the construction and the start of a node. The start runs the parts of the
  node one after another and returns at the first error; only when all has gone well is the pod
  network marked as ready, and pods are set up. The channel may be closed once only.
\<close>

section \<open>The model\<close>

text \<open>\<open>strings.TrimSpace\<close> on ASCII text, as \<open>uname\<close> prints it.\<close>

definition is_space :: "char \<Rightarrow> bool" where
  "is_space c \<longleftrightarrow> c \<in> {CHR 0x09, CHR 0x0A, CHR 0x0B, CHR 0x0C, CHR 0x0D, CHR '' ''}"

definition TrimSpace :: "string \<Rightarrow> string" where
  "TrimSpace s = rev (dropWhile is_space (rev (dropWhile is_space s)))"

definition resolve_hostname :: "os \<Rightarrow> string \<Rightarrow> execState \<Rightarrow> (error + string) \<times> execState" where
  "resolve_hostname os hostname st =
     (if hostname = '''' then
        (case CombinedOutput os ''uname'' [''-n''] st of
           ((output, Some err), st1) \<Rightarrow> (Inl err, st1)
         | ((output, None), st1) \<Rightarrow> (Inr (TrimSpace output), st1))
      else (Inr hostname, st))"

text \<open>\<open>kubeutilnet.ChooseHostInterface\<close> is the parameter \<open>chooseHostInterface\<close>.\<close>

definition resolve_selfIP ::
  "(string \<Rightarrow> error + IP list) \<Rightarrow> error + IP \<Rightarrow> string \<Rightarrow> string \<Rightarrow> error + string" where
  "resolve_selfIP lookupIP chooseHostInterface hostname selfIP =
     (if selfIP = '''' then
        (case GetNodeIP lookupIP hostname of
           Inr ip \<Rightarrow> Inr ip
         | Inl err \<Rightarrow>
             (case chooseHostInterface of
                Inl err \<Rightarrow> Inl err
              | Inr defaultIP \<Rightarrow> Inr (IP_String defaultIP)))
      else Inr selfIP)"

definition NewNodePlugin ::
  "os \<Rightarrow> (string \<Rightarrow> error + IP list) \<Rightarrow> error + IP \<Rightarrow> string \<Rightarrow> string \<Rightarrow> string \<Rightarrow> int \<Rightarrow> nat \<Rightarrow> execState
     \<Rightarrow> (error + OsdnNode option) \<times> execState" where
  "NewNodePlugin os lookupIP chooseHostInterface pluginName hostname selfIP iptablesSyncPeriod mtu st =
     (if \<not> IsOpenShiftNetworkPlugin pluginName then (Inr None, st)
      else case resolve_hostname os hostname st of
             (Inl err, st1) \<Rightarrow> (Inl err, st1)
           | (Inr hostname1, st1) \<Rightarrow>
               (case resolve_selfIP lookupIP chooseHostInterface hostname1 selfIP of
                  Inl err \<Rightarrow> (Inl err, st1)
                | Inr selfIP1 \<Rightarrow>
                    (Inr (Some
                       \<lparr>n_multitenant = IsOpenShiftMultitenantNetworkPlugin pluginName,
                        n_registry = newRegistry, n_localIP = selfIP1, n_localSubnet = None,
                        n_hostName = hostname1, n_podNetworkReady = False, n_vnids = newVnidMap,
                        n_iptablesSyncPeriod = iptablesSyncPeriod, n_mtu = mtu\<rparr>), st1)))"

text \<open>Closing a closed channel panics.\<close>

definition markPodNetworkReady :: "OsdnNode \<Rightarrow> OsdnNode option" where
  "markPodNetworkReady node =
     (if n_podNetworkReady node then None else Some (node\<lparr>n_podNetworkReady := True\<rparr>))"

text \<open>Errors of the updates are only logged here.\<close>

fun refresh_pods :: "os \<Rightarrow> OsdnNode \<Rightarrow> Pod list \<Rightarrow> execState \<Rightarrow> execState" where
  "refresh_pods os node [] st = st"
| "refresh_pods os node (p # pods) st =
     refresh_pods os node pods
       (snd (UpdatePod os node (\<lambda>_. n_vnids node) (pod_Namespace p) (getPodContainerID p) st))"

text \<open>The last part of the start, behind the tables of subnets and network ids.\<close>

definition finish_start ::
  "'w api \<Rightarrow> os \<Rightarrow> bool \<Rightarrow> OsdnNode \<Rightarrow> 'w \<Rightarrow> execState
     \<Rightarrow> (error option \<times> OsdnNode \<times> 'w \<times> execState) option" where
  "finish_start api os networkChanged node w st =
     (if networkChanged then
        (case GetLocalPods api node NamespaceAll w of
           (Inl err, w1) \<Rightarrow> Some (Some err, node, w1, st)
         | (Inr pods, w1) \<Rightarrow>
             do { node1 \<leftarrow> markPodNetworkReady node;
                  Some (None, node1, w1, refresh_pods os node pods st) })
      else do { node1 \<leftarrow> markPodNetworkReady node; Some (None, node1, w, st) })"

definition Start ::
  "'w api \<Rightarrow> os \<Rightarrow> 'w ensure_rule \<Rightarrow> OsdnNode \<Rightarrow> 'w \<Rightarrow> execState
     \<Rightarrow> (error option \<times> OsdnNode \<times> 'w \<times> execState) option" where
  "Start api os ensure node w st =
     (case GetNetworkInfo api (n_registry node) w of
        (Inl err, registry1, w1) \<Rightarrow>
          Some (Some (Errorf ''Failed to get network information: %v'' [err]), node\<lparr>n_registry := registry1\<rparr>, w1, st)
      | (Inr ni, registry1, w1) \<Rightarrow>
          (let node1 = node\<lparr>n_registry := registry1\<rparr>;
               nodeIPTables = newNodeIPTables (IPNet_String (ni_ClusterNetwork ni)) (n_iptablesSyncPeriod node1)
           in case Setup ensure nodeIPTables w1 of
                (Some err, w2) \<Rightarrow> Some (Some (Errorf ''Failed to set up iptables: %v'' [err]), node1, w2, st)
              | (None, w2) \<Rightarrow>
                  do { ((networkChanged, err), node2, w3, st1) \<leftarrow> SubnetStartNode api os (n_mtu node1) node1 w2 st;
                       if err \<noteq> None then Some (err, node2, w3, st1)
                       else if n_multitenant node2 then
                         (case VnidStartNode api node2 w3 of
                            (Some err, node3, w4) \<Rightarrow> Some (Some err, node3, w4, st1)
                          | (None, node3, w4) \<Rightarrow> finish_start api os networkChanged node3 w4 st1)
                       else finish_start api os networkChanged node2 w3 st1 }))"

section \<open>The pod network becomes ready\<close>

lemma initSelfSubnet_flags:
  assumes "initSelfSubnet api node w = (r, node', w')"
  shows "n_podNetworkReady node' = n_podNetworkReady node \<and> n_multitenant node' = n_multitenant node"
  using assms by (auto simp: initSelfSubnet_def Let_def split: prod.splits sum.splits option.splits if_splits)

lemma SubnetStartNode_flags:
  assumes "SubnetStartNode api os mtu node w st = Some (r, node', w', st')"
  shows "n_podNetworkReady node' = n_podNetworkReady node \<and> n_multitenant node' = n_multitenant node"
proof -
  obtain e node1 w1 where i: "initSelfSubnet api node w = (e, node1, w1)" using prod_cases3 by blast
  obtain g reg w2 where "GetNetworkInfo api (n_registry node1) w1 = (g, reg, w2)" using prod_cases3 by blast
  with i initSelfSubnet_flags [OF i] assms show ?thesis
    by (auto simp: SubnetStartNode_def Let_def bind_eq_Some_conv split: sum.splits option.splits)
qed

lemma VnidStartNode_flags:
  assumes "VnidStartNode api node w = (r, node', w')"
  shows "n_podNetworkReady node' = n_podNetworkReady node"
  using assms by (auto simp: VnidStartNode_def split: prod.splits)

lemma finish_start_ready:
  assumes "finish_start api os changed node w st = Some (e, node', w', st')"
  shows "(n_podNetworkReady node' \<longleftrightarrow> n_podNetworkReady node \<or> e = None) \<and> (e = None \<longrightarrow> \<not> n_podNetworkReady node)"
  using assms
  by (auto simp: finish_start_def markPodNetworkReady_def bind_eq_Some_conv split: prod.splits sum.splits if_splits)

text \<open>
  C14: the node announces that its pod network is ready exactly when its start returns without an
  error; a second start of a node that is ready never returns without an error (it closes the
  closed channel), and no command is run before the rules of the firewall are set up.
\<close>

theorem Start_ready_iff:
  assumes "Start api os ensure node w st = Some (e, node', w', st')"
  shows "(n_podNetworkReady node' \<longleftrightarrow> n_podNetworkReady node \<or> e = None)
    \<and> (e = None \<longrightarrow> \<not> n_podNetworkReady node)
    \<and> (e = None \<or> st' \<noteq> st \<longrightarrow> (\<exists>n w1 w2. Setup ensure n w1 = (None, w2)))"
proof -
  obtain r reg w1 where g: "GetNetworkInfo api (n_registry node) w = (r, reg, w1)" using prod_cases3 by blast
  show ?thesis
  proof (cases r)
    case (Inl err)
    with g assms show ?thesis by (auto simp: Start_def)
  next
    case (Inr ni)
    obtain e1 w2 where i: "Setup ensure (newNodeIPTables (IPNet_String (ni_ClusterNetwork ni)) (n_iptablesSyncPeriod node)) w1 = (e1, w2)"
      by fastforce
    show ?thesis
    proof (cases e1)
      case (Some err)
      with g Inr i assms show ?thesis by (auto simp: Start_def)
    next
      case None
      with g Inr i assms obtain changed err node2 w3 st1 where
        s: "SubnetStartNode api os (n_mtu node) (node\<lparr>n_registry := reg\<rparr>) w2 st = Some ((changed, err), node2, w3, st1)"
        and rest: "(if err \<noteq> None then Some (err, node2, w3, st1)
           else if n_multitenant node2 then
             (case VnidStartNode api node2 w3 of
                (Some err, node3, w4) \<Rightarrow> Some (Some err, node3, w4, st1)
              | (None, node3, w4) \<Rightarrow> finish_start api os changed node3 w4 st1)
           else finish_start api os changed node2 w3 st1) = Some (e, node', w', st')"
        by (auto simp: Start_def bind_eq_Some_conv)
      have n2: "n_podNetworkReady node2 = n_podNetworkReady node" using SubnetStartNode_flags [OF s] by simp
      obtain e3 node3 w4 where v: "VnidStartNode api node2 w3 = (e3, node3, w4)" using prod_cases3 by blast
      have "(n_podNetworkReady node' \<longleftrightarrow> n_podNetworkReady node \<or> e = None) \<and> (e = None \<longrightarrow> \<not> n_podNetworkReady node)"
        using rest n2 VnidStartNode_flags [OF v] v
        by (cases err; cases "n_multitenant node2"; cases e3) (auto dest: finish_start_ready)
      with i None show ?thesis by blast
    qed
  qed
qed


text \<open>A node whose host is set up, with its subnet in the server.\<close>

definition node_memory :: memory where
  "node_memory = empty_memory\<lparr>mem_subnets :=
     [(''n1'', \<lparr>hs_Name = ''n1'', hs_UID = '''', hs_Host = ''n1'', hs_HostIP = ''192.168.1.1'', hs_Subnet = ''10.1.0.0/24''\<rparr>)]\<rparr>"

definition waiting_node :: OsdnNode where
  "waiting_node = plugin_node\<lparr>n_podNetworkReady := False, n_vnids := []\<rparr>"

lemma Start_ready_host:
  "\<exists>node' st'. Start memory_api ready_host (\<lambda>t c a w. (None, w)) waiting_node node_memory exec_init =
     Some (None, node', node_memory, st')"
proof -
  let ?subnet = "\<lparr>hs_Name = ''n1'', hs_UID = '''', hs_Host = ''n1'', hs_HostIP = ''192.168.1.1'', hs_Subnet = ''10.1.0.0/24''\<rparr>"
  obtain st1 where a: "alreadySetUp ready_host True ''10.1.0.1/24'' exec_init = Some (True, st1)"
    using ready_host_set_up [OF exec_init_simps(1)] by blast
  have d: "ParseCIDR ''10.1.0.0/24'' = Inr (IPv4 10 1 0 0, \<lparr>ipnet_IP = [10, 1, 0, 0], ipnet_Mask = [255, 255, 255, 0]\<rparr>)"
    by (simp add: str_simps)
  have g: "GenerateDefaultGateway \<lparr>ipnet_IP = [10, 1, 0, 0], ipnet_Mask = [255, 255, 255, 0]\<rparr> = Some (IPv4 10 1 0 1)"
    by (simp add: GenerateDefaultGateway_def str_simps IPToUint32_def Uint32ToIP_def)
  have s: "SetupSDN ready_host node ''10.1.0.0/24'' c v mtu exec_init = Some ((False, None), st1)" if "n_multitenant node" for node c v mtu
    unfolding SetupSDN_def d sum.case prod.case g using that a by (simp add: str_simps To4_IPv4 itoz_def Let_def)
  have f [simp]: "n_multitenant waiting_node" "n_registry waiting_node = \<lparr>reg_NetworkInfo = Some sample_network\<rparr>"
      "n_hostName waiting_node = ''n1''" "\<not> n_podNetworkReady waiting_node" "n_vnids waiting_node = []" "n_mtu waiting_node = 1450"
    by (simp_all add: waiting_node_def plugin_node_def)
  have r: "waiting_node\<lparr>n_registry := \<lparr>reg_NetworkInfo = Some sample_network\<rparr>\<rparr> = waiting_node"
    "waiting_node\<lparr>n_registry := \<lparr>reg_NetworkInfo = Some sample_network\<rparr>, n_localSubnet := x\<rparr> = waiting_node\<lparr>n_localSubnet := x\<rparr>"
    "waiting_node\<lparr>n_localSubnet := x, n_registry := \<lparr>reg_NetworkInfo = Some sample_network\<rparr>\<rparr> = waiting_node\<lparr>n_localSubnet := x\<rparr>"
    "waiting_node\<lparr>n_localSubnet := x, n_vnids := []\<rparr> = waiting_node\<lparr>n_localSubnet := x\<rparr>" for x
    by (simp_all add: waiting_node_def plugin_node_def)
  have u: "GetSubnet memory_api ''n1'' node_memory = (Inr ?subnet, node_memory)"
    by (simp add: GetSubnet_def memory_api_def node_memory_def)
  have i: "initSelfSubnet memory_api waiting_node node_memory = (None, waiting_node\<lparr>n_localSubnet := Some ?subnet\<rparr>, node_memory)"
    by (simp add: initSelfSubnet_def u r ValidateNodeIP_def GetNetworkInfo_cached sample_network_def ParseIP_def str_simps)
  have n: "SubnetStartNode memory_api ready_host 1450 waiting_node node_memory exec_init =
      Some ((False, None), waiting_node\<lparr>n_localSubnet := Some ?subnet\<rparr>, node_memory, st1)"
    by (simp add: SubnetStartNode_def i GetNetworkInfo_cached s r)
  have e: "ensure_rules (\<lambda>t c a w. (None, w)) rules w = (None, w)" for rules and w :: memory
    by (induction rules arbitrary: w) simp_all
  have v: "PopulateVNIDs memory_api [] node_memory = (None, [], node_memory)"
    by (simp add: PopulateVNIDs_def GetNetNamespaces_def memory_api_def node_memory_def empty_memory_def)
  have "Start memory_api ready_host (\<lambda>t c a w. (None, w)) waiting_node node_memory exec_init =
    (let node = waiting_node\<lparr>n_localSubnet := Some ?subnet\<rparr> in
     case VnidStartNode memory_api node node_memory of
       (Some err, node3, w4) \<Rightarrow> Some (Some err, node3, w4, st1)
     | (None, node3, w4) \<Rightarrow> finish_start memory_api ready_host False node3 w4 st1)"
    using n by (simp add: Start_def GetNetworkInfo_cached Setup_def syncIPTableRules_def e r)
  also have "\<dots> = Some (None, waiting_node\<lparr>n_localSubnet := Some ?subnet, n_podNetworkReady := True\<rparr>, node_memory, st1)"
    by (simp add: VnidStartNode_def v r finish_start_def markPodNetworkReady_def)
  finally show ?thesis by blast
qed

theorem Start_ready_iff_witness:
  "\<exists>node' st'. Start memory_api ready_host (\<lambda>t c a w. (None, w)) waiting_node node_memory exec_init =
     Some (None, node', node_memory, st') \<and> n_podNetworkReady node'"
proof -
  obtain node' st' where s: "Start memory_api ready_host (\<lambda>t c a w. (None, w)) waiting_node node_memory exec_init =
     Some (None, node', node_memory, st')" using Start_ready_host by blast
  from Start_ready_iff [OF s] s show ?thesis by blast
qed

end
