(* ===== verification/Master.thy ===== *)
theory Master
  imports SubnetMaster Plugin MemoryApi
begin

text \<open>
  \<open>plugins/osdn/master.go\<close>: the start of the master. The configured network is validated and
  compared with the stored one; a changed network is accepted only if it fits the host networks,
  the stored subnets and the services, and then the stored one is replaced. After that the two
  parts of the master start. The interfaces of the host are a parameter.
\<close>

section \<open>The model\<close>

record MasterNetworkConfig =
  cfg_NetworkPluginName :: string
  cfg_ClusterNetworkCIDR :: string
  cfg_HostSubnetLength :: u64
  cfg_ServiceNetworkCIDR :: string

definition new_master :: OsdnMaster where
  "new_master =
     \<lparr>m_registry = newRegistry, m_subnetAllocator = None, m_vnids = newVnidMap, m_netIDManager = None,
      m_adminNamespaces = []\<rparr>"

text \<open>The four conflicts of the cluster and the service network with one network of the host.\<close>

definition host_conflicts :: "NetworkInfo \<Rightarrow> IPNet \<Rightarrow> error list" where
  "host_conflicts ni ipNet =
     (if IPNet_Contains ipNet (ipnet_IP (ni_ClusterNetwork ni))
      then [Errorf ''Error: Cluster IP: %s conflicts with host network: %s'' []] else []) @
     (if IPNet_Contains (ni_ClusterNetwork ni) (ipnet_IP ipNet)
      then [Errorf ''Error: Host network with IP: %s conflicts with cluster network: %s'' []] else []) @
     (if IPNet_Contains ipNet (ipnet_IP (ni_ServiceNetwork ni))
      then [Errorf ''Error: Service IP: %s conflicts with host network: %s'' []] else []) @
     (if IPNet_Contains (ni_ServiceNetwork ni) (ipnet_IP ipNet)
      then [Errorf ''Error: Host network with IP: %s conflicts with service network: %s'' []] else [])"

fun check_host_nets :: "NetworkInfo \<Rightarrow> IPNet list \<Rightarrow> error list \<Rightarrow> error list" where
  "check_host_nets ni [] errList = errList"
| "check_host_nets ni (ipNet # hostIPNets) errList =
     check_host_nets ni hostIPNets (errList @ host_conflicts ni ipNet)"

fun check_stored_subnets :: "NetworkInfo \<Rightarrow> HostSubnet list \<Rightarrow> error list \<Rightarrow> error list" where
  "check_stored_subnets ni [] errList = errList"
| "check_stored_subnets ni (sub # subnets) errList =
     (case ParseCIDR (hs_Subnet sub) of
        Inl err \<Rightarrow>
          check_stored_subnets ni subnets (errList @ [Errorf ''Failed to parse network address: %s'' []])
      | Inr (subnetIP, _) \<Rightarrow>
          check_stored_subnets ni subnets
            (if \<not> IPNet_Contains (ni_ClusterNetwork ni) subnetIP
             then errList @ [Errorf ''Error: Existing node subnet: %s is not part of cluster network: %s'' []]
             else errList))"

fun check_services :: "NetworkInfo \<Rightarrow> Service list \<Rightarrow> error list \<Rightarrow> error list" where
  "check_services ni [] errList = errList"
| "check_services ni (svc # services) errList =
     check_services ni services
       (if \<not> IPNet_Contains (ni_ServiceNetwork ni) (ParseIP (svc_ClusterIP svc))
        then errList @ [Errorf ''Error: Existing service with IP: %s is not part of service network: %s'' []]
        else errList)"

definition validateNetworkConfig ::
  "'w api \<Rightarrow> error + iface list \<Rightarrow> NetworkInfo \<Rightarrow> 'w \<Rightarrow> error option \<times> 'w" where
  "validateNetworkConfig api interfaces ni w =
     (case GetHostIPNetworks interfaces [TUN, LBR] of
        (_, Some err) \<Rightarrow> (Some err, w)
      | (hostIPNets, None) \<Rightarrow>
          (let errList1 = check_host_nets ni hostIPNets []
           in case GetSubnets api w of
                (Inl err, w1) \<Rightarrow> (Some (Errorf ''Error in initializing/fetching subnets: %v'' [err]), w1)
              | (Inr subnets, w1) \<Rightarrow>
                  (let errList2 = check_stored_subnets ni subnets errList1
                   in case GetServices api w1 of
                        (Inl err, w2) \<Rightarrow> (Some err, w2)
                      | (Inr services, w2) \<Rightarrow> (NewAggregate (check_services ni services errList2), w2))))"

definition isClusterNetworkChanged ::
  "'w api \<Rightarrow> NetworkInfo \<Rightarrow> OsdnMaster \<Rightarrow> 'w \<Rightarrow> (bool \<times> error option) \<times> OsdnMaster \<times> 'w" where
  "isClusterNetworkChanged api curNetwork master w =
     (case GetNetworkInfo api (m_registry master) w of
        (Inl err, registry1, w1) \<Rightarrow> ((False, Some err), master\<lparr>m_registry := registry1\<rparr>, w1)
      | (Inr oldNetwork, registry1, w1) \<Rightarrow>
          ((if IPNet_String (ni_ClusterNetwork curNetwork) \<noteq> IPNet_String (ni_ClusterNetwork oldNetwork)
               \<or> ni_HostSubnetLength curNetwork \<noteq> ni_HostSubnetLength oldNetwork
               \<or> IPNet_String (ni_ServiceNetwork curNetwork) \<noteq> IPNet_String (ni_ServiceNetwork oldNetwork)
            then True else False, None), master\<lparr>m_registry := registry1\<rparr>, w1))"

text \<open>The stored network is brought in line with the configured one, or the start fails.\<close>

definition store_network ::
  "'w api \<Rightarrow> error + iface list \<Rightarrow> NetworkInfo \<Rightarrow> OsdnMaster \<Rightarrow> 'w \<Rightarrow> error option \<times> OsdnMaster \<times> 'w" where
  "store_network api interfaces ni master w =
     (case isClusterNetworkChanged api ni master w of
        ((changed, net_err), master1, w1) \<Rightarrow>
          if changed then
            (case validateNetworkConfig api interfaces ni w1 of
               (Some err, w2) \<Rightarrow> (Some err, master1, w2)
             | (None, w2) \<Rightarrow> (case UpdateClusterNetwork api ni w2 of (err, w3) \<Rightarrow> (err, master1, w3)))
          else if net_err \<noteq> None then
            (case CreateClusterNetwork api ni w1 of (err, w2) \<Rightarrow> (err, master1, w2))
          else (None, master1, w1))"

text \<open>The master is \<open>None\<close> when the plugin is not one of this program.\<close>

definition StartMaster ::
  "'w api \<Rightarrow> error + iface list \<Rightarrow> MasterNetworkConfig \<Rightarrow> 'w \<Rightarrow> error option \<times> OsdnMaster option \<times> 'w" where
  "StartMaster api interfaces networkConfig w =
     (if \<not> IsOpenShiftNetworkPlugin (cfg_NetworkPluginName networkConfig) then (None, None, w)
      else case validateClusterNetwork (cfg_ClusterNetworkCIDR networkConfig)
                  (sint (cfg_HostSubnetLength networkConfig)) (cfg_ServiceNetworkCIDR networkConfig)
                  (cfg_NetworkPluginName networkConfig) of
             Inl err \<Rightarrow> (Some err, Some new_master, w)
           | Inr ni \<Rightarrow>
               (case store_network api interfaces ni new_master w of
                  (Some err, master1, w1) \<Rightarrow> (Some err, Some master1, w1)
                | (None, master1, w1) \<Rightarrow>
                    (case SubnetStartMaster api (ni_ClusterNetwork ni) (cfg_HostSubnetLength networkConfig) master1 w1 of
                       (Some err, master2, w2) \<Rightarrow> (Some err, Some master2, w2)
                     | (None, master2, w2) \<Rightarrow>
                         if IsOpenShiftMultitenantNetworkPlugin (cfg_NetworkPluginName networkConfig)
                         then (case VnidStartMaster api master2 w2 of
                                 (err, master3, w3) \<Rightarrow> (err, Some master3, w3))
                         else (None, Some master2, w2))))"

section \<open>What the master accepts\<close>

text \<open>No network of the host meets the network \<open>net\<close> at either's first address.\<close>

definition apart :: "IPNet \<Rightarrow> IPNet \<Rightarrow> bool" where
  "apart n net \<longleftrightarrow> \<not> IPNet_Contains n (ipnet_IP net) \<and> \<not> IPNet_Contains net (ipnet_IP n)"

definition subnet_fits :: "IPNet \<Rightarrow> HostSubnet \<Rightarrow> bool" where
  "subnet_fits net sub \<longleftrightarrow> (\<exists>ip n. ParseCIDR (hs_Subnet sub) = Inr (ip, n) \<and> IPNet_Contains net ip)"

definition service_fits :: "IPNet \<Rightarrow> Service \<Rightarrow> bool" where
  "service_fits net svc \<longleftrightarrow> IPNet_Contains net (ParseIP (svc_ClusterIP svc))"

lemma host_conflicts_empty:
  "host_conflicts ni n = [] \<longleftrightarrow> apart n (ni_ClusterNetwork ni) \<and> apart n (ni_ServiceNetwork ni)"
  by (simp add: host_conflicts_def apart_def)

lemma check_host_nets_empty:
  "check_host_nets ni nets errs = [] \<longleftrightarrow>
     errs = [] \<and> (\<forall>n\<in>set nets. apart n (ni_ClusterNetwork ni) \<and> apart n (ni_ServiceNetwork ni))"
  by (induction nets arbitrary: errs) (auto simp: host_conflicts_empty)

lemma check_stored_subnets_empty:
  "check_stored_subnets ni subs errs = [] \<longleftrightarrow> errs = [] \<and> (\<forall>s\<in>set subs. subnet_fits (ni_ClusterNetwork ni) s)"
proof (induction subs arbitrary: errs)
  case (Cons s subs)
  then show ?case
  proof (cases "ParseCIDR (hs_Subnet s)")
    case (Inl e)
    then have "\<not> subnet_fits (ni_ClusterNetwork ni) s" by (simp add: subnet_fits_def)
    with Inl Cons show ?thesis by simp
  next
    case (Inr p)
    then obtain ip n where p: "ParseCIDR (hs_Subnet s) = Inr (ip, n)" by (cases p) simp
    then have "subnet_fits (ni_ClusterNetwork ni) s \<longleftrightarrow> IPNet_Contains (ni_ClusterNetwork ni) ip"
      by (simp add: subnet_fits_def)
    with p Cons show ?thesis by simp
  qed
qed simp

lemma check_services_empty:
  "check_services ni svcs errs = [] \<longleftrightarrow> errs = [] \<and> (\<forall>s\<in>set svcs. service_fits (ni_ServiceNetwork ni) s)"
  by (induction svcs arbitrary: errs) (auto simp: service_fits_def)

lemma validate_fits:
  assumes "validateNetworkConfig api interfaces ni w = (None, w')"
  obtains nets subs w1 svcs where "GetHostIPNetworks interfaces [TUN, LBR] = (nets, None)"
    "GetSubnets api w = (Inr subs, w1)" "GetServices api w1 = (Inr svcs, w')"
    "\<forall>n\<in>set nets. apart n (ni_ClusterNetwork ni) \<and> apart n (ni_ServiceNetwork ni)"
    "\<forall>s\<in>set subs. subnet_fits (ni_ClusterNetwork ni) s" "\<forall>s\<in>set svcs. service_fits (ni_ServiceNetwork ni) s"
  using assms
  by (auto simp: validateNetworkConfig_def Let_def check_services_empty check_stored_subnets_empty check_host_nets_empty
      split: prod.splits option.splits sum.splits)

text \<open>
  C13: once the host's interfaces, the stored subnets and the services could be read, a new network
  is accepted exactly when neither the cluster nor the service network meets a network of the
  host, every stored subnet is parsable and starts inside the cluster network, and every service
  address is inside the service network.
\<close>

theorem validateNetworkConfig_iff:
  assumes "GetHostIPNetworks interfaces [TUN, LBR] = (nets, None)"
    and "GetSubnets api w = (Inr subs, w1)" and "GetServices api w1 = (Inr svcs, w2)"
  shows "validateNetworkConfig api interfaces ni w = (None, w2) \<longleftrightarrow>
      (\<forall>n\<in>set nets. apart n (ni_ClusterNetwork ni) \<and> apart n (ni_ServiceNetwork ni))
      \<and> (\<forall>s\<in>set subs. subnet_fits (ni_ClusterNetwork ni) s)
      \<and> (\<forall>s\<in>set svcs. service_fits (ni_ServiceNetwork ni) s)"
  using assms
  by (auto simp: validateNetworkConfig_def Let_def check_services_empty check_stored_subnets_empty check_host_nets_empty)

text \<open>A host with one address outside of the networks.\<close>

definition one_interface :: "error + iface list" where
  "one_interface = Inr [\<lparr>iface_Name = ''eth0'', iface_Addrs = Inr [''192.168.1.1/24'']\<rparr>]"

lemma one_interface_nets:
  "GetHostIPNetworks one_interface [TUN, LBR] =
     ([\<lparr>ipnet_IP = [192, 168, 1, 0], ipnet_Mask = [255, 255, 255, 0]\<rparr>], None)"
  by (simp add: GetHostIPNetworks_def collect_ifaces_filter one_interface_def iface_nets_def iface_errors_def
      List.map_filter_simps addr_net_def addr_error_def str_simps TUN_def LBR_def usable_ip_def IsLoopback_def To4_def
      IP_Equal_def IPv6loopback_def)
    (simp add: eval_nat_numeral)

definition one_subnet :: "string \<Rightarrow> memory" where
  "one_subnet cidr = empty_memory\<lparr>mem_subnets :=
     [(''n1'', \<lparr>hs_Name = ''n1'', hs_UID = '''', hs_Host = ''n1'', hs_HostIP = ''192.168.1.1'', hs_Subnet = cidr\<rparr>)]\<rparr>"

theorem validateNetworkConfig_iff_witness:
  "validateNetworkConfig memory_api one_interface sample_network (one_subnet ''10.1.0.0/24'') = (None, one_subnet ''10.1.0.0/24'')
   \<and> validateNetworkConfig memory_api one_interface sample_network (one_subnet ''10.2.0.0/24'') \<noteq> (None, one_subnet ''10.2.0.0/24'')"
proof -
  have s: "GetServices memory_api (one_subnet c) = (Inr [], one_subnet c)" for c
    by (simp add: GetServices_def getServices_def memory_api_def one_subnet_def empty_memory_def)
  have l: "GetSubnets memory_api (one_subnet c) = (Inr [snd (hd (mem_subnets (one_subnet c)))], one_subnet c)" for c
    by (simp add: GetSubnets_def memory_api_def one_subnet_def empty_memory_def)
  have "apart \<lparr>ipnet_IP = [192, 168, 1, 0], ipnet_Mask = [255, 255, 255, 0]\<rparr> (ni_ClusterNetwork sample_network)"
    "apart \<lparr>ipnet_IP = [192, 168, 1, 0], ipnet_Mask = [255, 255, 255, 0]\<rparr> (ni_ServiceNetwork sample_network)"
    by code_simp+
  moreover have "subnet_fits (ni_ClusterNetwork sample_network) (snd (hd (mem_subnets (one_subnet ''10.1.0.0/24''))))"
    by (simp add: subnet_fits_def one_subnet_def str_simps sample_network_def)
  moreover have "\<not> subnet_fits (ni_ClusterNetwork sample_network) (snd (hd (mem_subnets (one_subnet ''10.2.0.0/24''))))"
    by (simp add: subnet_fits_def one_subnet_def str_simps sample_network_def)
  ultimately show ?thesis
    by (simp add: validateNetworkConfig_iff [OF one_interface_nets l s])
qed


section \<open>The registry's copy of the network\<close>

lemma check_subnets_registry:
  "reg_NetworkInfo r = Some ni \<Longrightarrow> check_subnets api subs r w = (r', w') \<Longrightarrow> r' = r"
  by (induction subs arbitrary: w)
    (auto simp: ValidateNodeIP_def GetNetworkInfo_cached Let_def split: prod.splits if_splits option.splits)

lemma SubnetStartMaster_registry:
  assumes "reg_NetworkInfo (m_registry m) = Some ni" and "SubnetStartMaster api cn len m w = (e, m', w')"
  shows "m_registry m' = m_registry m"
  using assms by (auto simp: SubnetStartMaster_def Let_def dest: check_subnets_registry split: prod.splits sum.splits)

lemma VnidStartMaster_registry: "VnidStartMaster api m w = (e, m', w') \<Longrightarrow> m_registry m' = m_registry m"
  by (auto simp: VnidStartMaster_def split: prod.splits sum.splits option.splits)

lemma store_network_registry:
  assumes "GetNetworkInfo api (m_registry m) w = (Inr old, r, w1)" and "store_network api interfaces ni m w = (None, m', w')"
  shows "reg_NetworkInfo (m_registry m') = Some old"
    and "IPNet_String (ni_ClusterNetwork ni) \<noteq> IPNet_String (ni_ClusterNetwork old)
      \<or> ni_HostSubnetLength ni \<noteq> ni_HostSubnetLength old
      \<or> IPNet_String (ni_ServiceNetwork ni) \<noteq> IPNet_String (ni_ServiceNetwork old)
      \<Longrightarrow> \<exists>w2. validateNetworkConfig api interfaces ni w1 = (None, w2) \<and> UpdateClusterNetwork api ni w2 = (None, w')"
  using assms GetNetworkInfo_caches [OF assms(1)]
  by (auto simp: store_network_def isClusterNetworkChanged_def split: prod.splits option.splits if_splits)

text \<open>
  C12: a master that starts over a stored network accepts another cluster network, host subnet
  length or service network only after it has been validated, and stores it then; but its registry
  keeps the network it read before, so that the addresses of nodes are checked against the
  cluster network that has just been replaced.
\<close>

theorem StartMaster_keeps_old_network:
  assumes "validateClusterNetwork (cfg_ClusterNetworkCIDR cfg) (sint (cfg_HostSubnetLength cfg))
      (cfg_ServiceNetworkCIDR cfg) (cfg_NetworkPluginName cfg) = Inr ni"
    and "GetNetworkInfo api newRegistry w = (Inr old, r, w1)"
    and "IsOpenShiftNetworkPlugin (cfg_NetworkPluginName cfg)"
    and "StartMaster api interfaces cfg w = (None, Some m, w')"
  shows "reg_NetworkInfo (m_registry m) = Some old
    \<and> (IPNet_String (ni_ClusterNetwork ni) \<noteq> IPNet_String (ni_ClusterNetwork old)
        \<or> ni_HostSubnetLength ni \<noteq> ni_HostSubnetLength old
        \<or> IPNet_String (ni_ServiceNetwork ni) \<noteq> IPNet_String (ni_ServiceNetwork old)
       \<longrightarrow> (\<exists>w2 w3. validateNetworkConfig api interfaces ni w1 = (None, w2)
             \<and> UpdateClusterNetwork api ni w2 = (None, w3)))
    \<and> (nodeIP \<noteq> '''' \<and> nodeIP \<noteq> ''127.0.0.1'' \<and> ParseIP nodeIP \<noteq> [] \<longrightarrow>
        ValidateNodeIP api nodeIP (m_registry m) w'' =
          (if IPNet_Contains (ni_ClusterNetwork old) (ParseIP nodeIP)
           then Some (Errorf ''Node IP %s conflicts with cluster network %s'' []) else None, m_registry m, w''))"
proof -
  have g: "GetNetworkInfo api (m_registry new_master) w = (Inr old, r, w1)"
    using assms(2) by (simp add: new_master_def)
  obtain e1 m1 w2 where s: "store_network api interfaces ni new_master w = (e1, m1, w2)" using prod_cases3 by blast
  obtain e2 m2 w3 where t: "SubnetStartMaster api (ni_ClusterNetwork ni) (cfg_HostSubnetLength cfg) m1 w2 = (e2, m2, w3)"
    using prod_cases3 by blast
  obtain e3 m3 w4 where v: "VnidStartMaster api m2 w3 = (e3, m3, w4)" using prod_cases3 by blast
  have e: "e1 = None" "m_registry m = m_registry m2"
    using assms(1,3,4) s t v VnidStartMaster_registry [OF v]
    by (auto simp: StartMaster_def split: option.splits if_splits)
  note n = store_network_registry [OF g s [unfolded e(1)]]
  have r: "reg_NetworkInfo (m_registry m) = Some old"
    using SubnetStartMaster_registry [OF n(1) t] e(2) n(1) by simp
  then have "nodeIP \<noteq> '''' \<and> nodeIP \<noteq> ''127.0.0.1'' \<and> ParseIP nodeIP \<noteq> [] \<Longrightarrow>
        ValidateNodeIP api nodeIP (m_registry m) w'' =
          (if IPNet_Contains (ni_ClusterNetwork old) (ParseIP nodeIP)
           then Some (Errorf ''Node IP %s conflicts with cluster network %s'' []) else None, m_registry m, w'')"
    by (simp add: ValidateNodeIP_def GetNetworkInfo_cached Let_def)
  with n(2) r show ?thesis by blast
qed


text \<open>A stored network whose hosts have 254 addresses, and a configuration that doubles them.\<close>

definition stored_network :: memory where
  "stored_network = (one_subnet ''10.1.0.0/24'')\<lparr>mem_network := Some
     \<lparr>cn_Name = ''default'', cn_Network = ''10.1.0.0/16'', cn_HostSubnetLength = 8,
      cn_ServiceNetwork = ''172.30.0.0/16'', cn_PluginName = ''redhat/openshift-ovs-subnet''\<rparr>\<rparr>"

definition longer_subnets :: MasterNetworkConfig where
  "longer_subnets =
     \<lparr>cfg_NetworkPluginName = ''redhat/openshift-ovs-subnet'', cfg_ClusterNetworkCIDR = ''10.1.0.0/16'',
      cfg_HostSubnetLength = 9, cfg_ServiceNetworkCIDR = ''172.30.0.0/16''\<rparr>"

definition the_network :: "int \<Rightarrow> NetworkInfo" where
  "the_network len = sample_network\<lparr>ni_HostSubnetLength := len, ni_PluginName := ''redhat/openshift-ovs-subnet''\<rparr>"

lemma validate_longer:
  "validateClusterNetwork ''10.1.0.0/16'' 9 ''172.30.0.0/16'' ''redhat/openshift-ovs-subnet'' = Inr (the_network 9)"
  "validateClusterNetwork ''10.1.0.0/16'' 8 ''172.30.0.0/16'' ''redhat/openshift-ovs-subnet'' = Inr (the_network 8)"
  by (simp_all add: validateClusterNetwork_def the_network_def sample_network_def str_simps)

lemma get_stored: "GetNetworkInfo memory_api newRegistry stored_network = (Inr (the_network 8), \<lparr>reg_NetworkInfo = Some (the_network 8)\<rparr>, stored_network)"
  by (simp add: GetNetworkInfo_def newRegistry_def memory_api_def stored_network_def validate_longer)


definition longer_memory :: memory where
  "longer_memory = stored_network\<lparr>mem_network := Some
     \<lparr>cn_Name = ''default'', cn_Network = ''10.1.0.0/16'', cn_HostSubnetLength = 9,
      cn_ServiceNetwork = ''172.30.0.0/16'', cn_PluginName = ''redhat/openshift-ovs-subnet''\<rparr>\<rparr>"

definition longer_allocator :: subnetAllocator where
  "longer_allocator =
     \<lparr>sna_network = \<lparr>ipnet_IP = [10, 1, 0, 0], ipnet_Mask = [255, 255, 0, 0]\<rparr>, sna_hostBits = 9,
      sna_leftShift = 0, sna_leftMask = 0xFFFFFFFF, sna_rightShift = 0, sna_rightMask = 0,
      sna_next = 0, sna_allocMap = [''10.1.0.0/24'' \<mapsto> True]\<rparr>"

definition longer_master :: OsdnMaster where
  "longer_master = new_master\<lparr>m_registry := \<lparr>reg_NetworkInfo = Some (the_network 8)\<rparr>,
     m_subnetAllocator := Some longer_allocator\<rparr>"

lemma lower_subnet: "ToLower ''redhat/openshift-ovs-subnet'' = ''redhat/openshift-ovs-subnet''"
  by code_simp
lemma new_longer: "NewSubnetAllocator ''10.1.0.0/16'' 9 [''10.1.0.0/24''] = Inr longer_allocator"
  by (simp add: NewSubnetAllocator_def rotation_def longer_allocator_def str_simps)

lemma the_network_simps [simp]:
  "ni_ClusterNetwork (the_network l) = \<lparr>ipnet_IP = [10, 1, 0, 0], ipnet_Mask = [255, 255, 0, 0]\<rparr>"
  "ni_ServiceNetwork (the_network l) = \<lparr>ipnet_IP = [172, 30, 0, 0], ipnet_Mask = [255, 255, 0, 0]\<rparr>"
  "ni_HostSubnetLength (the_network l) = l" "ni_PluginName (the_network l) = ''redhat/openshift-ovs-subnet''"
  by (simp_all add: the_network_def sample_network_def)

lemma printed_networks:
  "IPNet_String \<lparr>ipnet_IP = [10, 1, 0, 0], ipnet_Mask = [255, 255, 0, 0]\<rparr> = ''10.1.0.0/16''"
  "IPNet_String \<lparr>ipnet_IP = [172, 30, 0, 0], ipnet_Mask = [255, 255, 0, 0]\<rparr> = ''172.30.0.0/16''"
  by (simp_all add: str_simps)

lemma validate_change: "validateNetworkConfig memory_api one_interface (the_network 9) stored_network = (None, stored_network)"
proof -
  have s: "GetServices memory_api stored_network = (Inr [], stored_network)"
    by (simp add: GetServices_def getServices_def memory_api_def stored_network_def one_subnet_def empty_memory_def)
  have l: "GetSubnets memory_api stored_network = (Inr [snd (hd (mem_subnets (one_subnet ''10.1.0.0/24'')))], stored_network)"
    by (simp add: GetSubnets_def memory_api_def stored_network_def one_subnet_def empty_memory_def)
  have "apart \<lparr>ipnet_IP = [192, 168, 1, 0], ipnet_Mask = [255, 255, 255, 0]\<rparr> (ni_ClusterNetwork (the_network 9))"
    "apart \<lparr>ipnet_IP = [192, 168, 1, 0], ipnet_Mask = [255, 255, 255, 0]\<rparr> (ni_ServiceNetwork (the_network 9))"
    by (simp_all add: apart_def str_simps)
  moreover have "subnet_fits (ni_ClusterNetwork (the_network 9)) (snd (hd (mem_subnets (one_subnet ''10.1.0.0/24''))))"
    by (simp add: subnet_fits_def one_subnet_def str_simps)
  ultimately show ?thesis
    by (simp add: validateNetworkConfig_def one_interface_nets l s check_host_nets_empty check_stored_subnets_empty del: check_host_nets.simps check_stored_subnets.simps)
qed

lemma store_longer:
  "store_network memory_api one_interface (the_network 9) new_master stored_network =
     (None, new_master\<lparr>m_registry := \<lparr>reg_NetworkInfo = Some (the_network 8)\<rparr>\<rparr>, longer_memory)"
  by (simp add: store_network_def isClusterNetworkChanged_def new_master_def get_stored printed_networks validate_change
     UpdateClusterNetwork_def) (simp add: memory_api_def stored_network_def longer_memory_def printed_networks)

lemma subnets_longer:
  "SubnetStartMaster memory_api \<lparr>ipnet_IP = [10, 1, 0, 0], ipnet_Mask = [255, 255, 0, 0]\<rparr> 9
      (new_master\<lparr>m_registry := \<lparr>reg_NetworkInfo = Some (the_network 8)\<rparr>\<rparr>) longer_memory =
     (None, longer_master, longer_memory)"
proof -
  have l: "GetSubnets memory_api longer_memory = (Inr [snd (hd (mem_subnets (one_subnet ''10.1.0.0/24'')))], longer_memory)"
    by (simp add: GetSubnets_def memory_api_def longer_memory_def stored_network_def one_subnet_def empty_memory_def)
  have c: "check_subnets memory_api subs \<lparr>reg_NetworkInfo = Some ni\<rparr> w = (\<lparr>reg_NetworkInfo = Some ni\<rparr>, w)" for subs ni w
    by (induction subs arbitrary: w) (simp_all add: ValidateNodeIP_def GetNetworkInfo_cached Let_def)
  show ?thesis
    by (simp add: SubnetStartMaster_def l printed_networks c longer_master_def new_master_def del: check_subnets.simps)
      (simp add: one_subnet_def new_longer c del: check_subnets.simps)
qed

lemma start_longer:
  "StartMaster memory_api one_interface longer_subnets stored_network = (None, Some longer_master, longer_memory)"
  by (simp add: StartMaster_def longer_subnets_def validate_longer store_longer subnets_longer
    IsOpenShiftNetworkPlugin_def IsOpenShiftMultitenantNetworkPlugin_def SingleTenantPluginName_def MultiTenantPluginName_def
    lower_subnet)


theorem StartMaster_keeps_old_network_witness:
  "\<exists>m w'. StartMaster memory_api one_interface longer_subnets stored_network = (None, Some m, w')
     \<and> reg_NetworkInfo (m_registry m) = Some (the_network 8)
     \<and> (\<exists>w2 w3. validateNetworkConfig memory_api one_interface (the_network 9) stored_network = (None, w2)
          \<and> UpdateClusterNetwork memory_api (the_network 9) w2 = (None, w3))"
proof -
  have v: "validateClusterNetwork (cfg_ClusterNetworkCIDR longer_subnets) (sint (cfg_HostSubnetLength longer_subnets))
      (cfg_ServiceNetworkCIDR longer_subnets) (cfg_NetworkPluginName longer_subnets) = Inr (the_network 9)"
    by (simp add: longer_subnets_def validate_longer)
  have p: "IsOpenShiftNetworkPlugin (cfg_NetworkPluginName longer_subnets)"
    by (simp add: longer_subnets_def IsOpenShiftNetworkPlugin_def SingleTenantPluginName_def lower_subnet)
  from StartMaster_keeps_old_network [OF v get_stored p start_longer, of "''''" empty_memory]
  have "reg_NetworkInfo (m_registry longer_master) = Some (the_network 8)"
    "\<exists>w2 w3. validateNetworkConfig memory_api one_interface (the_network 9) stored_network = (None, w2)
          \<and> UpdateClusterNetwork memory_api (the_network 9) w2 = (None, w3)"
    by simp_all
  with start_longer show ?thesis by blast
qed

lemma longer_first:
  "\<exists>sna'. GetNetwork longer_allocator = Some (Inr (host_subnet 0x0A010000 23), sna')"
proof -
  have num: "numSubnets longer_allocator = 128" and base: "IPToUint32 (ipnet_IP (sna_network longer_allocator)) = Some 0x0A010000"
    by (simp_all add: numSubnets_def numSubnetBits_def netMaskSize_def longer_allocator_def IPToUint32_def str_simps)
  have gen: "genSubnet longer_allocator 0x0A010000 0 = host_subnet 0x0A010000 23"
    by (simp add: genSubnet_def host_subnet_def subnet_part_def numSubnetBits_def netMaskSize_def
        longer_allocator_def str_simps)
  have key: "IPNet_String (host_subnet 0x0A010000 23) = ''10.1.0.0/23''"
    by (subst host_subnet_String) (simp_all add: bytes4_def str_simps)
  have "\<not> get_bool (sna_allocMap longer_allocator) ''10.1.0.0/23''" "sna_next longer_allocator = 0"
    by (simp_all add: longer_allocator_def get_bool_def)
  then show ?thesis
    by (simp add: GetNetwork_def base) (subst get_loop.simps, simp add: Let_def num gen key)
qed


end
