(* ===== verification/Proxy.thy ===== *)
theory Proxy
  imports Plugin MemoryApi
begin

text \<open>
  \<open>plugins/osdn/proxy.go\<close>: the filter between the endpoints of the services and the proxy of a
  node. It follows the pods of the cluster by their addresses and drops endpoints that point into
  other projects. The map holds pointers to pods: the model has a store of pods by address, since
  what a pointer refers to may change behind the map (the loop of \<open>Start\<close> gives away the address
  of its one loop variable). The mutex makes each of the calls below one step.
\<close>

section \<open>State\<close>

record proxyState =
  px_registry :: Registry
  podsByIP :: "string \<rightharpoonup> nat"
  pod_store :: "nat \<Rightarrow> Pod"
  next_addr :: nat

definition NewProxyPlugin :: "string \<Rightarrow> (nat \<Rightarrow> Pod) \<Rightarrow> proxyState option" where
  "NewProxyPlugin pluginName store =
     (if \<not> IsOpenShiftMultitenantNetworkPlugin pluginName then None
      else Some \<lparr>px_registry = newRegistry, podsByIP = Map.empty, pod_store = store, next_addr = 0\<rparr>)"

text \<open>A new object, as the event queue hands one out.\<close>

definition alloc_pod :: "Pod \<Rightarrow> proxyState \<Rightarrow> nat \<times> proxyState" where
  "alloc_pod pod proxy =
     (next_addr proxy,
      proxy\<lparr>pod_store := (pod_store proxy)(next_addr proxy := pod), next_addr := next_addr proxy + 1\<rparr>)"

definition write_pod :: "nat \<Rightarrow> Pod \<Rightarrow> proxyState \<Rightarrow> proxyState" where
  "write_pod a pod proxy = proxy\<lparr>pod_store := (pod_store proxy)(a := pod)\<rparr>"

section \<open>Operations\<close>

definition getTrackedPod :: "string \<Rightarrow> proxyState \<Rightarrow> Pod option" where
  "getTrackedPod ip proxy = map_option (pod_store proxy) (podsByIP proxy ip)"

definition same_uid :: "Pod option \<Rightarrow> Pod \<Rightarrow> bool" where
  "same_uid podInfo pod = (case podInfo of None \<Rightarrow> False | Some info \<Rightarrow> pod_UID info = pod_UID pod)"

definition trackPod :: "nat \<Rightarrow> proxyState \<Rightarrow> proxyState" where
  "trackPod a proxy =
     (let pod = pod_store proxy a;
          podInfo = getTrackedPod (pod_PodIP pod) proxy
      in if pod_PodIP pod = '''' then proxy
         else if pod_Phase pod = PodPending \<or> pod_Phase pod = PodRunning
         then proxy\<lparr>podsByIP := (podsByIP proxy)(pod_PodIP pod \<mapsto> a)\<rparr>
         else if same_uid podInfo pod
         then proxy\<lparr>podsByIP := (podsByIP proxy)(pod_PodIP pod := None)\<rparr>
         else proxy)"

definition unTrackPod :: "nat \<Rightarrow> proxyState \<Rightarrow> proxyState" where
  "unTrackPod a proxy =
     (let pod = pod_store proxy a
      in if same_uid (getTrackedPod (pod_PodIP pod) proxy) pod
         then proxy\<lparr>podsByIP := (podsByIP proxy)(pod_PodIP pod := None)\<rparr>
         else proxy)"

text \<open>The loop of \<open>Start\<close>: each turn writes the pod to the one variable at \<open>a\<close> and tracks that.\<close>

fun track_all :: "nat \<Rightarrow> Pod list \<Rightarrow> proxyState \<Rightarrow> proxyState" where
  "track_all a [] proxy = proxy"
| "track_all a (pod # pods) proxy = track_all a pods (trackPod a (write_pod a pod proxy))"

definition proxy_Start :: "'w api \<Rightarrow> proxyState \<Rightarrow> 'w \<Rightarrow> error option \<times> proxyState \<times> 'w" where
  "proxy_Start api proxy w =
     (case GetAllPods api w of
        (Inl err, w1) \<Rightarrow> (Some err, proxy, w1)
      | (Inr pods, w1) \<Rightarrow>
          (None, track_all (next_addr proxy) pods (proxy\<lparr>next_addr := next_addr proxy + 1\<rparr>), w1))"

text \<open>One turn of the loop of \<open>watchPods\<close>.\<close>

fun watchPods :: "Pod event \<Rightarrow> proxyState \<Rightarrow> proxyState" where
  "watchPods (QueueFailed err) proxy = proxy"
| "watchPods (Event t pod) proxy =
     (case alloc_pod pod proxy of
        (a, proxy1) \<Rightarrow>
          if t = Added \<or> t = Modified then trackPod a proxy1
          else if t = Deleted then unTrackPod a proxy1
          else proxy1)"

section \<open>The filter\<close>

text \<open>The body of the innermost loop: whether it goes on with the next address.\<close>

definition address_ok :: "NetworkInfo \<Rightarrow> proxyState \<Rightarrow> string \<Rightarrow> string \<Rightarrow> bool" where
  "address_ok ni proxy ns addr =
     (let ip = ParseIP addr
      in if IPNet_Contains (ni_ServiceNetwork ni) ip then False
         else if IPNet_Contains (ni_ClusterNetwork ni) ip then
           (case getTrackedPod addr proxy of
              None \<Rightarrow> False
            | Some podInfo \<Rightarrow> if pod_Namespace podInfo \<noteq> ns then False else True)
         else True)"

fun addresses_ok :: "NetworkInfo \<Rightarrow> proxyState \<Rightarrow> string \<Rightarrow> string list \<Rightarrow> bool" where
  "addresses_ok ni proxy ns [] = True"
| "addresses_ok ni proxy ns (addr # addrs) =
     (if address_ok ni proxy ns addr then addresses_ok ni proxy ns addrs else False)"

fun subsets_ok :: "NetworkInfo \<Rightarrow> proxyState \<Rightarrow> string \<Rightarrow> string list list \<Rightarrow> bool" where
  "subsets_ok ni proxy ns [] = True"
| "subsets_ok ni proxy ns (ss # subsets) =
     (if addresses_ok ni proxy ns ss then subsets_ok ni proxy ns subsets else False)"

fun filter_endpoints :: "NetworkInfo \<Rightarrow> proxyState \<Rightarrow> Endpoints list \<Rightarrow> Endpoints list \<Rightarrow> Endpoints list" where
  "filter_endpoints ni proxy [] filtered = filtered"
| "filter_endpoints ni proxy (ep # eps) filtered =
     (if subsets_ok ni proxy (ep_Namespace ep) (ep_Subsets ep)
      then filter_endpoints ni proxy eps (filtered @ [ep])
      else filter_endpoints ni proxy eps filtered)"

text \<open>What the base handler is called with, or \<open>None\<close> when it is not called.\<close>

definition OnEndpointsUpdate ::
  "'w api \<Rightarrow> Endpoints list \<Rightarrow> proxyState \<Rightarrow> 'w \<Rightarrow> Endpoints list option \<times> proxyState \<times> 'w" where
  "OnEndpointsUpdate api allEndpoints proxy w =
     (case GetNetworkInfo api (px_registry proxy) w of
        (Inl err, registry1, w1) \<Rightarrow> (None, proxy\<lparr>px_registry := registry1\<rparr>, w1)
      | (Inr ni, registry1, w1) \<Rightarrow>
          (Some (filter_endpoints ni proxy allEndpoints []), proxy\<lparr>px_registry := registry1\<rparr>, w1))"

section \<open>What the filter lets through\<close>

definition address_allowed :: "NetworkInfo \<Rightarrow> proxyState \<Rightarrow> string \<Rightarrow> string \<Rightarrow> bool" where
  "address_allowed ni proxy ns addr \<longleftrightarrow>
     \<not> IPNet_Contains (ni_ServiceNetwork ni) (ParseIP addr) \<and>
     (IPNet_Contains (ni_ClusterNetwork ni) (ParseIP addr) \<longrightarrow>
        (\<exists>pod. getTrackedPod addr proxy = Some pod \<and> pod_Namespace pod = ns))"

definition endpoints_allowed :: "NetworkInfo \<Rightarrow> proxyState \<Rightarrow> Endpoints \<Rightarrow> bool" where
  "endpoints_allowed ni proxy ep \<longleftrightarrow>
     (\<forall>ss\<in>set (ep_Subsets ep). \<forall>addr\<in>set ss. address_allowed ni proxy (ep_Namespace ep) addr)"

lemma address_ok_iff: "address_ok ni proxy ns addr \<longleftrightarrow> address_allowed ni proxy ns addr"
  by (auto simp: address_ok_def address_allowed_def Let_def split: option.splits)

lemma subsets_ok_iff:
  "addresses_ok ni proxy ns ss \<longleftrightarrow> (\<forall>addr\<in>set ss. address_allowed ni proxy ns addr)"
  "subsets_ok ni proxy ns sss \<longleftrightarrow> (\<forall>ss\<in>set sss. \<forall>addr\<in>set ss. address_allowed ni proxy ns addr)"
proof -
  show a: "addresses_ok ni proxy ns ss \<longleftrightarrow> (\<forall>addr\<in>set ss. address_allowed ni proxy ns addr)" for ss
    by (induction ss) (auto simp: address_ok_iff)
  show "subsets_ok ni proxy ns sss \<longleftrightarrow> (\<forall>ss\<in>set sss. \<forall>addr\<in>set ss. address_allowed ni proxy ns addr)"
    by (induction sss) (auto simp: a)
qed

lemma filter_endpoints_eq:
  "filter_endpoints ni proxy eps acc = acc @ filter (endpoints_allowed ni proxy) eps"
  by (induction eps arbitrary: acc) (simp_all add: subsets_ok_iff endpoints_allowed_def)

section \<open>The pods of the cluster\<close>

text \<open>
  The abstract state is the map of the pods of the cluster by their ids, as the events tell it. A
  pod holds its address while it is pending or running.
\<close>

definition holds_ip :: "string \<Rightarrow> Pod \<Rightarrow> bool" where
  "holds_ip ip pod \<longleftrightarrow> pod_PodIP pod = ip \<and> ip \<noteq> '''' \<and> pod_Phase pod \<in> {PodPending, PodRunning}"

fun cluster_step :: "Pod event \<Rightarrow> (string \<rightharpoonup> Pod) \<Rightarrow> string \<rightharpoonup> Pod" where
  "cluster_step (QueueFailed err) c = c"
| "cluster_step (Event t pod) c =
     (if t = Added \<or> t = Modified then c(pod_UID pod \<mapsto> pod)
      else if t = Deleted then c(pod_UID pod := None) else c)"

text \<open>
  What the cluster promises: a pod that has an address keeps it, and two pods never hold one
  address at the same time.
\<close>

fun pod_event_ok :: "Pod event \<Rightarrow> (string \<rightharpoonup> Pod) \<Rightarrow> bool" where
  "pod_event_ok (QueueFailed err) c = True"
| "pod_event_ok (Event t pod) c =
     ((\<forall>q. c (pod_UID pod) = Some q \<and> pod_PodIP q \<noteq> '''' \<longrightarrow> pod_PodIP pod = pod_PodIP q) \<and>
      (t \<noteq> Deleted \<longrightarrow> (\<forall>u q ip. c u = Some q \<and> holds_ip ip q \<and> holds_ip ip pod \<longrightarrow> u = pod_UID pod)))"

fun pod_events_ok :: "Pod event list \<Rightarrow> (string \<rightharpoonup> Pod) \<Rightarrow> bool" where
  "pod_events_ok [] c = True"
| "pod_events_ok (e # es) c = (pod_event_ok e c \<and> pod_events_ok es (cluster_step e c))"

text \<open>The map tracks exactly the pods that hold an address, with no pointer into the future.\<close>

definition tracks :: "proxyState \<Rightarrow> (string \<rightharpoonup> Pod) \<Rightarrow> bool" where
  "tracks proxy c \<longleftrightarrow>
     (\<forall>ip a. podsByIP proxy ip = Some a \<longrightarrow> a < next_addr proxy) \<and>
     (\<forall>u q. c u = Some q \<longrightarrow> pod_UID q = u) \<and>
     (\<forall>ip q. getTrackedPod ip proxy = Some q \<longleftrightarrow> c (pod_UID q) = Some q \<and> holds_ip ip q)"

lemma getTrackedPod_alloc:
  assumes "\<forall>ip a. podsByIP proxy ip = Some a \<longrightarrow> a < next_addr proxy"
  shows "getTrackedPod ip (snd (alloc_pod pod proxy)) = getTrackedPod ip proxy"
  using assms by (cases "podsByIP proxy ip") (fastforce simp: getTrackedPod_def alloc_pod_def)+

lemma tracks_step:
  assumes "tracks proxy c" and "pod_event_ok e c"
  shows "tracks (watchPods e proxy) (cluster_step e c)"
proof (cases e)
  case (QueueFailed err)
  with assms show ?thesis by simp
next
  case (Event t pod)
  let ?a = "next_addr proxy"
  from assms(1) have lt: "\<forall>ip a. podsByIP proxy ip = Some a \<longrightarrow> a < next_addr proxy"
    and uid: "\<And>u q. c u = Some q \<Longrightarrow> pod_UID q = u"
    and tr: "\<And>ip q. getTrackedPod ip proxy = Some q \<longleftrightarrow> c (pod_UID q) = Some q \<and> holds_ip ip q"
    by (auto simp: tracks_def)
  from assms(2) Event have keep: "\<And>q. c (pod_UID pod) = Some q \<Longrightarrow> pod_PodIP q \<noteq> '''' \<Longrightarrow> pod_PodIP pod = pod_PodIP q"
    and uniq: "\<And>u q ip. t \<noteq> Deleted \<Longrightarrow> c u = Some q \<Longrightarrow> holds_ip ip q \<Longrightarrow> holds_ip ip pod \<Longrightarrow> u = pod_UID pod"
    by auto
  obtain px where p: "alloc_pod pod proxy = (?a, px)" "pod_store px ?a = pod" "next_addr px = ?a + 1"
    "podsByIP px = podsByIP proxy" by (simp add: alloc_pod_def)
  have getp: "getTrackedPod ip px = getTrackedPod ip proxy" for ip
    using getTrackedPod_alloc [OF lt, of ip pod] p(1) by simp
  have w: "watchPods e proxy = (if t = Added \<or> t = Modified then trackPod ?a px
      else if t = Deleted then unTrackPod ?a px else px)" by (simp add: Event p(1))
  have lt': "\<forall>ip a. podsByIP (watchPods e proxy) ip = Some a \<longrightarrow> a < next_addr (watchPods e proxy)"
    unfolding w using lt p by (auto simp: trackPod_def unTrackPod_def Let_def less_Suc_eq split: if_splits)
  have uid': "\<forall>u q. cluster_step e c u = Some q \<longrightarrow> pod_UID q = u"
    using uid Event by (auto split: if_splits)
  have get: "getTrackedPod ip (watchPods e proxy) =
      (if t = Added \<or> t = Modified then
         (if holds_ip ip pod then Some pod
          else if pod_PodIP pod = ip \<and> ip \<noteq> '''' \<and> same_uid (getTrackedPod ip proxy) pod then None
          else getTrackedPod ip proxy)
       else if t = Deleted \<and> pod_PodIP pod = ip \<and> same_uid (getTrackedPod ip proxy) pod then None
       else getTrackedPod ip proxy)" for ip
    unfolding w using p getp
    by (auto simp: trackPod_def unTrackPod_def Let_def holds_ip_def) (auto simp: getTrackedPod_def)
  have "getTrackedPod ip (watchPods e proxy) = Some q \<longleftrightarrow>
      cluster_step e c (pod_UID q) = Some q \<and> holds_ip ip q" for ip q
  proof (cases "t = Added \<or> t = Modified")
    case True
    show ?thesis
    proof (cases "pod_UID q = pod_UID pod")
      case same: True
      have "\<not> (getTrackedPod ip proxy = Some q \<and> \<not> (pod_PodIP pod = ip \<and> ip \<noteq> '''' ))"
        using tr [of ip q] keep same by (auto simp: holds_ip_def)
      then show ?thesis using get [of ip] True same Event
        by (auto simp: same_uid_def holds_ip_def split: option.splits)
    next
      case False
      have "holds_ip ip pod \<Longrightarrow> \<not> (c (pod_UID q) = Some q \<and> holds_ip ip q)"
        using uniq [of "pod_UID q" q ip] True False by auto
      with get [of ip] True False Event tr [of ip q] show ?thesis
        by (auto simp: same_uid_def split: option.splits if_splits)
    qed
  next
    case False
    show ?thesis
    proof (cases "t = Deleted \<and> pod_UID q = pod_UID pod")
      case True
      have "getTrackedPod ip proxy = Some q \<Longrightarrow> pod_PodIP pod = ip"
        using tr [of ip q] keep True by (auto simp: holds_ip_def)
      with True get [of ip] False Event show ?thesis by (auto simp: same_uid_def split: if_splits)
    next
      case d: False
      with get [of ip] False Event tr [of ip q] show ?thesis
        by (auto simp: same_uid_def split: option.splits if_splits)
    qed
  qed
  with lt' uid' show ?thesis by (simp add: tracks_def)
qed

lemma tracks_run:
  "tracks proxy c \<Longrightarrow> pod_events_ok es c \<Longrightarrow> tracks (run watchPods es proxy) (run cluster_step es c)"
  by (induction es arbitrary: proxy c) (auto intro: tracks_step)

section \<open>Properties\<close>

lemma watchPods_registry: "px_registry (run watchPods es proxy) = px_registry proxy"
proof (induction es arbitrary: proxy)
  case (Cons e es)
  have "px_registry (watchPods e proxy) = px_registry proxy"
    by (cases e) (auto simp: alloc_pod_def trackPod_def unTrackPod_def Let_def)
  with Cons show ?case by simp
qed simp


definition sample_pod :: "string \<Rightarrow> string \<Rightarrow> string \<Rightarrow> PodPhase \<Rightarrow> Pod" where
  "sample_pod uid ns ip phase =
     \<lparr>pod_Name = uid, pod_Namespace = ns, pod_UID = uid, pod_Annotations = Map.empty, pod_Containers = [],
      pod_Phase = phase, pod_PodIP = ip, pod_ContainerIDs = []\<rparr>"

lemma sample_pod_simps [simp]:
  "pod_UID (sample_pod u ns ip ph) = u" "pod_Namespace (sample_pod u ns ip ph) = ns"
  "pod_PodIP (sample_pod u ns ip ph) = ip" "pod_Phase (sample_pod u ns ip ph) = ph"
  by (simp_all add: sample_pod_def)

definition sample_proxy :: proxyState where
  "sample_proxy =
     \<lparr>px_registry = \<lparr>reg_NetworkInfo = Some sample_network\<rparr>, podsByIP = Map.empty,
      pod_store = \<lambda>_. sample_pod '''' '''' '''' PodUnknown, next_addr = 0\<rparr>"

lemma tracks_empty: "podsByIP proxy = Map.empty \<Longrightarrow> tracks proxy Map.empty"
  by (simp add: tracks_def getTrackedPod_def)


section \<open>The start\<close>

lemma track_all_active:
  assumes "\<forall>p\<in>set pods. \<exists>ip. holds_ip ip p"
  shows "podsByIP (track_all a pods proxy) ip =
      (if \<exists>p\<in>set pods. pod_PodIP p = ip then Some a else podsByIP proxy ip)
    \<and> (pods \<noteq> [] \<longrightarrow> pod_store (track_all a pods proxy) a = last pods)"
  using assms
proof (induction pods arbitrary: proxy)
  case (Cons p pods)
  let ?p = "trackPod a (write_pod a p proxy)"
  from Cons.prems have h: "podsByIP ?p = (podsByIP proxy)(pod_PodIP p \<mapsto> a)" "pod_store ?p a = p"
    by (auto simp: trackPod_def write_pod_def Let_def holds_ip_def)
  have "podsByIP (track_all a pods ?p) ip = (if \<exists>p\<in>set pods. pod_PodIP p = ip then Some a else podsByIP ?p ip)
      \<and> (pods \<noteq> [] \<longrightarrow> pod_store (track_all a pods ?p) a = last pods)"
    by (rule Cons.IH) (use Cons.prems in simp)
  with h show ?case by (cases pods) auto
qed simp

text \<open>
  C23: the loop of the start tracks the address of its own variable. Right after the start, every
  address that a pod holds leads to the last pod of the list: in a cluster with pods of two
  namespaces, endpoints of the last pod's namespace that point to a pod of another namespace are
  let through, and the rightful ones of that namespace are dropped.
\<close>

theorem proxy_Start_tracks_last_pod:
  assumes "GetAllPods api w = (Inr pods, w1)" and "\<forall>p\<in>set pods. \<exists>ip. holds_ip ip p"
    and "p \<in> set pods"
    and "proxy_Start api proxy w = (e, proxy', w')"
    and "IPNet_Contains (ni_ClusterNetwork ni) (ParseIP (pod_PodIP p))"
    and "\<not> IPNet_Contains (ni_ServiceNetwork ni) (ParseIP (pod_PodIP p))"
  shows "e = None \<and> getTrackedPod (pod_PodIP p) proxy' = Some (last pods)
    \<and> (address_ok ni proxy' ns (pod_PodIP p) \<longleftrightarrow> ns = pod_Namespace (last pods))"
proof -
  let ?a = "next_addr proxy"
  from assms(1,4) have e: "e = None" "proxy' = track_all ?a pods (proxy\<lparr>next_addr := next_addr proxy + 1\<rparr>)"
    by (auto simp: proxy_Start_def)
  from track_all_active [OF assms(2), of ?a "proxy\<lparr>next_addr := next_addr proxy + 1\<rparr>" "pod_PodIP p"] assms(3)
  have "podsByIP proxy' (pod_PodIP p) = Some ?a" "pod_store proxy' ?a = last pods" by (auto simp: e(2))
  then have "getTrackedPod (pod_PodIP p) proxy' = Some (last pods)" by (simp add: getTrackedPod_def)
  with e(1) assms(5,6) show ?thesis by (auto simp: address_ok_iff address_allowed_def)
qed

definition two_pods :: memory where
  "two_pods = empty_memory\<lparr>mem_pods :=
     [sample_pod ''a'' ''p1'' ''10.1.0.2'' PodRunning, sample_pod ''b'' ''p2'' ''10.1.0.3'' PodRunning]\<rparr>"

theorem proxy_Start_tracks_last_pod_witness:
  "address_ok sample_network (fst (snd (proxy_Start memory_api sample_proxy two_pods))) ''p2'' ''10.1.0.2''
   \<and> \<not> address_ok sample_network (fst (snd (proxy_Start memory_api sample_proxy two_pods))) ''p1'' ''10.1.0.2''"
proof -
  have g: "GetAllPods memory_api two_pods = (Inr (mem_pods two_pods), two_pods)"
    by (simp add: GetAllPods_def memory_api_def NamespaceAll_def)
  have ip: "ParseIP ''10.1.0.2'' = IPv4 10 1 0 2" by (simp add: ParseIP_def str_simps)
  have "proxy_Start memory_api sample_proxy two_pods =
      (fst (proxy_Start memory_api sample_proxy two_pods), fst (snd (proxy_Start memory_api sample_proxy two_pods)),
       snd (snd (proxy_Start memory_api sample_proxy two_pods)))" by simp
  note t = proxy_Start_tracks_last_pod [OF g _ _ this, where p = "sample_pod ''a'' ''p1'' ''10.1.0.2'' PodRunning"
      and ni = sample_network]
  show ?thesis using t [of "''p2''"] t [of "''p1''"]
    by (auto simp: two_pods_def holds_ip_def ip sample_network_def str_simps)
qed

end
