(* ===== verification/Admin.thy ===== *)
theory Admin
  imports VnidMaster
begin

text \<open>
  \<open>pkg/cmd/admin/network\<close>: the commands with which an administrator joins the networks of
  projects or makes projects global. They change the ids stored in the NetNamespaces. The
  builder that finds the projects on the server, the parser of label selectors and what the
  command line library does with an error are parameters.
\<close>

section \<open>Options\<close>

record ProjectOptions =
  po_DefaultNamespace :: string
  po_ProjectNames :: "string list"
  po_Selector :: string
  po_CheckSelector :: bool

record JoinOptions =
  jo_Options :: ProjectOptions
  jo_joinProjectName :: string

text \<open>What \<open>Complete\<close> asks the factory for: a default namespace, and clients.\<close>

definition Complete :: "error + string \<Rightarrow> error option \<Rightarrow> string list \<Rightarrow> ProjectOptions \<Rightarrow> error option \<times> ProjectOptions" where
  "Complete defaultNamespace clients args p =
     (case defaultNamespace of
        Inl err \<Rightarrow> (Some err, p)
      | Inr ns \<Rightarrow>
          (case clients of
             Some err \<Rightarrow> (Some err, p)
           | None \<Rightarrow> (None, p\<lparr>po_DefaultNamespace := ns, po_ProjectNames := (if args \<noteq> [] then [] @ args else [])\<rparr>)))"

definition Validate :: "(string \<Rightarrow> error option) \<Rightarrow> ProjectOptions \<Rightarrow> error option" where
  "Validate parseLabels p =
     NewAggregate
       (if po_CheckSelector p then
          (if length (po_Selector p) > 0 \<and> parseLabels (po_Selector p) \<noteq> None
           then [Errorf ''--selector=<project_selector> must be a valid label selector'' []] else []) @
          (if po_ProjectNames p \<noteq> []
           then [Errorf ''either specify --selector=<project_selector> or projects but not both'' []] else [])
        else if po_ProjectNames p = []
        then [Errorf ''must provide --selector=<project_selector> or projects'' []]
        else [])"

section \<open>Projects\<close>

text \<open>
  The builder: from the default namespace, the selector and the names it gives an error, or the
  sequence of objects it visits, each an error, an object that is not a project (\<open>None\<close>), or a
  project, which is its name.
\<close>

type_synonym 'w builder =
  "string \<Rightarrow> string \<Rightarrow> string list \<Rightarrow> 'w \<Rightarrow> (error + (error + string option) list) \<times> 'w"

fun visit_all :: "(error + string option) list \<Rightarrow> string list \<Rightarrow> error list \<Rightarrow> string list \<times> error list" where
  "visit_all [] projectList errList = (projectList, errList)"
| "visit_all (Inl err # infos) projectList errList = visit_all infos projectList errList"
| "visit_all (Inr None # infos) projectList errList =
     visit_all infos projectList (errList @ [Errorf ''cannot convert input to Project: %v'' []])"
| "visit_all (Inr (Some project) # infos) projectList errList =
     visit_all infos (projectList @ [project]) errList"

definition GetProjects :: "'w builder \<Rightarrow> ProjectOptions \<Rightarrow> 'w \<Rightarrow> (string list \<times> error option) \<times> 'w" where
  "GetProjects builder p w =
     (let nameArgs = [''projects''] @ (if po_ProjectNames p \<noteq> [] then po_ProjectNames p else [])
      in case builder (po_DefaultNamespace p) (po_Selector p) nameArgs w of
           (Inl err, w1) \<Rightarrow> (([], Some err), w1)
         | (Inr infos, w1) \<Rightarrow>
             (case visit_all infos [] [] of
                (projectList, errList) \<Rightarrow>
                  if errList \<noteq> [] then ((projectList, NewAggregate errList), w1)
                  else if projectList = [] then ((projectList, Some (Errorf ''No projects found'' [])), w1)
                  else if set (po_ProjectNames p) - set projectList \<noteq> {}
                  then ((projectList, Some (Errorf ''Projects %v not found'' [])), w1)
                  else ((projectList, None), w1)))"

section \<open>Network ids\<close>

definition admin_GetNetNamespaces :: "'w api \<Rightarrow> ('w, NetNamespace list) call" where
  "admin_GetNetNamespaces api = NetNamespaces_List api"

fun search_netns :: "string \<Rightarrow> NetNamespace list \<Rightarrow> error + u64" where
  "search_netns name [] = Inl (Errorf ''Net ID not found for project: %s'' [])"
| "search_netns name (netNs # items) = (if name = nn_Name netNs then Inr (nn_NetID netNs) else search_netns name items)"

definition admin_GetNetID :: "'w api \<Rightarrow> string \<Rightarrow> ('w, u64) call" where
  "admin_GetNetID api name w =
     (case admin_GetNetNamespaces api w of
        (Inl err, w1) \<Rightarrow> (Inl err, w1)
      | (Inr items, w1) \<Rightarrow> (search_netns name items, w1))"

definition newNetNamespace :: "string \<Rightarrow> u64 \<Rightarrow> NetNamespace" where
  "newNetNamespace name netid = \<lparr>nn_Name = name, nn_NetName = name, nn_NetID = netid\<rparr>"

definition CreateOrUpdateNetNamespace :: "'w api \<Rightarrow> string \<Rightarrow> u64 \<Rightarrow> 'w \<Rightarrow> error option \<times> 'w" where
  "CreateOrUpdateNetNamespace api name netid w =
     (case NetNamespaces_Get api name w of
        (Inl _, w1) \<Rightarrow> map_prod err_of id (NetNamespaces_Create api (newNetNamespace name netid) w1)
      | (Inr netns, w1) \<Rightarrow>
          if nn_NetID netns \<noteq> netid
          then map_prod err_of id (NetNamespaces_Update api (netns\<lparr>nn_NetID := netid\<rparr>) w1)
          else (None, w1))"

section \<open>The commands\<close>

text \<open>The loop both commands have: every project is tried, and the errors are collected.\<close>

fun assign_all :: "'w api \<Rightarrow> string \<Rightarrow> u64 \<Rightarrow> string list \<Rightarrow> error list \<Rightarrow> 'w \<Rightarrow> error list \<times> 'w" where
  "assign_all api msg netID [] errList w = (errList, w)"
| "assign_all api msg netID (project # projects) errList w =
     (case CreateOrUpdateNetNamespace api project netID w of
        (Some err, w1) \<Rightarrow> assign_all api msg netID projects (errList @ [Errorf msg [err]]) w1
      | (None, w1) \<Rightarrow> assign_all api msg netID projects errList w1)"

definition join_Validate :: "(string \<Rightarrow> error option) \<Rightarrow> JoinOptions \<Rightarrow> error option" where
  "join_Validate parseLabels j =
     NewAggregate
       ((case Validate parseLabels (jo_Options j) of None \<Rightarrow> [] | Some err \<Rightarrow> [err]) @
        (if length (jo_joinProjectName j) = 0 then [Errorf ''must provide --to=<project_name>'' []] else []))"

definition join_Run :: "'w api \<Rightarrow> 'w builder \<Rightarrow> JoinOptions \<Rightarrow> 'w \<Rightarrow> error option \<times> 'w" where
  "join_Run api builder j w =
     (case admin_GetNetID api (jo_joinProjectName j) w of
        (Inl err, w1) \<Rightarrow> (Some err, w1)
      | (Inr netID, w1) \<Rightarrow>
          (case GetProjects builder (jo_Options j) w1 of
             ((_, Some err), w2) \<Rightarrow> (Some err, w2)
           | ((projects, None), w2) \<Rightarrow>
               (case assign_all api ''Project '%s' failed to join '%s', error: %v'' netID projects [] w2 of
                  (errList, w3) \<Rightarrow> (NewAggregate errList, w3))))"

definition globalVNID :: u64 where
  "globalVNID = 0"

definition global_Run :: "'w api \<Rightarrow> 'w builder \<Rightarrow> ProjectOptions \<Rightarrow> 'w \<Rightarrow> error option \<times> 'w" where
  "global_Run api builder opts w =
     (case GetProjects builder opts w of
        ((_, Some err), w1) \<Rightarrow> (Some err, w1)
      | ((projects, None), w1) \<Rightarrow>
          (case assign_all api ''Removing network isolation for project '%s' failed, error: %v'' globalVNID projects [] w1 of
             (errList, w2) \<Rightarrow> (NewAggregate errList, w2)))"

text \<open>The command that is not offered: it gives one error per project.\<close>

definition isolate_Run :: "'w builder \<Rightarrow> ProjectOptions \<Rightarrow> 'w \<Rightarrow> error option \<times> 'w" where
  "isolate_Run builder opts w =
     (case GetProjects builder opts w of
        ((_, Some err), w1) \<Rightarrow> (Some err, w1)
      | ((projects, None), w1) \<Rightarrow>
          (NewAggregate (map (\<lambda>project. Errorf ''Project '%s' can not be isolated. Isolate project network feature yet to be implemented!'' []) projects), w1))"

text \<open>
  The functions the command line library runs. \<open>CheckErr\<close> ends the program when there is an
  error: the first error is the result.
\<close>

definition join_command ::
  "'w api \<Rightarrow> 'w builder \<Rightarrow> (string \<Rightarrow> error option) \<Rightarrow> (error \<Rightarrow> error) \<Rightarrow> error + string \<Rightarrow> error option
     \<Rightarrow> bool \<Rightarrow> string list \<Rightarrow> JoinOptions \<Rightarrow> 'w \<Rightarrow> error option \<times> 'w" where
  "join_command api builder parseLabels usageError defaultNamespace clients changed args j w =
     (case Complete defaultNamespace clients args (jo_Options j) of
        (Some err, _) \<Rightarrow> (Some err, w)
      | (None, opts) \<Rightarrow>
          (let j1 = j\<lparr>jo_Options := opts\<lparr>po_CheckSelector := changed\<rparr>\<rparr>
           in case join_Validate parseLabels j1 of
                Some err \<Rightarrow> (Some (usageError err), w)
              | None \<Rightarrow> join_Run api builder j1 w))"

definition global_command ::
  "'w api \<Rightarrow> 'w builder \<Rightarrow> (string \<Rightarrow> error option) \<Rightarrow> (error \<Rightarrow> error) \<Rightarrow> error + string \<Rightarrow> error option
     \<Rightarrow> bool \<Rightarrow> string list \<Rightarrow> ProjectOptions \<Rightarrow> 'w \<Rightarrow> error option \<times> 'w" where
  "global_command api builder parseLabels usageError defaultNamespace clients changed args opts w =
     (case Complete defaultNamespace clients args opts of
        (Some err, _) \<Rightarrow> (Some err, w)
      | (None, opts1) \<Rightarrow>
          (let opts2 = opts1\<lparr>po_CheckSelector := changed\<rparr>
           in case Validate parseLabels opts2 of
                Some err \<Rightarrow> (Some (usageError err), w)
              | None \<Rightarrow> global_Run api builder opts2 w))"

definition isolate_command ::
  "'w builder \<Rightarrow> (string \<Rightarrow> error option) \<Rightarrow> (error \<Rightarrow> error) \<Rightarrow> error + string \<Rightarrow> error option
     \<Rightarrow> bool \<Rightarrow> string list \<Rightarrow> ProjectOptions \<Rightarrow> 'w \<Rightarrow> error option \<times> 'w" where
  "isolate_command builder parseLabels usageError defaultNamespace clients changed args opts w =
     (case Complete defaultNamespace clients args opts of
        (Some err, _) \<Rightarrow> (Some err, w)
      | (None, opts1) \<Rightarrow>
          (let opts2 = opts1\<lparr>po_CheckSelector := changed\<rparr>
           in case Validate parseLabels opts2 of
                Some err \<Rightarrow> (Some (usageError err), w)
              | None \<Rightarrow> isolate_Run builder opts2 w))"

section \<open>What the commands do to the server\<close>

text \<open>The NetNamespaces stored in a world, when only this command writes them.\<close>

definition netns_writer :: "'w api \<Rightarrow> ('w \<Rightarrow> string \<rightharpoonup> u64) \<Rightarrow> bool" where
  "netns_writer api view \<longleftrightarrow> netns_server api view False \<and>
     (\<forall>ns w r w'. NetNamespaces_Get api ns w = (r, w') \<longrightarrow> (\<forall>n. r = Inr n \<longrightarrow> nn_Name n = ns)) \<and>
     (\<forall>n w r w'. NetNamespaces_Update api n w = (r, w') \<longrightarrow>
        (case r of Inl e \<Rightarrow> view w' = view w
         | Inr _ \<Rightarrow> view w (nn_Name n) \<noteq> None \<and> view w' = (view w)(nn_Name n \<mapsto> nn_NetID n)))"

lemma netns_writer_facts:
  assumes "netns_writer api view"
  shows "NetNamespaces_List api w = (l, w') \<Longrightarrow> view w' = view w \<and>
      (\<forall>nets. l = Inr nets \<longrightarrow> map_of (map (\<lambda>n. (nn_Name n, nn_NetID n)) nets) = view w)"
    and "NetNamespaces_Get api ns w = (r, w') \<Longrightarrow> view w' = view w \<and>
      (\<forall>n. r = Inr n \<longrightarrow> view w ns = Some (nn_NetID n) \<and> nn_Name n = ns)"
    and "NetNamespaces_Create api n w = (r, w') \<Longrightarrow>
      (case r of Inl e \<Rightarrow> view w' = view w | Inr _ \<Rightarrow> view w' = (view w)(nn_Name n \<mapsto> nn_NetID n))"
    and "NetNamespaces_Update api n w = (r, w') \<Longrightarrow>
      (case r of Inl e \<Rightarrow> view w' = view w | Inr _ \<Rightarrow> view w' = (view w)(nn_Name n \<mapsto> nn_NetID n))"
proof -
  note s = assms [unfolded netns_writer_def netns_server_def]
  show "NetNamespaces_List api w = (l, w') \<Longrightarrow> view w' = view w \<and>
      (\<forall>nets. l = Inr nets \<longrightarrow> map_of (map (\<lambda>n. (nn_Name n, nn_NetID n)) nets) = view w)"
    using s [THEN conjunct1, THEN conjunct1, rule_format, of w l w'] by (auto split: sum.splits)
  show "NetNamespaces_Get api ns w = (r, w') \<Longrightarrow> view w' = view w \<and>
      (\<forall>n. r = Inr n \<longrightarrow> view w ns = Some (nn_NetID n) \<and> nn_Name n = ns)"
    using s [THEN conjunct1, THEN conjunct2, THEN conjunct1, rule_format, of ns w r w']
      s [THEN conjunct2, THEN conjunct1, rule_format, of ns w r w'] by (auto split: sum.splits)
  show "NetNamespaces_Create api n w = (r, w') \<Longrightarrow>
      (case r of Inl e \<Rightarrow> view w' = view w | Inr _ \<Rightarrow> view w' = (view w)(nn_Name n \<mapsto> nn_NetID n))"
    using s [THEN conjunct1, THEN conjunct2, THEN conjunct2, THEN conjunct1, rule_format, of n w r w']
    by (auto split: sum.splits)
  show "NetNamespaces_Update api n w = (r, w') \<Longrightarrow>
      (case r of Inl e \<Rightarrow> view w' = view w | Inr _ \<Rightarrow> view w' = (view w)(nn_Name n \<mapsto> nn_NetID n))"
    using s [THEN conjunct2, THEN conjunct2, rule_format, of n w r w'] by (auto split: sum.splits)
qed

lemma CreateOrUpdate_spec:
  assumes "netns_writer api view" and "CreateOrUpdateNetNamespace api name netid w = (e, w')"
  shows "if e = None then view w' = (view w)(name \<mapsto> netid) else view w' = view w"
proof -
  obtain r w1 where g: "NetNamespaces_Get api name w = (r, w1)" by fastforce
  note gf = netns_writer_facts(2) [OF assms(1) g]
  show ?thesis
  proof (cases r)
    case (Inl x)
    obtain q w2 where c: "NetNamespaces_Create api (newNetNamespace name netid) w1 = (q, w2)" by fastforce
    from netns_writer_facts(3) [OF assms(1) c] gf assms(2) g Inl c show ?thesis
      by (cases q) (auto simp: CreateOrUpdateNetNamespace_def newNetNamespace_def)
  next
    case (Inr n)
    obtain q w2 where c: "NetNamespaces_Update api (n\<lparr>nn_NetID := netid\<rparr>) w1 = (q, w2)" by fastforce
    from netns_writer_facts(4) [OF assms(1) c] gf assms(2) g Inr c show ?thesis
      by (cases q) (auto simp: CreateOrUpdateNetNamespace_def split: if_splits)
  qed
qed

text \<open>The projects that could not be assigned, and the others.\<close>

lemma assign_all_spec:
  assumes "netns_writer api view" and "assign_all api msg netID projects errList w = (errList', w')"
  shows "\<exists>failed. length errList' = length errList + length failed \<and> set failed \<subseteq> set projects
    \<and> (\<forall>p. view w' p = (if p \<in> set projects \<and> p \<notin> set failed then Some netID else view w' p))
    \<and> (\<forall>p. p \<notin> set projects \<longrightarrow> view w' p = view w p)
    \<and> (\<forall>p\<in>set failed. view w' p = view w p \<or> view w' p = Some netID)"
  using assms(2)
proof (induction projects arbitrary: errList w)
  case Nil
  then show ?case by simp
next
  case (Cons p projects)
  obtain e w1 where c: "CreateOrUpdateNetNamespace api p netID w = (e, w1)" by fastforce
  note s = CreateOrUpdate_spec [OF assms(1) c]
  let ?E = "case e of None \<Rightarrow> errList | Some err \<Rightarrow> errList @ [Errorf msg [err]]"
  from Cons.prems c have a: "assign_all api msg netID projects ?E w1 = (errList', w')" by (cases e) auto
  from Cons.IH [OF a] obtain failed where f: "length errList' = length ?E + length failed" "set failed \<subseteq> set projects"
    "\<And>q. q \<in> set projects \<Longrightarrow> q \<notin> set failed \<Longrightarrow> view w' q = Some netID"
    "\<And>q. q \<notin> set projects \<Longrightarrow> view w' q = view w1 q"
    "\<And>q. q \<in> set failed \<Longrightarrow> view w' q = view w1 q \<or> view w' q = Some netID" by metis
  show ?case
  proof (cases e)
    case None
    with s have "view w1 = (view w)(p \<mapsto> netID)" by simp
    then have v: "view w1 q = (if q = p then Some netID else view w q)" for q by simp
    have "view w' q = Some netID" if "q \<in> set (p # projects)" "q \<notin> set failed" for q
      using f(3,4) [of q] v [of q] that by (cases "q \<in> set projects") auto
    moreover have "view w' q = view w q" if "q \<notin> set (p # projects)" for q
      using f(4) [of q] v [of q] that by auto
    moreover have "view w' q = view w q \<or> view w' q = Some netID" if "q \<in> set failed" for q
      using f(5) [OF that] v [of q] by auto
    ultimately show ?thesis using f(1,2) None by (intro exI [of _ failed]) auto
  next
    case (Some x)
    with s have "view w1 = view w" by simp
    then have v: "view w1 q = view w q" for q by simp
    have "view w' q = view w q \<or> view w' q = Some netID" if "q \<in> set (p # failed)" for q
      using f(3,4,5) [of q] v [of q] that by (cases "q \<in> set projects"; cases "q \<in> set failed") auto
    then show ?thesis using f(1-4) v Some by (intro exI [of _ "p # failed"]) auto
  qed
qed

lemma search_netns_map_of:
  "search_netns name items =
     (case map_of (map (\<lambda>n. (nn_Name n, nn_NetID n)) items) name of
        None \<Rightarrow> Inl (Errorf ''Net ID not found for project: %s'' []) | Some i \<Rightarrow> Inr i)"
  by (induction items) auto

lemma GetProjects_ok:
  "GetProjects builder p w = ((projects, None), w') \<Longrightarrow> projects \<noteq> [] \<and> set (po_ProjectNames p) \<subseteq> set projects"
  by (auto simp: GetProjects_def Let_def split: sum.splits prod.splits if_splits)

lemma GetProjects_world:
  "\<forall>ns sel names w. view (snd (builder ns sel names w)) = view w
     \<Longrightarrow> GetProjects builder p w = (r, w') \<Longrightarrow> view w' = view w"
  by (auto simp: GetProjects_def Let_def split: sum.splits prod.splits if_splits) (metis snd_conv)+

section \<open>Properties\<close>

text \<open>
  C26: when \<open>join-projects\<close> reports success, every project it was given by name and every project it
  found has the id of the target's network, and nothing else has changed; when it reports errors,
  each project has its old id or the target's, and no project outside the list is touched. A
  target without a NetNamespace is an error, and then nothing has changed.
\<close>

theorem join_projects_assigns:
  assumes "netns_writer api view"
    and "\<forall>ns sel names w. view (snd (builder ns sel names w)) = view w"
    and "join_Run api builder j w = (e, w')"
  shows "case e of
      None \<Rightarrow> \<exists>netID projects. view w (jo_joinProjectName j) = Some netID
        \<and> set (po_ProjectNames (jo_Options j)) \<subseteq> set projects \<and> projects \<noteq> []
        \<and> view w' = (\<lambda>p. if p \<in> set projects then Some netID else view w p)
    | Some err \<Rightarrow> view w' = view w \<or>
        (\<exists>netID projects. view w (jo_joinProjectName j) = Some netID
          \<and> (\<forall>p. view w' p = view w p \<or> p \<in> set projects \<and> view w' p = Some netID))"
proof -
  obtain l w1 where l: "NetNamespaces_List api w = (l, w1)" by fastforce
  note lf = netns_writer_facts(1) [OF assms(1) l]
  show ?thesis
  proof (cases "admin_GetNetID api (jo_joinProjectName j) w")
    case (Pair r w1')
    with l have w1: "w1' = w1" by (auto simp: admin_GetNetID_def admin_GetNetNamespaces_def split: sum.splits)
    show ?thesis
    proof (cases r)
      case (Inl x)
      with assms(3) Pair w1 lf show ?thesis by (auto simp: join_Run_def)
    next
      case (Inr netID)
      with Pair l lf have t: "view w (jo_joinProjectName j) = Some netID"
        by (auto simp: admin_GetNetID_def admin_GetNetNamespaces_def search_netns_map_of split: sum.splits option.splits)
      obtain projects pe w2 where p: "GetProjects builder (jo_Options j) w1 = ((projects, pe), w2)"
        by (metis prod.exhaust)
      from GetProjects_world [OF assms(2) p] lf have v2: "view w2 = view w" by simp
      show ?thesis
      proof (cases pe)
        case (Some x)
        with assms(3) Pair w1 Inr p v2 show ?thesis by (auto simp: join_Run_def)
      next
        case None
        obtain errs w3 where a: "assign_all api ''Project '%s' failed to join '%s', error: %v'' netID projects [] w2 = (errs, w3)"
          by fastforce
        from assms(3) Pair w1 Inr p None a have e: "e = NewAggregate errs" "w' = w3" by (auto simp: join_Run_def)
        from assign_all_spec [OF assms(1) a] v2 obtain failed where f: "length errs = length failed"
          "set failed \<subseteq> set projects"
          "\<And>p. p \<in> set projects \<Longrightarrow> p \<notin> set failed \<Longrightarrow> view w3 p = Some netID"
          "\<And>p. p \<notin> set projects \<Longrightarrow> view w3 p = view w p"
          "\<And>p. p \<in> set failed \<Longrightarrow> view w3 p = view w p \<or> view w3 p = Some netID" by (simp, metis)
        note g = GetProjects_ok [OF p [unfolded None]]
        show ?thesis
        proof (cases errs)
          case Nil
          with f have "view w3 = (\<lambda>p. if p \<in> set projects then Some netID else view w p)" by auto
          with Nil e t g show ?thesis by (auto intro!: exI [of _ projects])
        next
          case (Cons y ys)
          have "view w3 p = view w p \<or> p \<in> set projects \<and> view w3 p = Some netID" for p using f by blast
          with Cons e t show ?thesis by auto
        qed
      qed
    qed
  qed
qed

lemma memory_netns_writer: "netns_writer memory_api stored_ids"
proof -
  note s = memory_netns_server [unfolded netns_server_def]
  have "netns_server memory_api stored_ids False"
    unfolding netns_server_def
  proof (intro conjI allI impI, goal_cases)
    case (6 ns w r w')
    from s [THEN conjunct2, THEN conjunct2, THEN conjunct2, rule_format, OF 6] show ?case
      by (auto split: sum.splits)
  qed (use s in blast)+
  then show ?thesis
    by (auto simp: netns_writer_def memory_api_def netns_object_def stored_ids_def split: option.splits if_splits)
qed

text \<open>A builder that finds every project it is asked for by name.\<close>

definition names_builder :: "memory builder" where
  "names_builder = (\<lambda>ns sel names w. (Inr (map (\<lambda>n. Inr (Some n)) (tl names)), w))"

definition join_options :: "string \<Rightarrow> string \<Rightarrow> JoinOptions" where
  "join_options project target =
     \<lparr>jo_Options = \<lparr>po_DefaultNamespace = [], po_ProjectNames = [project], po_Selector = [], po_CheckSelector = False\<rparr>,
      jo_joinProjectName = target\<rparr>"

theorem join_projects_assigns_witness:
  "stored_ids (snd (join_Run memory_api names_builder (join_options ''p2'' ''p1'')
     (empty_memory\<lparr>mem_netns := [(''p1'', 10), (''p2'', 11)]\<rparr>))) ''p2'' = Some 10"
proof -
  let ?w = "empty_memory\<lparr>mem_netns := [(''p1'', 10), (''p2'', 11)]\<rparr>"
  let ?r = "join_Run memory_api names_builder (join_options ''p2'' ''p1'') ?w"
  have n: "fst ?r = None" by code_simp
  have "?r = (fst ?r, snd ?r)" by simp
  from join_projects_assigns [OF memory_netns_writer _ this] n show ?thesis
    by (auto simp: names_builder_def join_options_def stored_ids_def)
qed

end
