(* ===== verification/KErrors.thy ===== *)
theory KErrors
  imports Prelude
begin

text \<open>
  The vendored package \<open>k8s.io/kubernetes/pkg/util/errors\<close>, with which the program collects the
  errors of a loop into one. An aggregate is the slice of its errors, which the program builds
  from errors that are not nil; the printed form of an error that is not an aggregate is a
  parameter.
\<close>

section \<open>The model\<close>

fun agg_tail :: "string list \<Rightarrow> string" where
  "agg_tail [] = '']''"
| "agg_tail (m # ms) = '', '' @ m @ agg_tail ms"

fun Error :: "(error \<Rightarrow> string) \<Rightarrow> error \<Rightarrow> string" where
  "Error msg (Aggregate agg) =
     (case map (Error msg) agg of
        [] \<Rightarrow> ''''
      | [m] \<Rightarrow> m
      | m # ms \<Rightarrow> ''['' @ m @ agg_tail ms)"
| "Error msg err = msg err"

definition Errors :: "error list \<Rightarrow> error list" where
  "Errors agg = agg"

fun matchesError :: "error \<Rightarrow> (error \<Rightarrow> bool) list \<Rightarrow> bool" where
  "matchesError err [] = False"
| "matchesError err (fn # fns) = (if fn err then True else matchesError err fns)"

text \<open>\<open>FilterOut\<close> on an error that is not nil, and the loop over a list of them.\<close>

fun filter_out :: "(error \<Rightarrow> bool) list \<Rightarrow> error \<Rightarrow> error option"
  and filterErrors :: "(error \<Rightarrow> bool) list \<Rightarrow> error list \<Rightarrow> error list" where
  "filter_out fns (Aggregate agg) = NewAggregate (filterErrors fns agg)"
| "filter_out fns (Errorf f es) = (if \<not> matchesError (Errorf f es) fns then Some (Errorf f es) else None)"
| "filter_out fns ExitError = (if \<not> matchesError ExitError fns then Some ExitError else None)"
| "filter_out fns (Foreign s) = (if \<not> matchesError (Foreign s) fns then Some (Foreign s) else None)"
| "filterErrors fns [] = []"
| "filterErrors fns (err # list) =
     (case filter_out fns err of
        None \<Rightarrow> filterErrors fns list
      | Some r \<Rightarrow> r # filterErrors fns list)"

definition FilterOut :: "error option \<Rightarrow> (error \<Rightarrow> bool) list \<Rightarrow> error option" where
  "FilterOut err fns = (case err of None \<Rightarrow> None | Some e \<Rightarrow> filter_out fns e)"

text \<open>The errors of the flattened aggregate, and the loop that collects them.\<close>

fun flatten_loop :: "error list \<Rightarrow> error list" where
  "flatten_loop [] = []"
| "flatten_loop (Aggregate a # errs) = flatten_loop a @ flatten_loop errs"
| "flatten_loop (err # errs) = err # flatten_loop errs"

definition Flatten :: "error list option \<Rightarrow> error option" where
  "Flatten agg = (case agg of None \<Rightarrow> None | Some errs \<Rightarrow> NewAggregate (flatten_loop errs))"

text \<open>The results of the functions in the order in which they arrive.\<close>

definition AggregateGoroutines :: "error option list \<Rightarrow> error option" where
  "AggregateGoroutines arrived = NewAggregate (List.map_filter id arrived)"

section \<open>Lemmas\<close>

fun is_agg :: "error \<Rightarrow> bool" where
  "is_agg (Aggregate agg) = True"
| "is_agg err = False"

text \<open>The errors in an error that are not aggregates, from left to right.\<close>

fun leaves :: "error \<Rightarrow> error list" where
  "leaves (Aggregate agg) = concat (map leaves agg)"
| "leaves err = [err]"

lemma flatten_loop_leaves: "flatten_loop errs = concat (map leaves errs)"
  by (induction errs rule: flatten_loop.induct) simp_all

lemma leaves_not_agg: "e \<in> set (leaves err) \<Longrightarrow> \<not> is_agg e"
  by (induction err rule: leaves.induct) auto

lemma matchesError_iff: "matchesError err fns \<longleftrightarrow> (\<exists>fn\<in>set fns. fn err)"
  by (induction fns) auto

lemma leaves_filter:
  "(case filter_out fns err of None \<Rightarrow> [] | Some r \<Rightarrow> leaves r) = filter (\<lambda>e. \<not> matchesError e fns) (leaves err)"
  "concat (map leaves (filterErrors fns errs)) = filter (\<lambda>e. \<not> matchesError e fns) (concat (map leaves errs))"
proof (induction fns err and fns errs rule: filter_out_filterErrors.induct)
  case (1 fns agg)
  then show ?case by (cases "filterErrors fns agg") auto
next
  case (6 fns err list)
  then show ?case by (cases "filter_out fns err") auto
qed auto

section \<open>Properties\<close>

text \<open>
  Flattening gives the errors that are not aggregates, in their order, in one aggregate without
  nesting, and nothing when there are none. Filtering removes exactly those of them that match;
  but, other than its comment says, it keeps the nesting of the aggregates.
\<close>

lemma aggregates_flatten_filter:
  "Flatten (Some errs) = NewAggregate (concat (map leaves errs))
   \<and> (\<forall>e\<in>set (concat (map leaves errs)). \<not> is_agg e)
   \<and> (case FilterOut (Some err) fns of None \<Rightarrow> [] | Some r \<Rightarrow> leaves r)
        = filter (\<lambda>e. \<not> (\<exists>fn\<in>set fns. fn e)) (leaves err)
   \<and> FilterOut (Some (Aggregate [Aggregate [ExitError]])) [] = Some (Aggregate [Aggregate [ExitError]])"
  using leaves_filter(1) [of fns err] leaves_not_agg
  by (auto simp: Flatten_def FilterOut_def flatten_loop_leaves matchesError_iff)

lemma aggregates_flatten_filter_witness:
  "FilterOut (Some (Aggregate [ExitError, Aggregate [Foreign ''eof'', ExitError]])) [\<lambda>e. e = ExitError]
     = Some (Aggregate [Aggregate [Foreign ''eof'']])
   \<and> Flatten (Some [ExitError, Aggregate [Foreign ''eof'']]) = Some (Aggregate [ExitError, Foreign ''eof''])"
  using aggregates_flatten_filter [of "[ExitError, Aggregate [Foreign ''eof'']]" ExitError "[]"]
  by (simp add: FilterOut_def)

end
