(* ===== verification/DbusSig.thy ===== *)
theory DbusSig
  imports GoStrings "HOL-Library.Monad_Syntax" "HOL-Library.Char_ord"
begin

text \<open>
  Type signatures of the vendored package \<open>github.com/godbus/dbus\<close> (\<open>sig.go\<close>, and the checks of
  names in \<open>dbus.go\<close>), which parses what the message bus sends. A signature is a string; every
  loop over its runes looks for ASCII characters only, and these stand for themselves in UTF-8,
  so the loops are over bytes. A whole result of \<open>None\<close> is a panic.
\<close>

section \<open>Types\<close>

text \<open>
  \<open>reflect.Type\<close>, by kind; the package's own named types have a constructor each, as the code
  compares with them. A field of a struct is its type and whether it takes part (it is exported
  and its tag is not the minus sign).
\<close>

datatype gotype =
    Uint8 | Bool | Int16 | Uint16 | Int32 | UnixFD | Uint32 | UnixFDIndex | Int64 | Uint64 | Float64
  | Ptr gotype | String | ObjectPath | Struct "(bool \<times> gotype) list" | VariantT | SignatureT
  | Array gotype | Slice gotype | Map gotype gotype | Interface | OtherKind

fun isKeyType :: "gotype \<Rightarrow> bool" where
  "isKeyType Uint8 = True" | "isKeyType Uint16 = True" | "isKeyType Uint32 = True" | "isKeyType UnixFDIndex = True"
| "isKeyType Uint64 = True" | "isKeyType Int16 = True" | "isKeyType Int32 = True" | "isKeyType UnixFD = True"
| "isKeyType Int64 = True" | "isKeyType Float64 = True" | "isKeyType String = True" | "isKeyType ObjectPath = True"
| "isKeyType _ = False"

definition interfacesType :: gotype where
  "interfacesType = Slice Interface"

fun alignment :: "gotype \<Rightarrow> nat" where
  "alignment VariantT = 1"
| "alignment ObjectPath = 4"
| "alignment SignatureT = 1"
| "alignment Uint8 = 1"
| "alignment Uint16 = 2" | "alignment Int16 = 2"
| "alignment Uint32 = 4" | "alignment UnixFDIndex = 4" | "alignment Int32 = 4" | "alignment UnixFD = 4"
| "alignment String = 4" | "alignment (Array t) = 4" | "alignment (Map k v) = 4"
| "alignment (Slice t) = (if Slice t = interfacesType then 8 else 4)"
| "alignment Uint64 = 8" | "alignment Int64 = 8" | "alignment Float64 = 8" | "alignment (Struct fs) = 8"
| "alignment (Ptr t) = alignment t"
| "alignment _ = 1"

fun hasStruct :: "gotype \<Rightarrow> bool" where
  "hasStruct (Struct fs) = True" | "hasStruct VariantT = True" | "hasStruct SignatureT = True"
| "hasStruct (Slice t) = hasStruct t" | "hasStruct (Ptr t) = hasStruct t" | "hasStruct (Map k v) = hasStruct v"
| "hasStruct _ = False"

section \<open>The signature of a type\<close>

fun getSignature :: "gotype \<Rightarrow> string option"
  and field_signatures :: "(bool \<times> gotype) list \<Rightarrow> string option" where
  "getSignature Uint8 = Some ''y''"
| "getSignature Bool = Some ''b''"
| "getSignature Int16 = Some ''n''"
| "getSignature Uint16 = Some ''q''"
| "getSignature Int32 = Some ''i''"
| "getSignature UnixFD = Some ''h''"
| "getSignature Uint32 = Some ''u''"
| "getSignature UnixFDIndex = Some ''h''"
| "getSignature Int64 = Some ''x''"
| "getSignature Uint64 = Some ''t''"
| "getSignature Float64 = Some ''d''"
| "getSignature (Ptr t) = getSignature t"
| "getSignature String = Some ''s''"
| "getSignature ObjectPath = Some ''o''"
| "getSignature VariantT = Some ''v''"
| "getSignature SignatureT = Some ''g''"
| "getSignature (Struct fields) = do { s \<leftarrow> field_signatures fields; Some (''('' @ s @ '')'') }"
| "getSignature (Array t) = do { s \<leftarrow> getSignature t; Some (''a'' @ s) }"
| "getSignature (Slice t) = do { s \<leftarrow> getSignature t; Some (''a'' @ s) }"
| "getSignature (Map k v) =
     (if \<not> isKeyType k then None
      else do { ks \<leftarrow> getSignature k; vs \<leftarrow> getSignature v; Some (''a{'' @ ks @ vs @ ''}'') })"
| "getSignature Interface = None"
| "getSignature OtherKind = None"
| "field_signatures [] = Some ''''"
| "field_signatures ((used, t) # fields) =
     (if used then do { s \<leftarrow> getSignature t; ss \<leftarrow> field_signatures fields; Some (s @ ss) }
      else field_signatures fields)"

fun SignatureOf :: "gotype list \<Rightarrow> string option" where
  "SignatureOf [] = Some ''''"
| "SignatureOf (t # ts) = do { s \<leftarrow> getSignature t; ss \<leftarrow> SignatureOf ts; Some (s @ ss) }"

definition SignatureOfType :: "gotype \<Rightarrow> string option" where
  "SignatureOfType t = getSignature t"

section \<open>Parsing\<close>

record SignatureError =
  se_Sig :: string
  se_Reason :: string

definition sig_error :: "string \<Rightarrow> string \<Rightarrow> SignatureError option" where
  "sig_error s reason = Some \<lparr>se_Sig = s, se_Reason = reason\<rparr>"

fun matching_loop :: "nat \<Rightarrow> int \<Rightarrow> string \<Rightarrow> char \<Rightarrow> char \<Rightarrow> nat option" where
  "matching_loop i n [] left right = None"
| "matching_loop i n (v # s) left right =
     (let n' = (if v = left then n + 1 else if v = right then n - 1 else n)
      in if n' = 0 then Some i else matching_loop (i + 1) n' s left right)"

definition findMatching :: "string \<Rightarrow> char \<Rightarrow> char \<Rightarrow> nat option" where
  "findMatching s left right = matching_loop 0 0 s left right"

definition basic_chars :: string where
  "basic_chars = ''ybnqiuxtdsgovh''"

text \<open>
  One complete type at the front of the string: the error or none, and the rest. The loop over
  the types in a struct and over those of a whole signature is \<open>valid_seq\<close>, with a bound on its
  turns that the length of the string satisfies.
\<close>

function validSingle :: "string \<Rightarrow> nat \<Rightarrow> (SignatureError option \<times> string) option"
  and valid_seq :: "nat \<Rightarrow> string \<Rightarrow> nat \<Rightarrow> (SignatureError option \<times> string) option" where
  "validSingle s depth =
     (case s of
        [] \<Rightarrow> Some (sig_error s ''empty signature'', '''')
      | c # cs \<Rightarrow>
          if depth > 64 then Some (sig_error s ''container nesting too deep'', '''')
          else if c \<in> set basic_chars then Some (None, cs)
          else if c = CHR ''a'' then
            (if cs \<noteq> [] \<and> hd cs = CHR ''{'' then
               (case findMatching cs (CHR ''{'') (CHR ''}'') of
                  None \<Rightarrow> Some (sig_error s (''unmatched '' @ [CHR 0x27] @ ''{'' @ [CHR 0x27]), '''')
                | Some i \<Rightarrow>
                    (let rem = drop (i + 2) s;
                         s' = take (i + 1 - 2) (drop 2 s)
                     in if s' = [] then None
                        else do { (err, _) \<leftarrow> validSingle (take 1 s') (depth + 1);
                                  if err \<noteq> None then Some (err, '''')
                                  else do { (err, nr) \<leftarrow> validSingle (drop 1 s') (depth + 1);
                                            if err \<noteq> None then Some (err, '''')
                                            else if nr \<noteq> '''' then Some (sig_error s' ''too many types in dict'', '''')
                                            else Some (None, rem) } }))
             else validSingle cs (depth + 1))
          else if c = CHR ''('' then
            (case findMatching s (CHR ''('') (CHR '')'') of
               None \<Rightarrow> Some (sig_error s (''unmatched '' @ [CHR 0x27] @ '')'' @ [CHR 0x27]), '''')
             | Some i \<Rightarrow>
                 (let rem = drop (i + 1) s;
                      s' = take (i - 1) (drop 1 s)
                  in do { (err, _) \<leftarrow> valid_seq (length s') s' (depth + 1);
                          Some (err, if err \<noteq> None then '''' else rem) }))
          else Some (sig_error s ''invalid type character'', ''''))"
| "valid_seq n s depth =
     (if s = '''' then Some (None, '''')
      else case n of
             0 \<Rightarrow> None
           | Suc m \<Rightarrow> do { (err, r) \<leftarrow> validSingle s depth;
                          if err \<noteq> None then Some (err, r) else valid_seq m r depth })"
  by pat_completeness auto

termination
  by (relation "inv_image ({(a, b). a < b} <*lex*> {(a, b). a < b} <*lex*> {(a, b). a < b})
        (\<lambda>x. case x of Inl (s, d) \<Rightarrow> (65 - d, 0::nat, 0::nat) | Inr (n, s, d) \<Rightarrow> (65 - d, 1, n))")
    (auto intro: wf_lex_prod wf_less)

declare validSingle.simps [simp del] valid_seq.simps [simp del]

definition ParseSignature :: "string \<Rightarrow> (string \<times> SignatureError option) option" where
  "ParseSignature s =
     (if length s = 0 then Some ('''', None)
      else if length s > 255 then Some ('''', sig_error s ''too long'')
      else do { (err, _) \<leftarrow> valid_seq (length s) s 0;
                Some (if err \<noteq> None then '''' else s, err) })"

definition ParseSignatureMust :: "string \<Rightarrow> string option" where
  "ParseSignatureMust s = do { (sig, err) \<leftarrow> ParseSignature s; if err \<noteq> None then None else Some sig }"

definition Empty :: "string \<Rightarrow> bool" where
  "Empty sig = (sig = '''')"

definition Single :: "string \<Rightarrow> bool option" where
  "Single sig = do { (err, r) \<leftarrow> validSingle sig 0; Some (err \<noteq> None \<and> r = '''') }"

section \<open>The type of a signature\<close>

definition sigToType :: "char \<Rightarrow> gotype option" where
  "sigToType = map_of
     [(CHR ''y'', Uint8), (CHR ''b'', Bool), (CHR ''n'', Int16), (CHR ''q'', Uint16), (CHR ''i'', Int32),
      (CHR ''u'', Uint32), (CHR ''x'', Int64), (CHR ''t'', Uint64), (CHR ''d'', Float64), (CHR ''s'', String),
      (CHR ''g'', SignatureT), (CHR ''o'', ObjectPath), (CHR ''v'', VariantT), (CHR ''h'', UnixFDIndex)]"

text \<open>\<open>strings.LastIndex\<close> for one character.\<close>

fun LastIndex :: "string \<Rightarrow> char \<Rightarrow> nat option" where
  "LastIndex [] c = None"
| "LastIndex (x # xs) c =
     (case LastIndex xs c of Some i \<Rightarrow> Some (Suc i) | None \<Rightarrow> if x = c then Some 0 else None)"

text \<open>
  \<open>reflect.MapOf\<close> is given no type when the key is no basic one, and panics; the slice \<open>s[3:i]\<close>
  panics when the last closing brace is not behind it.
\<close>

function typeFor :: "string \<Rightarrow> gotype option" where
  "typeFor s =
     do { (err, _) \<leftarrow> validSingle s 0;
          if err \<noteq> None then None
          else case s of
                 [] \<Rightarrow> None
               | c # cs \<Rightarrow>
                   (case sigToType c of
                      Some t \<Rightarrow> Some t
                    | None \<Rightarrow>
                        if c = CHR ''a'' then
                          (if cs \<noteq> [] \<and> hd cs = CHR ''{'' then
                             (case LastIndex s (CHR ''}'') of
                                None \<Rightarrow> None
                              | Some i \<Rightarrow>
                                  if i < 3 then None
                                  else do { v \<leftarrow> typeFor (take (i - 3) (drop 3 s));
                                            k \<leftarrow> sigToType (s ! 2);
                                            Some (Map k v) })
                           else do { t \<leftarrow> typeFor cs; Some (Slice t) })
                        else if c = CHR ''('' then Some interfacesType
                        else None) }"
  by pat_completeness auto

termination by (relation "measure length") auto

declare typeFor.simps [simp del]

section \<open>Names\<close>

definition isMemberChar :: "char \<Rightarrow> bool" where
  "isMemberChar c \<longleftrightarrow>
     (CHR ''0'' \<le> c \<and> c \<le> CHR ''9'') \<or> (CHR ''A'' \<le> c \<and> c \<le> CHR ''Z'')
     \<or> (CHR ''a'' \<le> c \<and> c \<le> CHR ''z'') \<or> c = CHR ''_''"

definition ObjectPath_IsValid :: "string \<Rightarrow> bool" where
  "ObjectPath_IsValid s =
     (if length s = 0 then False
      else if hd s \<noteq> CHR ''/'' then False
      else if last s = CHR ''/'' \<and> length s \<noteq> 1 then False
      else if s = ''/'' then True
      else list_all (\<lambda>v. length v \<noteq> 0 \<and> list_all isMemberChar v) (Split (tl s) ''/''))"

definition isValidInterface :: "string \<Rightarrow> bool" where
  "isValidInterface s =
     (if length s = 0 \<or> length s > 255 \<or> hd s = CHR ''.'' then False
      else let elem = Split s ''.''
           in if length elem < 2 then False
              else list_all (\<lambda>v. length v \<noteq> 0 \<and> \<not> (CHR ''0'' \<le> hd v \<and> hd v \<le> CHR ''9'') \<and> list_all isMemberChar v) elem)"

definition isValidMember :: "string \<Rightarrow> bool" where
  "isValidMember s =
     (if length s = 0 \<or> length s > 255 then False
      else if Index s ''.'' \<noteq> None then False
      else if CHR ''0'' \<le> hd s \<and> hd s \<le> CHR ''9'' then False
      else list_all isMemberChar s)"

section \<open>The grammar\<close>

text \<open>The signatures of one complete type, at a depth of nesting.\<close>

inductive single_type :: "nat \<Rightarrow> string \<Rightarrow> bool" where
  basic: "d \<le> 64 \<Longrightarrow> c \<in> set basic_chars \<Longrightarrow> single_type d [c]"
| array: "d \<le> 64 \<Longrightarrow> single_type (d + 1) w \<Longrightarrow> single_type d (CHR ''a'' # w)"
| dict: "d + 1 \<le> 64 \<Longrightarrow> k \<in> set basic_chars \<Longrightarrow> single_type (d + 1) w
    \<Longrightarrow> single_type d (''a{'' @ [k] @ w @ ''}'')"
| struct: "d \<le> 64 \<Longrightarrow> \<forall>w\<in>set ws. single_type (d + 1) w \<Longrightarrow> single_type d (''('' @ concat ws @ '')'')"

lemma single_type_not_Nil: "single_type d w \<Longrightarrow> w \<noteq> []"
  by (induction rule: single_type.induct) auto

definition brackets :: "char \<Rightarrow> char \<Rightarrow> bool" where
  "brackets l r \<longleftrightarrow> (l, r) \<in> {(CHR ''{'', CHR ''}''), (CHR ''('', CHR '')'')}"

lemma basic_not_bracket:
  "c \<in> set basic_chars \<Longrightarrow> brackets l r \<Longrightarrow> c \<noteq> l \<and> c \<noteq> r"
  by (auto simp: basic_chars_def brackets_def)

lemma matching_loop_concat:
  assumes "\<forall>w\<in>set ws. \<forall>i n rest. n > 0 \<longrightarrow> matching_loop i n (w @ rest) l r = matching_loop (i + length w) n rest l r"
    and "n > 0"
  shows "matching_loop i n (concat ws @ rest) l r = matching_loop (i + length (concat ws)) n rest l r"
  using assms by (induction ws arbitrary: i) (simp_all add: ac_simps)

text \<open>The brackets of either kind in a complete type are balanced.\<close>

lemma matching_loop_single:
  "single_type d w \<Longrightarrow> brackets l r \<Longrightarrow> n > 0
     \<Longrightarrow> matching_loop i n (w @ rest) l r = matching_loop (i + length w) n rest l r"
proof (induction arbitrary: i n rest rule: single_type.induct)
  case (basic d c)
  with basic_not_bracket [of c l r] show ?case by (simp add: Let_def)
next
  case (array d w)
  have "CHR ''a'' \<noteq> l" "CHR ''a'' \<noteq> r" using array.prems by (auto simp: brackets_def)
  with array show ?case by (simp add: Let_def)
next
  case (dict d k w)
  have k: "k \<noteq> l" "k \<noteq> r" using basic_not_bracket dict by blast+
  show ?case
  proof (cases "l = CHR ''{''")
    case True
    with dict.prems(1) have r: "r = CHR ''}''" by (auto simp: brackets_def)
    have "n + 1 > 0" using dict.prems by simp
    then show ?thesis using dict.IH [of "n + 1"] dict.prems k True r by (simp add: Let_def)
  next
    case False
    with dict.prems(1) have "l = CHR ''(''" "r = CHR '')''" by (auto simp: brackets_def)
    then show ?thesis using dict k by (simp add: Let_def)
  qed
next
  case (struct d ws)
  have c: "matching_loop i n (concat ws @ rest) l r = matching_loop (i + length (concat ws)) n rest l r"
    if "n > 0" for i n rest
    using struct that by (intro matching_loop_concat) auto
  show ?case
  proof (cases "l = CHR ''(''")
    case True
    with struct.prems(1) have r: "r = CHR '')''" by (auto simp: brackets_def)
    show ?thesis using c [of "n + 1"] struct.prems True r by (simp add: Let_def)
  next
    case False
    with struct.prems(1) have "l = CHR ''{''" "r = CHR ''}''" by (auto simp: brackets_def)
    then show ?thesis using c [of n] struct.prems by (simp add: Let_def)
  qed
qed

lemma findMatching_concat:
  assumes "\<forall>w\<in>set ws. single_type d w" "brackets l r" "l \<noteq> r"
  shows "findMatching (l # concat ws @ r # rest) l r = Some (length (concat ws) + 1)"
proof -
  have "matching_loop (Suc 0) 1 (concat ws @ r # rest) l r = matching_loop (Suc 0 + length (concat ws)) 1 (r # rest) l r"
    by (rule matching_loop_concat) (use assms matching_loop_single in \<open>auto simp del: matching_loop.simps\<close>)
  with assms show ?thesis by (simp add: findMatching_def Let_def)
qed

text \<open>What is found is a right bracket behind the start.\<close>

lemma matching_loop_found:
  "matching_loop i n s l r = Some j \<Longrightarrow> n > 0 \<Longrightarrow> i \<le> j \<and> j < i + length s \<and> s ! (j - i) = r"
proof (induction i n s l r rule: matching_loop.induct)
  case (2 i n v s l r)
  show ?case
  proof (cases "(if v = l then n + 1 else if v = r then n - 1 else n) = 0")
    case True
    with 2(2,3) show ?thesis by (auto simp: Let_def split: if_splits)
  next
    case False
    with 2(2) have m: "matching_loop (i + 1) (if v = l then n + 1 else if v = r then n - 1 else n) s l r = Some j"
      by (simp add: Let_def)
    have "(if v = l then n + 1 else if v = r then n - 1 else n) > 0" using False 2(3) by (auto split: if_splits)
    with 2(1) [OF refl False m] have h: "i + 1 \<le> j" "j < i + 1 + length s" "s ! (j - (i + 1)) = r" by auto
    moreover from h have "j - i = Suc (j - (i + 1))" by simp
    ultimately show ?thesis by simp
  qed
qed simp

lemma findMatching_split:
  assumes "findMatching (l # s) l r = Some i" "l \<noteq> r"
  shows "1 \<le> i \<and> i \<le> length s \<and> l # s = [l] @ take (i - 1) s @ [r] @ drop i s"
proof -
  have "matching_loop 1 1 s l r = Some i" using assms by (simp add: findMatching_def Let_def)
  from matching_loop_found [OF this] have i: "1 \<le> i" "i < 1 + length s" "s ! (i - 1) = r" by auto
  then have "drop (i - 1) s = r # drop i s" by (metis Suc_diff_le Suc_eq_plus1 add.commute diff_Suc_1 Cons_nth_drop_Suc less_diff_conv2 less_Suc_eq_le One_nat_def plus_1_eq_Suc)
  then have "s = take (i - 1) s @ r # drop i s" by (metis append_take_drop_id)
  with i show ?thesis by simp
qed

lemma valid_seq_concat:
  assumes "\<forall>w\<in>set ws. \<forall>rest. validSingle (w @ rest) d = Some (None, rest)"
    and "\<forall>w\<in>set ws. w \<noteq> []" and "length (concat ws) \<le> n"
  shows "valid_seq n (concat ws) d = Some (None, [])"
  using assms
proof (induction ws arbitrary: n)
  case Nil
  then show ?case by (simp add: valid_seq.simps)
next
  case (Cons w ws)
  then obtain m where n: "n = Suc m" by (cases n) auto
  from Cons.prems have "length (concat ws) \<le> m" using n by (cases w) auto
  with Cons have "valid_seq m (concat ws) d = Some (None, [])" by simp
  with Cons.prems n show ?case by (simp add: valid_seq.simps [of "Suc m"])
qed

lemma single_type_hd: "single_type d w \<Longrightarrow> hd w \<noteq> CHR ''{''"
  by (cases rule: single_type.cases) (auto simp: basic_chars_def)

lemma validSingle_Nil [simp]: "validSingle [] d = Some (sig_error [] ''empty signature'', [])"
  by (subst validSingle.simps) simp

lemma validSingle_basic: "d \<le> 64 \<Longrightarrow> c \<in> set basic_chars \<Longrightarrow> validSingle (c # cs) d = Some (None, cs)"
  by (subst validSingle.simps) simp

lemma validSingle_complete:
  "single_type d w \<Longrightarrow> validSingle (w @ rest) d = Some (None, rest)"
proof (induction arbitrary: rest rule: single_type.induct)
  case (basic d c)
  then show ?case by (simp add: validSingle_basic)
next
  case (array d w)
  have "w \<noteq> []" "hd w \<noteq> CHR ''{''"
    using single_type_not_Nil [OF array.hyps(2)] single_type_hd [OF array.hyps(2)] by simp_all
  with array show ?case by (subst validSingle.simps) (simp add: basic_chars_def)
next
  case (dict d k w)
  let ?l = "CHR ''{''" and ?r = "CHR ''}''"
  have k: "single_type (d + 1) [k]" using dict by (auto intro: single_type.basic)
  have f: "findMatching (?l # k # w @ ?r # rest) ?l ?r = Some (length w + 2)"
    using findMatching_concat [of "[[k], w]" "d + 1" ?l ?r rest] k dict.hyps by (auto simp: brackets_def)
  have "validSingle [k] (d + 1) = Some (None, [])"
    using dict.hyps by (simp add: validSingle_basic)
  moreover have "validSingle w (d + 1) = Some (None, [])" using dict.IH [of "[]"] by simp
  ultimately show ?case using dict.hyps f
    by (subst validSingle.simps) (simp add: basic_chars_def Let_def)
next
  case (struct d ws)
  let ?l = "CHR ''(''" and ?r = "CHR '')''"
  have f: "findMatching (?l # concat ws @ ?r # rest) ?l ?r = Some (length (concat ws) + 1)"
    using findMatching_concat [of ws "d + 1" ?l ?r rest] struct by (auto simp: brackets_def)
  have "valid_seq (length (concat ws)) (concat ws) (d + 1) = Some (None, [])"
    by (rule valid_seq_concat) (use struct single_type_not_Nil in auto)
  with f struct.hyps show ?case
    by (subst validSingle.simps) (simp add: basic_chars_def Let_def)
qed

text \<open>The four ways a parse can succeed.\<close>

lemma validSingle_ok:
  assumes "validSingle s d = Some (None, rem)"
  obtains (basic) c where "d \<le> 64" "c \<in> set basic_chars" "s = c # rem"
  | (dict) k w where "d \<le> 64" "s = ''a{'' @ [k] @ w @ ''}'' @ rem" "\<exists>q. validSingle [k] (d + 1) = Some (None, q)"
      "validSingle w (d + 1) = Some (None, [])"
  | (array) cs where "d \<le> 64" "s = CHR ''a'' # cs" "validSingle cs (d + 1) = Some (None, rem)"
  | (struct) w where "d \<le> 64" "s = ''('' @ w @ '')'' @ rem" "\<exists>q. valid_seq (length w) w (d + 1) = Some (None, q)"
proof (cases s)
  case Nil
  with assms show ?thesis by (simp add: sig_error_def)
next
  case (Cons c cs)
  have v: "validSingle (c # cs) d = Some (None, rem)" using assms Cons by simp
  note v = v [unfolded validSingle.simps [of "c # cs"] list.case]
  from v have d: "d \<le> 64" by (auto simp: sig_error_def split: if_splits)
  consider "c \<in> set basic_chars" | (dict) ds where "c = CHR ''a''" "cs = CHR ''{'' # ds"
    | (array) "c = CHR ''a''" "cs = [] \<or> hd cs \<noteq> CHR ''{''" | (struct) "c = CHR ''(''"
    using v d by (cases cs) (auto simp: sig_error_def split: if_splits)
  then show ?thesis
  proof cases
    case 1
    with v d Cons basic show ?thesis by auto
  next
    case c: dict
    have b: "c \<notin> set basic_chars" using c by (simp add: basic_chars_def)
    from v d b c obtain i where f: "findMatching cs (CHR ''{'') (CHR ''}'') = Some i"
      by (auto simp: sig_error_def split: option.splits)
    from findMatching_split [OF f [unfolded c]] have i: "1 \<le> i" "i \<le> length ds"
      "ds = take (i - 1) ds @ CHR ''}'' # drop i ds" by auto
    show ?thesis
    proof (cases "take (i - 1) ds")
      case Nil
      with v d b c f show ?thesis by (simp add: Let_def)
    next
      case kw: (Cons k w)
      with v d b c f have k: "\<exists>q. validSingle [k] (d + 1) = Some (None, q)" "validSingle w (d + 1) = Some (None, [])"
        "rem = drop i ds"
        by (auto simp: Let_def bind_eq_Some_conv sig_error_def split: if_splits)
      with i kw c Cons d show ?thesis by (intro dict [of k w]) auto
    qed
  next
    case c: array
    then show ?thesis using v d Cons array [of cs] by (auto simp: basic_chars_def)
  next
    case c: struct
    have b: "c \<notin> set basic_chars" using c by (simp add: basic_chars_def)
    from v d b c obtain i where f: "findMatching s (CHR ''('') (CHR '')'') = Some i"
      by (auto simp: sig_error_def Cons split: option.splits)
    from findMatching_split [OF f [unfolded Cons c]] have i: "1 \<le> i" "i \<le> length cs"
      "cs = take (i - 1) cs @ CHR '')'' # drop i cs" by auto
    from v d b c f Cons i(1) have "rem = drop i cs" "\<exists>q. valid_seq (length (take (i - 1) cs)) (take (i - 1) cs) (d + 1) = Some (None, q)"
      by (cases i; auto simp: Let_def bind_eq_Some_conv split: if_splits)+
    with i c Cons d show ?thesis by (intro struct [of "take (i - 1) cs"]) auto
  qed
qed

lemma valid_seq_ok:
  assumes "valid_seq n s d = Some (None, r)"
  obtains "s = []" | m q where "s \<noteq> []" "n = Suc m" "validSingle s d = Some (None, q)" "valid_seq m q d = Some (None, r)"
  using assms by (cases n)
    (auto simp: valid_seq.simps [of 0] valid_seq.simps [of "Suc m" for m] bind_eq_Some_conv split: if_splits)

lemma valid_sound_aux:
  "(\<forall>rem. validSingle s d = Some (None, rem) \<longrightarrow> (\<exists>w. s = w @ rem \<and> single_type d w)) \<and>
   (\<forall>n r. valid_seq n s d = Some (None, r) \<longrightarrow> (\<exists>ws. s = concat ws \<and> (\<forall>w\<in>set ws. single_type d w)))"
proof (induction "length s" arbitrary: s d rule: less_induct)
  case (less s d)
  note IH = less [THEN conjunct1, rule_format] less [THEN conjunct2, rule_format]
  have single: "\<exists>w. s = w @ rem \<and> single_type d w" if v: "validSingle s d = Some (None, rem)" for rem
    using v
  proof (cases rule: validSingle_ok)
    case (basic c)
    then show ?thesis by (auto intro!: exI [of _ "[c]"] single_type.basic)
  next
    case (dict k w)
    from dict(3) obtain q where "validSingle [k] (d + 1) = Some (None, q)" by blast
    then have k: "k \<in> set basic_chars"
    proof (cases rule: validSingle_ok)
      case (array cs)
      then show ?thesis by (simp add: sig_error_def)
    qed auto
    from dict IH(1) [of w "d + 1" "[]"] have w: "single_type (d + 1) w" by auto
    from dict(3) have "d + 1 \<le> 64" by (auto elim: validSingle_ok)
    then have "single_type d (''a{'' @ [k] @ w @ ''}'')" using k w by (rule single_type.dict)
    with dict(2) show ?thesis by (intro exI [of _ "''a{'' @ [k] @ w @ ''}''"]) simp
  next
    case (array cs)
    with IH(1) [of cs "d + 1" rem] obtain w where "cs = w @ rem" "single_type (d + 1) w" by auto
    with array show ?thesis by (intro exI [of _ "CHR ''a'' # w"]) (auto intro: single_type.array)
  next
    case (struct w)
    with IH(2) [of w "length w" "d + 1"] obtain ws where "w = concat ws" "\<forall>w\<in>set ws. single_type (d + 1) w" by auto
    with struct have "single_type d (''('' @ concat ws @ '')'')" by (intro single_type.struct) auto
    with struct \<open>w = concat ws\<close> show ?thesis by (intro exI [of _ "''('' @ w @ '')''"]) simp
  qed
  moreover have "\<exists>ws. s = concat ws \<and> (\<forall>w\<in>set ws. single_type d w)" if v: "valid_seq n s d = Some (None, r)" for n r
    using v
    proof (cases rule: valid_seq_ok)
      case 1
      then show ?thesis by (intro exI [of _ "[]"]) simp
    next
      case (2 m q)
      from single 2(3) obtain w where w: "s = w @ q" "single_type d w" by blast
      with single_type_not_Nil have "length q < length s" by auto
      from IH(2) [OF this 2(4)] obtain ws where "q = concat ws" "\<forall>w\<in>set ws. single_type d w" by blast
      with w show ?thesis by (intro exI [of _ "w # ws"]) auto
    qed
  ultimately show ?case by blast
qed

lemma valid_sound:
  "validSingle s d = Some (None, rem) \<Longrightarrow> \<exists>w. s = w @ rem \<and> single_type d w"
  "valid_seq n s d = Some (None, r) \<Longrightarrow> \<exists>ws. s = concat ws \<and> (\<forall>w\<in>set ws. single_type d w)"
  using valid_sound_aux by blast+

text \<open>A panic comes from an empty dictionary only.\<close>

definition empty_dict_in :: "string \<Rightarrow> bool" where
  "empty_dict_in s \<longleftrightarrow> (\<exists>u v. s = u @ ''a{}'' @ v)"

lemma empty_dict_in_mono: "empty_dict_in t \<Longrightarrow> s = u @ t @ v \<Longrightarrow> empty_dict_in s"
  by (metis empty_dict_in_def append.assoc)

lemma validSingle_panics:
  assumes "validSingle s d = None"
  obtains (dict) v where "s = ''a{}'' @ v" | (here) k w v where "s = ''a{'' @ [k] @ w @ ''}'' @ v" "validSingle [k] (d + 1) = None"
  | (there) k w v where "s = ''a{'' @ [k] @ w @ ''}'' @ v" "validSingle w (d + 1) = None"
  | (array) cs where "s = CHR ''a'' # cs" "validSingle cs (d + 1) = None"
  | (struct) w v where "s = ''('' @ w @ '')'' @ v" "valid_seq (length w) w (d + 1) = None"
proof (cases s)
  case Nil
  with assms show ?thesis by simp
next
  case (Cons c cs)
  have v: "validSingle (c # cs) d = None" using assms Cons by simp
  note v = v [unfolded validSingle.simps [of "c # cs"] list.case]
  from v have d: "d \<le> 64" by (auto split: if_splits)
  consider (d) ds where "c = CHR ''a''" "cs = CHR ''{'' # ds"
    | (a) "c = CHR ''a''" "cs = [] \<or> hd cs \<noteq> CHR ''{''" | (s) "c = CHR ''(''"
    using v d by (cases cs) (auto split: if_splits)
  then show ?thesis
  proof cases
    case c: d
    have b: "c \<notin> set basic_chars" using c by (simp add: basic_chars_def)
    from v d b c obtain i where f: "findMatching cs (CHR ''{'') (CHR ''}'') = Some i"
      by (auto split: option.splits)
    from findMatching_split [OF f [unfolded c]] have i: "1 \<le> i" "i \<le> length ds"
      "ds = take (i - 1) ds @ CHR ''}'' # drop i ds" by auto
    show ?thesis
    proof (cases "take (i - 1) ds")
      case Nil
      with i(3) have "ds = CHR ''}'' # drop i ds" by (metis append_Nil)
      with c Cons show ?thesis by (intro dict [of "drop i ds"]) simp
    next
      case kw: (Cons k w)
      with v d b c f have "validSingle [k] (d + 1) = None \<or> validSingle w (d + 1) = None"
        by (cases "validSingle [k] (d + 1)"; cases "validSingle w (d + 1)") (auto simp: Let_def split: if_splits)
      with i kw c Cons here [of k w "drop i ds"] there [of k w "drop i ds"] show ?thesis by auto
    qed
  next
    case c: a
    then show ?thesis using v d Cons array [of cs] by (auto simp: basic_chars_def)
  next
    case c: s
    have b: "c \<notin> set basic_chars" using c by (simp add: basic_chars_def)
    from v d b c obtain i where f: "findMatching s (CHR ''('') (CHR '')'') = Some i"
      by (auto simp: Cons split: option.splits)
    from findMatching_split [OF f [unfolded Cons c]] have i: "1 \<le> i" "i \<le> length cs"
      "cs = take (i - 1) cs @ CHR '')'' # drop i cs" by auto
    from v d b c f Cons i(1) have "valid_seq (length (take (i - 1) cs)) (take (i - 1) cs) (d + 1) = None"
      by (cases i; cases "valid_seq (length (take (i - 1) cs)) (take (i - 1) cs) (d + 1)") (auto simp: Let_def split: if_splits)
    with i c Cons show ?thesis by (intro struct [of "take (i - 1) cs"]) auto
  qed
qed

lemma valid_panics_aux:
  "(validSingle s d = None \<longrightarrow> empty_dict_in s) \<and>
   (\<forall>n. valid_seq n s d = None \<and> length s \<le> n \<longrightarrow> empty_dict_in s)"
proof (induction "length s" arbitrary: s d rule: less_induct)
  case (less s d)
  note IH = less [THEN conjunct1, rule_format] less [THEN conjunct2, rule_format]
  have single: "empty_dict_in s" if v: "validSingle s d = None"
    using v
  proof (cases rule: validSingle_panics)
    case (dict v)
    then show ?thesis by (auto simp: empty_dict_in_def intro: exI [of _ "[]"])
  next
    case (here k w v)
    with IH(1) [of "[k]" "d + 1"] show ?thesis
      using empty_dict_in_mono [of "[k]" s "''a{''" "w @ ''}'' @ v"] by simp
  next
    case (there k w v)
    with IH(1) [of w "d + 1"] show ?thesis
      using empty_dict_in_mono [of w s "''a{'' @ [k]" "''}'' @ v"] by simp
  next
    case (array cs)
    with IH(1) [of cs "d + 1"] show ?thesis using empty_dict_in_mono [of cs s "''a''" "[]"] by simp
  next
    case (struct w v)
    with IH(2) [of w "length w" "d + 1"] show ?thesis
      using empty_dict_in_mono [of w s "''(''" "'')'' @ v"] by simp
  qed
  moreover have "empty_dict_in s" if v: "valid_seq n s d = None" and l: "length s \<le> n" for n
  proof -
    from v have "s \<noteq> []" by (auto simp: valid_seq.simps [of n])
    with l obtain m where n: "n = Suc m" "s \<noteq> []" by (cases n) auto
    show ?thesis
    proof (cases "validSingle s d")
      case None
      then show ?thesis by (rule single)
    next
      case (Some p)
      then obtain q where q: "validSingle s d = Some (None, q)" "valid_seq m q d = None"
        using v n by (auto simp: valid_seq.simps [of "Suc m"] split: if_splits prod.splits)
      from valid_sound(1) [OF q(1)] obtain w where w: "s = w @ q" "single_type d w" by blast
      with single_type_not_Nil have "length q < length s" by auto
      with IH(2) [OF this, of m d] q(2) l n have "empty_dict_in q" by simp
      then show ?thesis using w empty_dict_in_mono [of q s w "[]"] by simp
    qed
  qed
  ultimately show ?case by blast
qed

lemma valid_panics:
  "validSingle s d = None \<Longrightarrow> empty_dict_in s"
  "valid_seq n s d = None \<Longrightarrow> length s \<le> n \<Longrightarrow> empty_dict_in s"
  using valid_panics_aux by blast+

section \<open>Properties\<close>

lemma ParseSignature_iff:
  "ParseSignature s = Some (s, None) \<longleftrightarrow>
      length s \<le> 255 \<and> (\<exists>ws. s = concat ws \<and> (\<forall>w\<in>set ws. single_type 0 w))" (is "_ \<longleftrightarrow> _ \<and> ?G")
proof (cases "s = [] \<or> length s > 255")
  case True
  then show ?thesis by (auto simp: ParseSignature_def sig_error_def intro: exI [of _ "[]"])
next
  case False
  have "(\<exists>r. valid_seq (length s) s 0 = Some (None, r)) \<longleftrightarrow> ?G"
  proof
    assume ?G
    then obtain ws where ws: "s = concat ws" "\<forall>w\<in>set ws. single_type 0 w" by blast
    have "valid_seq (length s) (concat ws) 0 = Some (None, [])"
      by (rule valid_seq_concat) (use ws single_type_not_Nil validSingle_complete in auto)
    with ws show "\<exists>r. valid_seq (length s) s 0 = Some (None, r)" by simp
  next
    assume "\<exists>r. valid_seq (length s) s 0 = Some (None, r)"
    with valid_sound(2) show ?G by blast
  qed
  moreover from False have "ParseSignature s = Some (s, None) \<longleftrightarrow> (\<exists>r. valid_seq (length s) s 0 = Some (None, r))"
    by (auto simp: ParseSignature_def bind_eq_Some_conv)
  ultimately show ?thesis using False by simp
qed

text \<open>
  C28: \<open>ParseSignature\<close> accepts exactly the strings of at most 255 bytes that are sequences of
  complete types nested at most 64 deep, as the grammar says. It panics only on a string with an
  empty dictionary in it, and on \<open>a{}\<close> it does; and \<open>Single\<close>, which should tell whether a signature
  is one complete type, never says so for one that is.
\<close>

theorem ParseSignature_grammar:
  "(ParseSignature s = Some (s, None) \<longleftrightarrow>
      length s \<le> 255 \<and> (\<exists>ws. s = concat ws \<and> (\<forall>w\<in>set ws. single_type 0 w)))
   \<and> (ParseSignature s = None \<longrightarrow> empty_dict_in s) \<and> ParseSignature ''a{}'' = None
   \<and> (single_type 0 s \<longrightarrow> Single s = Some False)"
proof (intro conjI impI)
  show "ParseSignature s = Some (s, None) \<longleftrightarrow>
      length s \<le> 255 \<and> (\<exists>ws. s = concat ws \<and> (\<forall>w\<in>set ws. single_type 0 w))"
    by (rule ParseSignature_iff)
  show "empty_dict_in s" if "ParseSignature s = None"
    using that valid_panics(2) [of "length s" s 0]
    by (cases "valid_seq (length s) s 0") (auto simp: ParseSignature_def split: if_splits)
  have "validSingle ''a{}'' 0 = None"
    by (subst validSingle.simps) (simp add: basic_chars_def findMatching_def Let_def)
  then show "ParseSignature ''a{}'' = None"
    by (simp add: ParseSignature_def valid_seq.simps)
  show "Single s = Some False" if "single_type 0 s"
    using validSingle_complete [OF that, of "[]"] by (simp add: Single_def)
qed

theorem ParseSignature_grammar_witness:
  "ParseSignature ''aa{sv}(iy)'' = Some (''aa{sv}(iy)'', None) \<and> Single ''as'' = Some False"
proof -
  have "single_type 2 [CHR ''v'']" by (rule single_type.basic) (simp_all add: basic_chars_def)
  then have "single_type 1 (''a{'' @ [CHR ''s''] @ ''v'' @ ''}'')"
    by (intro single_type.dict) (simp_all add: basic_chars_def numeral_2_eq_2)
  then have 1: "single_type 0 ''aa{sv}''" using single_type.array [of 0 "''a{sv}''"] by simp
  have "\<forall>w\<in>set [''i'', ''y'']. single_type 1 w" by (auto intro!: single_type.basic simp: basic_chars_def)
  then have 2: "single_type 0 ''(iy)''" using single_type.struct [of 0 "[''i'', ''y'']"] by simp
  have "single_type 0 ''as''"
    using single_type.array [of 0 "''s''"] single_type.basic [of 1 "CHR ''s''"] by (simp add: basic_chars_def)
  with ParseSignature_grammar [of "''as''"] ParseSignature_grammar [of "''aa{sv}(iy)''"] 1 2 show ?thesis
    by (auto intro: exI [of _ "[''aa{sv}'', ''(iy)'']"])
qed

text \<open>How deep the signature of a type nests.\<close>

fun nesting :: "gotype \<Rightarrow> nat" where
  "nesting (Ptr t) = nesting t"
| "nesting (Struct fs) = 1 + Max (set (0 # map (\<lambda>(used, t). nesting t) fs))"
| "nesting (Array t) = 1 + nesting t"
| "nesting (Slice t) = 1 + nesting t"
| "nesting (Map k v) = 1 + nesting v"
| "nesting _ = 0"

lemma key_signature: "isKeyType k \<Longrightarrow> \<exists>c. getSignature k = Some [c] \<and> c \<in> set basic_chars"
  by (cases k) (auto simp: basic_chars_def)

lemma getSignature_single:
  "getSignature t = Some w \<Longrightarrow> d + nesting t \<le> 64 \<Longrightarrow> single_type d w"
  "field_signatures fs = Some w \<Longrightarrow> \<forall>(used, t)\<in>set fs. d + nesting t \<le> 64
     \<Longrightarrow> \<exists>ws. w = concat ws \<and> (\<forall>w\<in>set ws. single_type d w)"
proof (induction t and fs arbitrary: d w and d w rule: getSignature_field_signatures.induct)
  case (17 fs)
  then obtain s where s: "field_signatures fs = Some s" "w = ''('' @ s @ '')''" by (auto simp: bind_eq_Some_conv)
  have "(d + 1) + nesting t \<le> 64" if "(used, t) \<in> set fs" for used t
  proof -
    have "nesting t \<le> Max (set (0 # map (\<lambda>(used, t). nesting t) fs))"
      by (rule Max_ge) (use that in force)+
    with 17(3) show ?thesis by simp
  qed
  with 17(1) [OF s(1), of "d + 1"] obtain ws where "s = concat ws" "\<forall>w\<in>set ws. single_type (d + 1) w" by blast
  with s 17(3) show ?case by (simp add: single_type.struct [of d ws, simplified])
next
  case (20 k v)
  then obtain vs where vs: "isKeyType k" "getSignature v = Some vs" "single_type (d + 1) vs"
    by (auto simp: bind_eq_Some_conv split: if_splits)
  from key_signature [OF vs(1)] obtain c where c: "getSignature k = Some [c]" "c \<in> set basic_chars" by blast
  have "single_type d (''a{'' @ [c] @ vs @ ''}'')" by (rule single_type.dict) (use 20 c vs in auto)
  with 20 c vs show ?case by simp
next
  case 23
  then show ?case by (auto intro: exI [of _ "[]"])
next
  case (24 used t fs)
  show ?case
  proof (cases used)
    case True
    with 24(4) obtain s ss where s: "getSignature t = Some s" "field_signatures fs = Some ss" "w = s @ ss"
      by (auto simp: bind_eq_Some_conv)
    with 24 True obtain ws where "single_type d s" "ss = concat ws" "\<forall>w\<in>set ws. single_type d w" by fastforce
    with s show ?thesis by (intro exI [of _ "s # ws"]) auto
  qed (use 24 in auto)
qed (auto simp: bind_eq_Some_conv basic_chars_def intro: single_type.array intro!: single_type.basic)

text \<open>The types the parser of signatures can give: no pointers, arrays, structs or descriptors.\<close>

fun wire :: "gotype \<Rightarrow> bool" where
  "wire (Ptr t) = False" | "wire (Struct fs) = False" | "wire (Array t) = False" | "wire UnixFD = False"
| "wire Interface = False" | "wire OtherKind = False"
| "wire (Slice t) = wire t"
| "wire (Map k v) = (isKeyType k \<and> k \<noteq> UnixFD \<and> wire v)"
| "wire _ = True"

lemma wire_signature: "wire t \<Longrightarrow> \<exists>w. getSignature t = Some w"
  by (induction t rule: wire.induct) (auto dest: key_signature)

lemma basic_type:
  "isKeyType k \<Longrightarrow> k \<noteq> UnixFD \<Longrightarrow> \<exists>c. getSignature k = Some [c] \<and> sigToType c = Some k \<and> c \<in> set basic_chars"
  by (cases k) (auto simp: sigToType_def basic_chars_def)

lemma LastIndex_append: "LastIndex (xs @ [c]) c = Some (length xs)"
  by (induction xs) auto

lemma typeFor_basic: "sigToType c = Some t \<Longrightarrow> typeFor [c] = Some t"
  by (subst typeFor.simps) (auto simp: validSingle_basic basic_chars_def sigToType_def split: if_splits)

lemma typeFor_getSignature:
  "wire t \<Longrightarrow> getSignature t = Some w \<Longrightarrow> nesting t \<le> 64 \<Longrightarrow> typeFor w = Some t"
proof (induction t arbitrary: w)
  case (Slice t)
  then obtain s where s: "getSignature t = Some s" "w = CHR ''a'' # s" by (auto simp: bind_eq_Some_conv)
  with Slice have t: "typeFor s = Some t" by simp
  have 1: "single_type 1 s" "single_type 0 w"
    using getSignature_single(1) [OF s(1), of 1] getSignature_single(1) [OF Slice.prems(2), of 0] Slice.prems by auto
  have "validSingle w 0 = Some (None, [])" using validSingle_complete [OF 1(2), of "[]"] by simp
  with s t single_type_hd [OF 1(1)] show ?case
    by (subst typeFor.simps) (simp add: sigToType_def)
next
  case (Map k v)
  from Map.prems obtain vs where vs: "getSignature v = Some vs" by (auto simp: bind_eq_Some_conv split: if_splits)
  from Map.prems basic_type [of k] obtain c where c: "getSignature k = Some [c]" "sigToType c = Some k" by auto
  have w: "w = ''a{'' @ [c] @ vs @ ''}''" using Map.prems vs c by simp
  have v: "typeFor vs = Some v" using Map.IH(2) [OF _ vs] Map.prems by simp
  have "single_type 0 w" using getSignature_single(1) [OF Map.prems(2), of 0] Map.prems by simp
  then have p: "validSingle w 0 = Some (None, [])" using validSingle_complete [of 0 w "[]"] by simp
  have l: "LastIndex w (CHR ''}'') = Some (length vs + 3)"
    using LastIndex_append [of "''a{'' @ [c] @ vs" "CHR ''}''"] by (simp add: w)
  have "sigToType (CHR ''a'') = None" by (simp add: sigToType_def)
  with p l v c w show ?case
    by (subst typeFor.simps) (simp del: LastIndex.simps)
qed (auto intro: typeFor_basic simp: sigToType_def)



end
