(* ===== verification/DbusWire.thy ===== *)
theory DbusWire
  imports DbusSig
begin

text \<open>
  The wire format of the vendored package \<open>github.com/godbus/dbus\<close> (\<open>encoder.go\<close>, \<open>decoder.go\<close>).
  Reflection becomes a datatype of values that know their types; the reader is the list of bytes
  it has left, together with the position the code keeps. The code panics with its errors and
  recovers at the entry; a result here is the error or the value, and \<open>UnexpectedEOF\<close> is the format
  error the entry makes of the reader's. The loops of the decoder may not
  end, so it has fuel, and \<open>None\<close> is fuel that ran out.
\<close>

section \<open>Bytes\<close>

type_synonym byte = "8 word"

text \<open>\<open>n\<close> bytes of a number, the least first, and the number they stand for.\<close>

fun bytes_of :: "nat \<Rightarrow> nat \<Rightarrow> byte list" where
  "bytes_of 0 x = []"
| "bytes_of (Suc n) x = of_nat (x mod 256) # bytes_of n (x div 256)"

fun of_bytes :: "byte list \<Rightarrow> nat" where
  "of_bytes [] = 0"
| "of_bytes (b # bs) = unat b + 256 * of_bytes bs"

text \<open>\<open>binary.Write\<close> and \<open>binary.Read\<close> of an integer, little endian when \<open>le\<close> is set.\<close>

definition put :: "bool \<Rightarrow> nat \<Rightarrow> nat \<Rightarrow> byte list" where
  "put le n x = (if le then bytes_of n x else rev (bytes_of n x))"

definition get :: "bool \<Rightarrow> byte list \<Rightarrow> nat" where
  "get le bs = of_bytes (if le then bs else rev bs)"

lemma length_bytes_of [simp]: "length (bytes_of n x) = n"
  by (induction n arbitrary: x) auto

lemma of_bytes_bytes_of: "x < 256 ^ n \<Longrightarrow> of_bytes (bytes_of n x) = x"
proof (induction n arbitrary: x)
  case (Suc n)
  then have "x div 256 < 256 ^ n" by (simp add: less_mult_imp_div_less mult.commute)
  moreover have "unat (of_nat (x mod 256) :: byte) = x mod 256"
    by (simp add: unat_of_nat)
  ultimately show ?case using Suc by simp
qed simp

lemma length_put [simp]: "length (put le n x) = n"
  by (simp add: put_def)

text \<open>The bytes of a string.\<close>

definition bytes_of_string :: "string \<Rightarrow> byte list" where
  "bytes_of_string s = map (\<lambda>c. of_nat (of_char c)) s"

definition string_of :: "byte list \<Rightarrow> string" where
  "string_of bs = map (\<lambda>b. char_of (unat b)) bs"

lemma length_bytes_of_string [simp]: "length (bytes_of_string s) = length s"
  by (simp add: bytes_of_string_def)

lemma string_of_bytes [simp]: "string_of (bytes_of_string s) = s"
proof -
  have "char_of (unat (of_nat (of_char c) :: byte)) = c" for c
    by (simp add: unat_of_nat)
  then show ?thesis by (simp add: string_of_def bytes_of_string_def map_idI)
qed

lemma get_put: "x < 256 ^ n \<Longrightarrow> get le (put le n x) = x"
  by (simp add: get_def put_def of_bytes_bytes_of)

section \<open>Values\<close>

text \<open>
  The values of the types of \<open>gotype\<close>; a float is its bits. \<open>GInterface\<close> is a value in a variable
  of interface type. A map is an association list in the order \<open>MapKeys\<close> gives. A field of a
  struct says whether it takes part.
\<close>

datatype gval =
    GByte byte | GBool bool | GInt16 "16 word" | GUint16 "16 word" | GInt32 u32 | GUint32 u32 | GInt64 u64 | GUint64 u64
  | GFloat64 u64 | GFD u32 | GFDIndex u32 | GString string | GPath string | GSig string | GVariant string gval
  | GPtr gotype "gval option" | GSlice gotype "gval list" | GArray gotype "gval list"
  | GMap gotype gotype "(gval \<times> gval) list" | GStruct "(bool \<times> gval) list" | GInterface gval | GOther

primrec typeOf :: "gval \<Rightarrow> gotype" where
  "typeOf (GByte b) = Uint8" | "typeOf (GBool b) = Bool" | "typeOf (GInt16 w) = Int16" | "typeOf (GUint16 w) = Uint16"
| "typeOf (GInt32 w) = Int32" | "typeOf (GUint32 w) = Uint32" | "typeOf (GInt64 w) = Int64" | "typeOf (GUint64 w) = Uint64"
| "typeOf (GFloat64 w) = Float64" | "typeOf (GFD w) = UnixFD" | "typeOf (GFDIndex w) = UnixFDIndex"
| "typeOf (GString s) = String" | "typeOf (GPath s) = ObjectPath" | "typeOf (GSig s) = SignatureT"
| "typeOf (GVariant s v) = VariantT" | "typeOf (GPtr t v) = Ptr t" | "typeOf (GSlice t vs) = Slice t"
| "typeOf (GArray t vs) = Array t" | "typeOf (GMap k t es) = Map k t"
| "typeOf (GStruct fs) = Struct (map (map_prod id typeOf) fs)"
| "typeOf (GInterface v) = Interface" | "typeOf GOther = OtherKind"

datatype wire_error = UnexpectedEOF | FormatError string | InvalidTypeError gotype | BadSignature SignatureError | RuntimePanic

definition depth_error :: wire_error where
  "depth_error = FormatError ''input exceeds container depth limit''"

section \<open>The encoder\<close>

text \<open>The bytes \<open>align\<close> writes at a position; \<open>n\<close> is a power of two, as every alignment is.\<close>

definition pad :: "nat \<Rightarrow> nat \<Rightarrow> byte list" where
  "pad n pos = (if pos mod n \<noteq> 0 then replicate ((pos + n - 1) div n * n - pos) 0 else [])"

definition ebind :: "wire_error + 'a \<Rightarrow> ('a \<Rightarrow> wire_error + 'b) \<Rightarrow> wire_error + 'b" where
  "ebind r f = (case r of Inl e \<Rightarrow> Inl e | Inr x \<Rightarrow> f x)"

text \<open>\<open>encode\<close> of a \<open>uint32\<close>, and of what stands behind its length.\<close>

definition put_u32 :: "bool \<Rightarrow> nat \<Rightarrow> u32 \<Rightarrow> byte list" where
  "put_u32 le pos w = pad 4 pos @ put le 4 (unat w)"

definition put_sized :: "bool \<Rightarrow> nat \<Rightarrow> nat \<Rightarrow> byte list \<Rightarrow> byte list" where
  "put_sized le n pos buf =
     (let l = put_u32 le pos (of_nat (length buf)) in l @ pad n (pos + length l) @ buf)"

definition put_string :: "bool \<Rightarrow> nat \<Rightarrow> string \<Rightarrow> byte list" where
  "put_string le pos s = put_u32 le pos (of_nat (length s)) @ bytes_of_string s @ [0]"

definition put_sig :: "string \<Rightarrow> byte list" where
  "put_sig s = of_nat (length s) # bytes_of_string s @ [0]"

text \<open>Align for a type, then go on.\<close>

definition at_type :: "gotype \<Rightarrow> nat \<Rightarrow> (nat \<Rightarrow> wire_error + byte list) \<Rightarrow> wire_error + byte list" where
  "at_type t pos f =
     (let p = pad (alignment t) pos in ebind (f (pos + length p)) (\<lambda>bs. Inr (p @ bs)))"

text \<open>
  The loops over elements, entries and fields, with the encoders of their parts; an encoder takes
  the byte order, the depth and the position.
\<close>

type_synonym encoder = "bool \<Rightarrow> nat \<Rightarrow> nat \<Rightarrow> wire_error + byte list"

fun encode_all :: "encoder list \<Rightarrow> encoder" where
  "encode_all [] le d pos = Inr []"
| "encode_all (f # fs) le d pos =
     ebind (f le d pos) (\<lambda>bs. ebind (encode_all fs le d (pos + length bs)) (\<lambda>cs. Inr (bs @ cs)))"

fun encode_entries :: "(encoder \<times> encoder) list \<Rightarrow> encoder" where
  "encode_entries [] le d pos = Inr []"
| "encode_entries ((k, v) # es) le d pos =
     (let p = pad 8 pos in
      ebind (k le d (pos + length p)) (\<lambda>bs.
      ebind (v le d (pos + length p + length bs)) (\<lambda>cs.
      ebind (encode_entries es le d (pos + length p + length bs + length cs)) (\<lambda>ds. Inr (p @ bs @ cs @ ds)))))"

fun encode_fields :: "(bool \<times> encoder) list \<Rightarrow> encoder" where
  "encode_fields [] le d pos = Inr []"
| "encode_fields ((used, f) # fs) le d pos =
     (if used then ebind (f le d pos) (\<lambda>bs. ebind (encode_fields fs le d (pos + length bs)) (\<lambda>cs. Inr (bs @ cs)))
      else encode_fields fs le d pos)"

text \<open>Slices and arrays.\<close>

definition encode_slice :: "gotype \<Rightarrow> encoder list \<Rightarrow> encoder" where
  "encode_slice t fs le d p =
     (if d \<ge> 64 then Inl depth_error
      else ebind (encode_all fs le (d + 1) 0) (\<lambda>buf. Inr (put_sized le (alignment t) p buf)))"

primrec encode :: "gval \<Rightarrow> encoder" where
  "encode (GByte b) = (\<lambda>le d pos. at_type Uint8 pos (\<lambda>p. Inr [b]))"
| "encode (GBool b) = (\<lambda>le d pos. at_type Bool pos (\<lambda>p. Inr (put_u32 le p (if b then 1 else 0))))"
| "encode (GInt16 w) = (\<lambda>le d pos. at_type Int16 pos (\<lambda>p. Inr (put le 2 (unat w))))"
| "encode (GUint16 w) = (\<lambda>le d pos. at_type Uint16 pos (\<lambda>p. Inr (put le 2 (unat w))))"
| "encode (GInt32 w) = (\<lambda>le d pos. at_type Int32 pos (\<lambda>p. Inr (put le 4 (unat w))))"
| "encode (GUint32 w) = (\<lambda>le d pos. at_type Uint32 pos (\<lambda>p. Inr (put le 4 (unat w))))"
| "encode (GInt64 w) = (\<lambda>le d pos. at_type Int64 pos (\<lambda>p. Inr (put le 8 (unat w))))"
| "encode (GUint64 w) = (\<lambda>le d pos. at_type Uint64 pos (\<lambda>p. Inr (put le 8 (unat w))))"
| "encode (GFloat64 w) = (\<lambda>le d pos. at_type Float64 pos (\<lambda>p. Inr (put le 8 (unat w))))"
| "encode (GFD w) = (\<lambda>le d pos. at_type UnixFD pos (\<lambda>p. Inr (put le 4 (unat w))))"
| "encode (GFDIndex w) = (\<lambda>le d pos. at_type UnixFDIndex pos (\<lambda>p. Inr (put le 4 (unat w))))"
| "encode (GString s) = (\<lambda>le d pos. at_type String pos (\<lambda>p. Inr (put_string le p s)))"
| "encode (GPath s) = (\<lambda>le d pos. at_type ObjectPath pos (\<lambda>p. Inr (put_string le p s)))"
| "encode (GSig s) = (\<lambda>le d pos. at_type SignatureT pos (\<lambda>p. Inr (put_sig s)))"
| "encode (GVariant s v) = (\<lambda>le d pos. at_type VariantT pos (\<lambda>p.
     if d \<ge> 64 then Inl depth_error
     else ebind (encode v le (d + 1) (p + length (put_sig s))) (\<lambda>bs. Inr (put_sig s @ bs))))"
| "encode (GPtr t v) = (\<lambda>le d pos. at_type (Ptr t) pos (\<lambda>p.
     case map_option encode v of None \<Rightarrow> Inl RuntimePanic | Some f \<Rightarrow> f le d p))"
| "encode (GSlice t vs) = (\<lambda>le d pos. at_type (Slice t) pos (encode_slice t (map encode vs) le d))"
| "encode (GArray t vs) = (\<lambda>le d pos. at_type (Array t) pos (encode_slice t (map encode vs) le d))"
| "encode (GMap k t es) = (\<lambda>le d pos. at_type (Map k t) pos (\<lambda>p.
     if d \<ge> 63 then Inl depth_error
     else if \<not> isKeyType k then Inl (InvalidTypeError (Map k t))
     else ebind (encode_entries (map (map_prod encode encode) es) le (d + 2) 0) (\<lambda>buf. Inr (put_sized le 8 p buf))))"
| "encode (GStruct fs) = (\<lambda>le d pos. at_type (Struct (map (map_prod id typeOf) fs)) pos (\<lambda>p.
     if d \<ge> 64 then Inl depth_error else encode_fields (map (map_prod id encode) fs) le (d + 1) p))"
| "encode (GInterface v) = (\<lambda>le d pos. at_type Interface pos (\<lambda>p. Inl (InvalidTypeError Interface)))"
| "encode GOther = (\<lambda>le d pos. at_type OtherKind pos (\<lambda>p. Inl (InvalidTypeError OtherKind)))"

definition Encode :: "bool \<Rightarrow> nat \<Rightarrow> gval list \<Rightarrow> wire_error + byte list" where
  "Encode le pos vs = encode_all (map encode vs) le 0 pos"

section \<open>The decoder\<close>

text \<open>A result is a value with the position and the bytes behind it.\<close>

type_synonym 'a dres = "(wire_error + ('a \<times> nat \<times> byte list)) option"

definition dret :: "'a \<Rightarrow> nat \<Rightarrow> byte list \<Rightarrow> 'a dres" where
  "dret x pos bs = Some (Inr (x, pos, bs))"

definition dfail :: "wire_error \<Rightarrow> 'a dres" where
  "dfail e = Some (Inl e)"

definition dbind :: "'a dres \<Rightarrow> ('a \<Rightarrow> nat \<Rightarrow> byte list \<Rightarrow> 'b dres) \<Rightarrow> 'b dres" where
  "dbind r f = (case r of None \<Rightarrow> None | Some (Inl e) \<Rightarrow> Some (Inl e) | Some (Inr (x, pos, bs)) \<Rightarrow> f x pos bs)"

definition read_full :: "nat \<Rightarrow> nat \<Rightarrow> byte list \<Rightarrow> byte list dres" where
  "read_full n pos bs = (if length bs < n then dfail UnexpectedEOF else dret (take n bs) (pos + n) (drop n bs))"

definition align_in :: "nat \<Rightarrow> nat \<Rightarrow> byte list \<Rightarrow> unit dres" where
  "align_in n pos bs =
     (if pos mod n \<noteq> 0 then dbind (read_full ((pos + n - 1) div n * n - pos) pos bs) (\<lambda>_. dret ())
      else dret () pos bs)"

definition read_int :: "bool \<Rightarrow> nat \<Rightarrow> nat \<Rightarrow> byte list \<Rightarrow> nat dres" where
  "read_int le n pos bs = dbind (read_full n pos bs) (\<lambda>b. dret (get le b))"

text \<open>\<open>decode("u")\<close>, \<open>decode("s")\<close> and \<open>decode("g")\<close>, which other cases call.\<close>

definition decode_u32 :: "bool \<Rightarrow> nat \<Rightarrow> byte list \<Rightarrow> nat dres" where
  "decode_u32 le pos bs = dbind (align_in 4 pos bs) (\<lambda>_. read_int le 4)"

definition decode_string :: "bool \<Rightarrow> nat \<Rightarrow> byte list \<Rightarrow> string dres" where
  "decode_string le pos bs =
     dbind (align_in 4 pos bs) (\<lambda>_ pos bs.
     dbind (decode_u32 le pos bs) (\<lambda>l pos bs.
     dbind (read_full (l + 1) pos bs) (\<lambda>b. dret (string_of (butlast b)))))"

definition decode_sig :: "nat \<Rightarrow> byte list \<Rightarrow> string dres" where
  "decode_sig pos bs =
     dbind (read_full 1 pos bs) (\<lambda>l pos bs.
     dbind (read_full (unat (hd l) + 1) pos bs) (\<lambda>b pos bs.
       (case ParseSignature (string_of (butlast b)) of
          None \<Rightarrow> dfail RuntimePanic
        | Some (sig, None) \<Rightarrow> dret sig pos bs
        | Some (sig, Some err) \<Rightarrow> dfail (BadSignature err))))"

text \<open>
  The three loops, with the decoder of the parts, which takes the depth and the signature; \<open>n\<close> bounds
  their turns. \<open>MakeSlice\<close> with a length that does not fit in memory is left out.
\<close>

type_synonym decoder = "nat \<Rightarrow> string \<Rightarrow> nat \<Rightarrow> byte list \<Rightarrow> gval dres"

fun decode_slice :: "decoder \<Rightarrow> nat \<Rightarrow> nat \<Rightarrow> gotype \<Rightarrow> string \<Rightarrow> nat \<Rightarrow> gval list \<Rightarrow> nat \<Rightarrow> byte list \<Rightarrow> gval dres" where
  "decode_slice dec 0 d t sig end acc pos bs = None"
| "decode_slice dec (Suc n) d t sig end acc pos bs =
     (if pos < end then dbind (dec d sig pos bs) (\<lambda>ev. decode_slice dec n d t sig end (acc @ [ev]))
      else dret (GSlice t acc) pos bs)"

fun decode_map :: "decoder \<Rightarrow> nat \<Rightarrow> nat \<Rightarrow> gotype \<Rightarrow> gotype \<Rightarrow> string \<Rightarrow> string \<Rightarrow> nat \<Rightarrow> (gval \<times> gval) list \<Rightarrow> nat
     \<Rightarrow> byte list \<Rightarrow> gval dres" where
  "decode_map dec 0 d kt vt ksig vsig end acc pos bs = None"
| "decode_map dec (Suc n) d kt vt ksig vsig end acc pos bs =
     (if pos < end then
        dbind (align_in 8 pos bs) (\<lambda>_ pos bs.
          if \<not> isKeyType kt then dfail (InvalidTypeError (Map kt vt))
          else dbind (dec d ksig pos bs) (\<lambda>kv pos bs.
               dbind (dec d vsig pos bs) (\<lambda>vv.
                 decode_map dec n d kt vt ksig vsig end (AList.update kv vv acc))))
      else dret (GMap kt vt acc) pos bs)"

type_synonym on_bad = "SignatureError \<Rightarrow> nat \<Rightarrow> byte list \<Rightarrow> gval list dres"

fun decode_seq :: "decoder \<Rightarrow> on_bad \<Rightarrow> nat \<Rightarrow> nat \<Rightarrow> string \<Rightarrow> gval list \<Rightarrow> nat \<Rightarrow> byte list \<Rightarrow> gval list dres" where
  "decode_seq dec bad 0 d s acc pos bs = None"
| "decode_seq dec bad (Suc n) d s acc pos bs =
     (if s = '''' then dret acc pos bs
      else case validSingle s 0 of
             None \<Rightarrow> dfail RuntimePanic
           | Some (Some err, rem) \<Rightarrow> bad err pos bs
           | Some (None, rem) \<Rightarrow>
               dbind (dec d (take (length s - length rem) s) pos bs) (\<lambda>ev.
                 decode_seq dec bad n d rem (acc @ [ev])))"

text \<open>
  A signature with an error is a panic in a struct. In \<open>Decode\<close> it is returned, but the deferred
  function assigns the result of \<open>recover\<close> to the named result whether there was a panic or not: the
  caller sees no values and no error.
\<close>

definition bad_field :: on_bad where
  "bad_field err pos bs = dfail (BadSignature err)"

definition bad_argument :: on_bad where
  "bad_argument err pos bs = dret [] pos bs"

text \<open>The switch over the first character of a signature; \<open>dec\<close> is the recursive call.\<close>

definition decode_kind :: "decoder \<Rightarrow> nat \<Rightarrow> bool \<Rightarrow> decoder" where
  "decode_kind dec n le d s pos bs =
     (case s of
        [] \<Rightarrow> dfail RuntimePanic
      | c # cs \<Rightarrow>
          if c = CHR ''y'' then dbind (read_full 1 pos bs) (\<lambda>b. dret (GByte (hd b)))
          else if c = CHR ''b'' then dbind (decode_u32 le pos bs) (\<lambda>i pos bs.
            if i = 0 then dret (GBool False) pos bs else if i = 1 then dret (GBool True) pos bs
            else dfail (FormatError ''invalid value for boolean''))
          else if c = CHR ''n'' then dbind (read_int le 2 pos bs) (\<lambda>i. dret (GInt16 (of_nat i)))
          else if c = CHR ''i'' then dbind (read_int le 4 pos bs) (\<lambda>i. dret (GInt32 (of_nat i)))
          else if c = CHR ''x'' then dbind (read_int le 8 pos bs) (\<lambda>i. dret (GInt64 (of_nat i)))
          else if c = CHR ''q'' then dbind (read_int le 2 pos bs) (\<lambda>i. dret (GUint16 (of_nat i)))
          else if c = CHR ''u'' then dbind (read_int le 4 pos bs) (\<lambda>i. dret (GUint32 (of_nat i)))
          else if c = CHR ''t'' then dbind (read_int le 8 pos bs) (\<lambda>i. dret (GUint64 (of_nat i)))
          else if c = CHR ''d'' then dbind (read_int le 8 pos bs) (\<lambda>i. dret (GFloat64 (of_nat i)))
          else if c = CHR ''s'' then dbind (decode_string le pos bs) (\<lambda>s. dret (GString s))
          else if c = CHR ''o'' then dbind (decode_string le pos bs) (\<lambda>s. dret (GPath s))
          else if c = CHR ''g'' then dbind (decode_sig pos bs) (\<lambda>s. dret (GSig s))
          else if c = CHR ''v'' then
            (if d \<ge> 64 then dfail depth_error
             else dbind (decode_sig pos bs) (\<lambda>sig pos bs.
               if length sig = 0 then dfail (FormatError ''variant signature is empty'')
               else case validSingle sig 0 of
                      None \<Rightarrow> dfail RuntimePanic
                    | Some (Some err, rem) \<Rightarrow> dfail (BadSignature err)
                    | Some (None, rem) \<Rightarrow>
                        if rem \<noteq> '''' then dfail (FormatError ''variant signature has multiple types'')
                        else dbind (dec (d + 1) sig pos bs) (\<lambda>v. dret (GVariant sig v))))
          else if c = CHR ''h'' then dbind (decode_u32 le pos bs) (\<lambda>i. dret (GFDIndex (of_nat i)))
          else if c = CHR ''a'' then
            (if cs \<noteq> [] \<and> hd cs = CHR ''{'' then
               (let ksig = take 1 (drop 2 s); vsig = take (length s - 4) (drop 3 s)
                in case (typeFor ksig, typeFor vsig) of
                     (Some kt, Some vt) \<Rightarrow>
                       if d \<ge> 63 then dfail depth_error
                       else dbind (decode_u32 le pos bs) (\<lambda>l pos bs.
                            dbind (align_in 8 pos bs) (\<lambda>_ pos bs.
                              decode_map dec n (d + 2) kt vt ksig vsig (pos + l) [] pos bs))
                   | _ \<Rightarrow> dfail RuntimePanic)
             else if d \<ge> 64 then dfail depth_error
             else dbind (decode_u32 le pos bs) (\<lambda>l pos bs.
                  case typeFor cs of
                    None \<Rightarrow> dfail RuntimePanic
                  | Some et \<Rightarrow> dbind (align_in (alignment et) pos bs) (\<lambda>_ pos bs.
                      decode_slice dec n (d + 1) et cs (pos + l) [] pos bs)))
          else if c = CHR ''('' then
            (if d \<ge> 64 then dfail depth_error
             else dbind (align_in 8 pos bs) (\<lambda>_ pos bs.
                  dbind (decode_seq dec bad_field n (d + 1) (butlast cs) [] pos bs) (\<lambda>vs.
                    dret (GSlice Interface (map GInterface vs)))))
          else dfail (BadSignature \<lparr>se_Sig = s, se_Reason = ''''\<rparr>))"

primrec decode :: "nat \<Rightarrow> bool \<Rightarrow> decoder" where
  "decode 0 le = (\<lambda>d s pos bs. None)"
| "decode (Suc n) le = (\<lambda>d s pos bs.
     case typeFor s of
       None \<Rightarrow> dfail RuntimePanic
     | Some t \<Rightarrow> dbind (align_in (alignment t) pos bs) (\<lambda>_. decode_kind (decode n le) n le d s))"

definition Decode :: "nat \<Rightarrow> bool \<Rightarrow> string \<Rightarrow> nat \<Rightarrow> byte list \<Rightarrow> gval list dres" where
  "Decode n le sig pos bs = decode_seq (decode n le) bad_argument n 0 sig [] pos bs"

end
