(* ===== verification/DbusRoundtrip.thy ===== *)
theory DbusRoundtrip
  imports DbusWire
begin

text \<open>
  What the D-Bus encoder writes, the decoder reads back (\<open>DbusWire\<close>): the lemmas follow the types of
  values, and the loops over elements, entries and fields have one lemma each. Two theorems show
  where the code fails: slices whose elements need more than the padding of their type, and slices
  of structs without fields.
\<close>

section \<open>What the decoder gives back\<close>

text \<open>
  The type the decoder has for the signature of a type: pointers are gone, arrays are slices, and
  structs are slices of interfaces.
\<close>

primrec seen :: "gotype \<Rightarrow> gotype" where
  "seen (Ptr t) = seen t" | "seen (Array t) = Slice (seen t)" | "seen (Slice t) = Slice (seen t)"
| "seen (Map k t) = Map (seen k) (seen t)" | "seen (Struct fs) = interfacesType" | "seen UnixFD = UnixFDIndex"
| "seen Uint8 = Uint8" | "seen Bool = Bool" | "seen Int16 = Int16" | "seen Uint16 = Uint16" | "seen Int32 = Int32"
| "seen Uint32 = Uint32" | "seen UnixFDIndex = UnixFDIndex" | "seen Int64 = Int64" | "seen Uint64 = Uint64"
| "seen Float64 = Float64" | "seen String = String" | "seen ObjectPath = ObjectPath" | "seen VariantT = VariantT"
| "seen SignatureT = SignatureT" | "seen Interface = Interface" | "seen OtherKind = OtherKind"

primrec received :: "gval \<Rightarrow> gval" where
  "received (GByte b) = GByte b" | "received (GBool b) = GBool b" | "received (GInt16 w) = GInt16 w"
| "received (GUint16 w) = GUint16 w" | "received (GInt32 w) = GInt32 w" | "received (GUint32 w) = GUint32 w"
| "received (GInt64 w) = GInt64 w" | "received (GUint64 w) = GUint64 w" | "received (GFloat64 w) = GFloat64 w"
| "received (GFD w) = GFDIndex w" | "received (GFDIndex w) = GFDIndex w"
| "received (GString s) = GString s" | "received (GPath s) = GPath s" | "received (GSig s) = GSig s"
| "received (GVariant s v) = GVariant s (received v)"
| "received (GPtr t v) = (case map_option received v of None \<Rightarrow> GOther | Some x \<Rightarrow> x)"
| "received (GSlice t vs) = GSlice (seen t) (map received vs)"
| "received (GArray t vs) = GSlice (seen t) (map received vs)"
| "received (GMap k t es) = GMap (seen k) (seen t) (map (map_prod received received) es)"
| "received (GStruct fs) = GSlice Interface (map (GInterface \<circ> snd) (filter fst (map (map_prod id received) fs)))"
| "received (GInterface v) = GInterface v" | "received GOther = GOther"

text \<open>
  What the layout of a value depends on: it is the same at two positions that are equal modulo
  this number. A variant has the number of what is in it, but alignment 1.
\<close>

primrec period :: "gval \<Rightarrow> nat" where
  "period (GByte b) = 1" | "period (GBool b) = 4" | "period (GInt16 w) = 2" | "period (GUint16 w) = 2"
| "period (GInt32 w) = 4" | "period (GUint32 w) = 4" | "period (GInt64 w) = 8" | "period (GUint64 w) = 8"
| "period (GFloat64 w) = 8" | "period (GFD w) = 4" | "period (GFDIndex w) = 4" | "period (GString s) = 4"
| "period (GPath s) = 4" | "period (GSig s) = 1" | "period (GVariant s v) = period v"
| "period (GPtr t v) = (case map_option period v of None \<Rightarrow> 1 | Some p \<Rightarrow> lcm (alignment t) p)"
| "period (GSlice t vs) = lcm (alignment (Slice t)) (lcm 4 (alignment t))"
| "period (GArray t vs) = lcm 4 (alignment t)"
| "period (GMap k t es) = 8" | "period (GStruct fs) = 8" | "period (GInterface v) = 1" | "period GOther = 1"

text \<open>
  The values that arrive as they were sent: well typed, with valid signatures, with no struct
  without fields, and, because the encoder lays the elements of a slice out as if they began at
  position 0, with elements whose layout depends on no more than the alignment of their type.
\<close>

fun steady :: "gval \<Rightarrow> bool" where
  "steady (GSig s) = (ParseSignature s = Some (s, None))"
| "steady (GVariant s v) =
     (getSignature (typeOf v) = Some s \<and> nesting (typeOf v) \<le> 64 \<and> length s \<le> 255 \<and> steady v)"
| "steady (GPtr t v) = (case v of None \<Rightarrow> True | Some x \<Rightarrow> typeOf x = t \<and> steady x)"
| "steady (GSlice t vs) = (\<forall>v\<in>set vs. typeOf v = t \<and> period v dvd alignment t \<and> steady v)"
| "steady (GArray t vs) = (\<forall>v\<in>set vs. typeOf v = t \<and> period v dvd alignment t \<and> steady v)"
| "steady (GMap k t es) =
     ((\<forall>e\<in>set es. typeOf (fst e) = k \<and> typeOf (snd e) = t \<and> steady (fst e) \<and> steady (snd e))
      \<and> distinct (map fst es) \<and> k \<noteq> UnixFD \<and> k \<noteq> Float64)"
| "steady (GStruct fs) = ((\<exists>f\<in>set fs. fst f) \<and> (\<forall>f\<in>set fs. fst f \<longrightarrow> steady (snd f)))"
| "steady _ = True"

section \<open>Alignment\<close>

lemma alignment_cases: "alignment t \<in> {1, 2, 4, 8}"
  by (induction t rule: alignment.induct) auto

lemma alignment_pos [simp]: "0 < alignment t"
  using alignment_cases [of t] by auto

lemma alignment_dvd_8: "alignment t dvd 8"
  using alignment_cases [of t] by auto

lemma period_dvd_8: "period v dvd 8"
proof (induction v)
  case (GPtr t v)
  then show ?case using alignment_dvd_8 [of t] by (cases v) auto
qed (use alignment_dvd_8 in auto)

lemma mod_dvd: "a dvd b \<Longrightarrow> p mod b = q mod b \<Longrightarrow> p mod a = q mod (a :: nat)"
  by (metis mod_mod_cancel)

lemma pad_eq:
  assumes "0 < n"
  shows "pad n pos = replicate ((n - pos mod n) mod n) 0"
proof (cases "pos mod n = 0")
  case False
  let ?q = "pos div n" and ?r = "pos mod n"
  have r: "0 < ?r" "?r < n" using False assms by auto
  have "pos = ?q * n + ?r" by simp
  then have "pos + n - 1 = (?q + 1) * n + (?r - 1)" using r by (simp only: add_mult_distrib mult_1)
  moreover have "((?q + 1) * n + (?r - 1)) div n = ?q + 1" using r by (subst div_mult_self3) auto
  ultimately have "(pos + n - 1) div n = ?q + 1" by (simp only:)
  moreover have "(?q + 1) * n - pos = n - ?r" using r
    by (metis add_diff_cancel_left div_mult_mod_eq add_mult_distrib mult_1)
  ultimately show ?thesis using False r by (simp add: pad_def)
qed (simp add: pad_def)

lemma align_in_eq:
  assumes "0 < n"
  shows "align_in n pos bs = (let k = (n - pos mod n) mod n in
     if length bs < k then dfail UnexpectedEOF else dret () (pos + k) (drop k bs))"
proof (cases "pos mod n = 0")
  case False
  have "(pos + n - 1) div n * n - pos = (n - pos mod n) mod n"
    using pad_eq [OF assms, of pos] False by (metis length_replicate pad_def)
  with False show ?thesis by (simp add: align_in_def read_full_def dbind_def dret_def dfail_def Let_def)
qed (simp add: align_in_def dret_def)

lemma pad_cong: "0 < n \<Longrightarrow> pos mod n = pos' mod n \<Longrightarrow> pad n pos = pad n pos'"
  by (simp add: pad_eq)

lemma pad_aligned:
  assumes "0 < n"
  shows "(pos + length (pad n pos)) mod n = 0"
proof (cases "pos mod n = 0")
  case False
  have r: "pos mod n < n" using assms by simp
  with False have "(n - pos mod n) mod n = n - pos mod n" by simp
  moreover have "(pos + (n - pos mod n)) mod n = (pos mod n + (n - pos mod n)) mod n" by (simp add: mod_simps)
  ultimately show ?thesis using assms r by (simp add: pad_eq)
qed (use assms in \<open>simp add: pad_eq\<close>)

lemma align_in_pad:
  assumes "0 < n" and "pos mod n = pos' mod n"
  shows "align_in n pos' (pad n pos @ bs) = dret () (pos' + length (pad n pos)) bs"
  using assms by (simp add: align_in_eq pad_eq Let_def)


section \<open>Reading back what was written\<close>

lemma dbind_dret [simp]: "dbind (dret x pos bs) f = f x pos bs"
  by (simp add: dbind_def dret_def)

lemma read_full_append: "length b = n \<Longrightarrow> read_full n pos (b @ rest) = dret b (pos + n) rest"
  by (simp add: read_full_def)

lemma read_int_put: "x < 256 ^ n \<Longrightarrow> read_int le n pos (put le n x @ rest) = dret x (pos + n) rest"
  by (simp add: read_int_def read_full_append get_put)

lemma unat_bounds:
  "unat (w16 :: 16 word) < 256 ^ 2" "unat (w32 :: u32) < 256 ^ 4" "unat (w64 :: u64) < 256 ^ 8"
  using unsigned_less [of w16] unsigned_less [of w32] unsigned_less [of w64] by simp_all

lemma read_u32:
  assumes "pos mod 4 = pos' mod 4"
  shows "decode_u32 le pos' (put_u32 le pos w @ rest) = dret (unat w) (pos' + length (put_u32 le pos w)) rest"
  using align_in_pad [of 4 pos pos' "put le 4 (unat w) @ rest"] assms
  by (simp add: decode_u32_def put_u32_def read_int_put [OF unat_bounds(2)] ac_simps)

lemma length_put_u32_cong: "pos mod 4 = pos' mod 4 \<Longrightarrow> put_u32 le pos w = put_u32 le pos' w"
  by (simp add: put_u32_def pad_cong [of 4 pos pos'])

lemma read_string:
  assumes "pos mod 4 = 0" and "pos' mod 4 = 0" and "length s < 2 ^ 32"
  shows "decode_string le pos' (put_string le pos s @ rest) = dret s (pos' + length (put_string le pos s)) rest"
proof -
  have l: "unat (of_nat (length s) :: u32) = length s" using assms(3) by (simp add: unat_of_nat)
  have "align_in 4 pos' bs = dret () pos' bs" for bs using assms(2) by (simp add: align_in_def)
  moreover have "read_full (length s + 1) p (bytes_of_string s @ 0 # rest) = dret (bytes_of_string s @ [0]) (p + (length s + 1)) rest" for p
    using read_full_append [of "bytes_of_string s @ [0]" "length s + 1"] by simp
  ultimately show ?thesis
    using assms(1,2) by (simp add: decode_string_def put_string_def read_u32 l ac_simps)
qed

lemma read_sig:
  assumes "ParseSignature s = Some (s, None)" and "length s \<le> 255"
  shows "decode_sig pos (put_sig s @ rest) = dret s (pos + length (put_sig s)) rest"
proof -
  have l: "unat (of_nat (length s) :: byte) = length s" using assms(2) by (simp add: unat_of_nat)
  have "read_full 1 pos (put_sig s @ rest) = dret [of_nat (length s)] (pos + 1) ((bytes_of_string s @ [0]) @ rest)"
    using read_full_append [of "[of_nat (length s)]" 1] by (simp add: put_sig_def)
  moreover have "read_full (length s + 1) p ((bytes_of_string s @ [0]) @ rest) = dret (bytes_of_string s @ [0]) (p + (length s + 1)) rest" for p
    by (rule read_full_append) simp
  ultimately show ?thesis
    using assms(1) by (simp add: decode_sig_def l put_sig_def ac_simps del: append_assoc)
qed

lemma valid_sig_short: "ParseSignature s = Some (s, None) \<Longrightarrow> length s \<le> 255"
  by (auto simp: ParseSignature_iff)

lemma sized_length: "length (put_sized le n pos buf) \<ge> length buf"
  by (simp add: put_sized_def Let_def)

text \<open>What stands behind a length: the length, the padding, and then the contents.\<close>

lemma read_sized:
  assumes "pos mod 4 = pos' mod 4" and "0 < n" and "pos mod n = pos' mod n" and "length buf < 2 ^ 32"
    and "\<And>p. p mod n = 0 \<Longrightarrow> k (p + length buf) p (buf @ rest) = dret x (p + length buf) rest"
  shows "dbind (decode_u32 le pos' (put_sized le n pos buf @ rest)) (\<lambda>l p bs.
      dbind (align_in n p bs) (\<lambda>_ p bs. k (p + l) p bs)) = dret x (pos' + length (put_sized le n pos buf)) rest"
proof -
  let ?l = "put_u32 le pos (of_nat (length buf))"
  have u: "unat (of_nat (length buf) :: u32) = length buf" using assms(4) by (simp add: unat_of_nat)
  have m: "(pos + length ?l) mod n = (pos' + length ?l) mod n" using assms(3) by (metis mod_add_left_eq)
  have "(pos' + length ?l + length (pad n (pos + length ?l))) mod n = 0"
    using pad_aligned [OF assms(2), of "pos' + length ?l"] pad_cong [OF assms(2) m] by simp
  from assms(5) [OF this] show ?thesis
    using align_in_pad [OF assms(2) m, of "buf @ rest"]
    by (simp add: put_sized_def Let_def read_u32 [OF assms(1)] u ac_simps)
qed

section \<open>The types\<close>

lemma seen_not_Interface: "getSignature t = Some w \<Longrightarrow> seen t \<noteq> Interface"
  by (induction t arbitrary: w) (auto simp: interfacesType_def)

lemma alignment_seen: "getSignature t = Some w \<Longrightarrow> alignment (seen t) = alignment t"
proof (induction t arbitrary: w)
  case (Slice t)
  then obtain s where "getSignature t = Some s" by (auto simp: bind_eq_Some_conv)
  then have "seen t \<noteq> Interface" "t \<noteq> Interface" using seen_not_Interface by force+
  then show ?case by (simp add: interfacesType_def)
next
  case (Array t)
  then obtain s where "getSignature t = Some s" by (auto simp: bind_eq_Some_conv)
  then have "seen t \<noteq> Interface" using seen_not_Interface by force
  then show ?case by (simp add: interfacesType_def)
qed (auto simp: interfacesType_def)

lemma single_type_signature:
  assumes "getSignature t = Some w" and "nesting t \<le> 64"
  shows "single_type 0 w" and "w \<noteq> []" and "validSingle (w @ rest) 0 = Some (None, rest)"
proof -
  show s: "single_type 0 w" using getSignature_single(1) [OF assms(1), of 0] assms(2) by simp
  then show "w \<noteq> []" by (rule single_type_not_Nil)
  show "validSingle (w @ rest) 0 = Some (None, rest)" by (rule validSingle_complete [OF s])
qed

lemma key_seen: "isKeyType k \<Longrightarrow> \<exists>c. getSignature k = Some [c] \<and> sigToType c = Some (seen k)"
  by (cases k) (auto simp: sigToType_def)

lemma sigToType_container [simp]: "sigToType (CHR ''a'') = None" "sigToType (CHR ''('') = None"
  by (simp_all add: sigToType_def)

lemma slice_signature:
  assumes "getSignature t = Some s" and "nesting t < 64"
  shows "validSingle (CHR ''a'' # s) 0 = Some (None, [])" and "hd s \<noteq> CHR ''{''"
proof -
  have "getSignature (Slice t) = Some (CHR ''a'' # s)" using assms(1) by simp
  from single_type_signature(3) [OF this, of "[]"] assms(2) show "validSingle (CHR ''a'' # s) 0 = Some (None, [])" by simp
  show "hd s \<noteq> CHR ''{''"
    using single_type_hd single_type_signature(1) [OF assms(1)] assms(2) by simp
qed

lemma typeFor_seen:
  "getSignature t = Some w \<Longrightarrow> nesting t \<le> 64 \<Longrightarrow> typeFor w = Some (seen t)"
proof (induction t arbitrary: w)
  case (Slice t)
  then obtain s where s: "getSignature t = Some s" "w = CHR ''a'' # s" by (auto simp: bind_eq_Some_conv)
  with Slice slice_signature [OF s(1)] show ?case by (subst typeFor.simps) simp
next
  case (Array t)
  then obtain s where s: "getSignature t = Some s" "w = CHR ''a'' # s" by (auto simp: bind_eq_Some_conv)
  with Array slice_signature [OF s(1)] show ?case by (subst typeFor.simps) simp
next
  case (Map k t)
  then obtain s where s: "isKeyType k" "getSignature t = Some s" by (auto simp: bind_eq_Some_conv split: if_splits)
  obtain c where c: "getSignature k = Some [c]" "sigToType c = Some (seen k)" using key_seen [OF s(1)] by blast
  have w: "w = ''a{'' @ [c] @ s @ ''}''" using Map.prems s c by simp
  have v: "typeFor s = Some (seen t)" using Map.IH(2) [OF s(2)] Map.prems by simp
  have p: "validSingle w 0 = Some (None, [])" using single_type_signature(3) [OF Map.prems, of "[]"] by simp
  have l: "LastIndex w (CHR ''}'') = Some (length s + 3)"
    using LastIndex_append [of "''a{'' @ [c] @ s" "CHR ''}''"] by (simp add: w)
  with p l v c w show ?case by (subst typeFor.simps) (simp del: LastIndex.simps)
next
  case (Struct fs)
  then obtain s where w: "w = ''('' @ s @ '')''" by (auto simp: bind_eq_Some_conv)
  have "validSingle w 0 = Some (None, [])" using single_type_signature(3) [OF Struct.prems, of "[]"] by simp
  with w show ?case by (subst typeFor.simps) simp
next
  case (Ptr t)
  then show ?case by simp
qed (auto intro: typeFor_basic simp: sigToType_def)

section \<open>Values arrive\<close>

text \<open>
  What the encoder writes for a value at a position, the decoder reads back at every position that
  is equal to it modulo the period of the value, given enough fuel.
\<close>

definition arrives :: "gval \<Rightarrow> bool" where
  "arrives v \<longleftrightarrow> (\<forall>le d pos pos' bs w. encode v le d pos = Inr bs \<longrightarrow> getSignature (typeOf v) = Some w
     \<longrightarrow> nesting (typeOf v) \<le> 64 \<longrightarrow> pos mod period v = pos' mod period v \<longrightarrow> length bs < 2 ^ 32
     \<longrightarrow> bs \<noteq> [] \<and> (\<exists>N. \<forall>n\<ge>N. \<forall>rest. decode n le d w pos' (bs @ rest) = dret (received v) (pos' + length bs) rest))"

lemma ebind_Inr: "ebind r f = Inr y \<longleftrightarrow> (\<exists>x. r = Inr x \<and> f x = Inr y)"
  by (cases r) (auto simp: ebind_def)

lemma at_type_Inr:
  "at_type t pos f = Inr bs \<longleftrightarrow>
     (\<exists>cs. f (pos + length (pad (alignment t) pos)) = Inr cs \<and> bs = pad (alignment t) pos @ cs)"
  by (auto simp: at_type_def Let_def ebind_Inr)

lemma at_type_cong: "alignment t = alignment t' \<Longrightarrow> at_type t = at_type t'"
  by (simp add: at_type_def fun_eq_iff)

lemma at_type_idem: "at_type t pos (\<lambda>p. at_type t p f) = at_type t pos f"
proof -
  have "pad (alignment t) (pos + length (pad (alignment t) pos)) = []"
    using pad_aligned [of "alignment t" pos] by (simp add: pad_def)
  then show ?thesis
    by (auto simp: at_type_def Let_def ebind_def split: sum.splits)
qed

lemma arrivesI:
  assumes "\<And>le d pos. encode v le d pos = at_type (typeOf v) pos (f le d)"
    and "alignment (typeOf v) dvd period v"
    and "\<And>le d w p p' cs. getSignature (typeOf v) = Some w \<Longrightarrow> nesting (typeOf v) \<le> 64 \<Longrightarrow> f le d p = Inr cs
      \<Longrightarrow> p mod alignment (typeOf v) = 0 \<Longrightarrow> p' mod alignment (typeOf v) = 0 \<Longrightarrow> p mod period v = p' mod period v
      \<Longrightarrow> length cs < 2 ^ 32
      \<Longrightarrow> cs \<noteq> [] \<and> (\<exists>N. \<forall>n\<ge>N. \<forall>rest. decode_kind (decode n le) n le d w p' (cs @ rest) = dret (received v) (p' + length cs) rest)"
  shows "arrives v"
  unfolding arrives_def
proof (intro allI impI)
  fix le d pos pos' bs w
  let ?a = "alignment (typeOf v)"
  let ?p = "pos + length (pad ?a pos)" and ?p' = "pos' + length (pad ?a pos)"
  assume e: "encode v le d pos = Inr bs" and g: "getSignature (typeOf v) = Some w" and n: "nesting (typeOf v) \<le> 64"
    and m: "pos mod period v = pos' mod period v" and l: "length bs < 2 ^ 32"
  from e obtain cs where cs: "f le d ?p = Inr cs" "bs = pad ?a pos @ cs" by (auto simp: assms(1) at_type_Inr)
  have a: "pos mod ?a = pos' mod ?a" by (rule mod_dvd [OF assms(2) m])
  have z: "?p mod ?a = 0" "?p' mod ?a = 0"
    using pad_aligned [of ?a pos] pad_aligned [of ?a pos'] pad_cong [of ?a pos pos'] a by simp_all
  have "?p mod period v = ?p' mod period v" using m by (metis mod_add_left_eq)
  with assms(3) [OF g n cs(1) z] l cs(2) obtain N where
    N: "cs \<noteq> []" "\<forall>n\<ge>N. \<forall>rest. decode_kind (decode n le) n le d w ?p' (cs @ rest) = dret (received v) (?p' + length cs) rest"
    by auto
  have "decode n le d w pos' (bs @ rest) = dret (received v) (pos' + length bs) rest" if n': "n \<ge> Suc N" for n rest
  proof -
    from n' obtain m where m: "n = Suc m" "m \<ge> N" by (cases n) auto
    then show ?thesis using N(2) align_in_pad [OF _ a, of "cs @ rest"]
      by (simp add: typeFor_seen [OF g n] alignment_seen [OF g] cs(2) ac_simps)
  qed
  then show "bs \<noteq> [] \<and> (\<exists>N. \<forall>n\<ge>N. \<forall>rest. decode n le d w pos' (bs @ rest) = dret (received v) (pos' + length bs) rest)"
    using N(1) cs(2) by blast
qed

lemma encode_at_type: "\<exists>f. \<forall>le d pos. encode v le d pos = at_type (typeOf v) pos (f le d)"
  by (cases v) auto

lemma encode_Ptr: "typeOf x = t \<Longrightarrow> encode (GPtr t (Some x)) = encode x"
proof -
  assume t: "typeOf x = t"
  obtain f where f: "\<And>le d pos. encode x le d pos = at_type (typeOf x) pos (f le d)" using encode_at_type by metis
  have "at_type (Ptr t) = at_type t" by (rule at_type_cong) simp
  with f t show ?thesis by (simp add: fun_eq_iff at_type_idem)
qed

lemma arrives_Ptr: "typeOf x = t \<Longrightarrow> arrives x \<Longrightarrow> arrives (GPtr t (Some x))"
proof -
  assume t: "typeOf x = t" and x: "arrives x"
  have "period x dvd period (GPtr t (Some x))" by simp
  then have m: "pos mod period (GPtr t (Some x)) = pos' mod period (GPtr t (Some x)) \<Longrightarrow> pos mod period x = pos' mod period x" for pos pos'
    by (rule mod_dvd)
  show ?thesis
    unfolding arrives_def encode_Ptr [OF t]
  proof (intro allI impI)
    fix le d pos pos' bs w
    assume e: "encode x le d pos = Inr bs" and g: "getSignature (typeOf (GPtr t (Some x))) = Some w"
      and n: "nesting (typeOf (GPtr t (Some x))) \<le> 64"
      and p: "pos mod period (GPtr t (Some x)) = pos' mod period (GPtr t (Some x))" and l: "length bs < 2 ^ 32"
    have "getSignature (typeOf x) = Some w" "nesting (typeOf x) \<le> 64" using g n t by simp_all
    with x [unfolded arrives_def, rule_format, OF e _ _ m [OF p] l]
    show "bs \<noteq> [] \<and> (\<exists>N. \<forall>n\<ge>N. \<forall>rest. decode n le d w pos' (bs @ rest) =
        dret (received (GPtr t (Some x))) (pos' + length bs) rest)" by simp
  qed
qed

lemma arrivesD:
  assumes "arrives v" and "encode v le d pos = Inr bs" and "getSignature (typeOf v) = Some w" and "nesting (typeOf v) \<le> 64"
    and "pos mod period v = pos' mod period v" and "length bs < 2 ^ 32"
  obtains N where "bs \<noteq> []"
    "\<And>n rest. n \<ge> N \<Longrightarrow> decode n le d w pos' (bs @ rest) = dret (received v) (pos' + length bs) rest"
  using assms(1) [unfolded arrives_def, rule_format, OF assms(2-6)] by blast

lemma mod_add_cong: "(p :: nat) mod m = q mod m \<Longrightarrow> (p + k) mod m = (q + k) mod m"
  by (metis mod_add_left_eq)

lemma slice_loop:
  assumes "\<forall>v\<in>set vs. typeOf v = t \<and> period v dvd a \<and> arrives v" and "getSignature t = Some w" and "nesting t \<le> 64"
    and "encode_all (map encode vs) le d pos = Inr buf" and "pos mod a = pos' mod a" and "length buf < 2 ^ 32"
  shows "\<exists>N. \<forall>n\<ge>N. \<forall>m\<ge>N. \<forall>rest acc. decode_slice (decode m le) n d t' w (pos' + length buf) acc pos' (buf @ rest)
    = dret (GSlice t' (acc @ map received vs)) (pos' + length buf) rest"
  using assms(1,4-6)
proof (induction vs arbitrary: pos pos' buf)
  case Nil
  have "decode_slice (decode m le) n d t' w pos' acc pos' rest = dret (GSlice t' acc) pos' rest" if "n \<ge> 1" for n m acc rest
    using that by (cases n) simp_all
  with Nil show ?case by (auto intro: exI [of _ 1])
next
  case (Cons v vs)
  from Cons.prems(2) obtain b c where e: "encode v le d pos = Inr b" "encode_all (map encode vs) le d (pos + length b) = Inr c"
    "buf = b @ c" by (auto simp: ebind_Inr)
  have v: "arrives v" "getSignature (typeOf v) = Some w" "nesting (typeOf v) \<le> 64" "pos mod period v = pos' mod period v"
    "length b < 2 ^ 32"
    using Cons.prems assms(2,3) e(3) mod_dvd [of "period v" a pos pos'] by auto
  from arrivesD [OF v(1) e(1) v(2-5)] obtain N1 where N1: "b \<noteq> []"
    "\<And>n rest. n \<ge> N1 \<Longrightarrow> decode n le d w pos' (b @ rest) = dret (received v) (pos' + length b) rest" by blast
  have "(pos + length b) mod a = (pos' + length b) mod a" by (rule mod_add_cong [OF Cons.prems(3)])
  from Cons.IH [OF _ e(2) this] Cons.prems e(3) obtain N2 where
    N2: "\<forall>n\<ge>N2. \<forall>m\<ge>N2. \<forall>rest acc.
      decode_slice (decode m le) n d t' w (pos' + length b + length c) acc (pos' + length b) (c @ rest)
      = dret (GSlice t' (acc @ map received vs)) (pos' + length b + length c) rest" by auto
  have "decode_slice (decode m le) n d t' w (pos' + length buf) acc pos' (buf @ rest)
      = dret (GSlice t' (acc @ map received (v # vs))) (pos' + length buf) rest"
    if n: "n \<ge> Suc (max N1 N2)" and m: "m \<ge> Suc (max N1 N2)" for n m rest acc
  proof -
    from n obtain k where k: "n = Suc k" "k \<ge> N2" by (cases n) auto
    have "decode m le d w pos' (b @ c @ rest) = dret (received v) (pos' + length b) (c @ rest)" using N1(2) m by simp
    then show ?thesis using N1(1) N2 [rule_format, OF k(2), of m "acc @ [received v]" rest] m k(1) e(3) by (simp add: ac_simps)
  qed
  then show ?case by blast
qed

lemma update_new: "k \<notin> fst ` set al \<Longrightarrow> AList.update k v al = al @ [(k, v)]"
  by (induction al) auto

lemma received_key:
  assumes "isKeyType (typeOf x)" and "typeOf x \<noteq> UnixFD"
  shows "received x = x"
  using assms by (cases x) auto

lemma map_loop:
  assumes "\<forall>e\<in>set es. typeOf (fst e) = k \<and> typeOf (snd e) = t \<and> arrives (fst e) \<and> arrives (snd e)"
    and "isKeyType k" and "k \<noteq> UnixFD" and "getSignature k = Some kw" and "getSignature t = Some w" and "nesting t \<le> 64"
    and "encode_entries (map (map_prod encode encode) es) le d pos = Inr buf" and "pos mod 8 = pos' mod 8" and "length buf < 2 ^ 32"
    and "distinct (map fst es)"
  shows "\<exists>N. \<forall>n\<ge>N. \<forall>m\<ge>N. \<forall>rest acc. fst ` set acc \<inter> fst ` set es = {} \<longrightarrow>
    decode_map (decode m le) n d (seen k) vt kw w (pos' + length buf) acc pos' (buf @ rest)
    = dret (GMap (seen k) vt (acc @ map (map_prod received received) es)) (pos' + length buf) rest"
  using assms(1,7-10)
proof (induction es arbitrary: pos pos' buf)
  case Nil
  have "decode_map (decode m le) n d (seen k) vt kw w pos' acc pos' rest = dret (GMap (seen k) vt acc) pos' rest"
    if "n \<ge> 1" for n m acc rest using that by (cases n) simp_all
  with Nil show ?case by (auto intro: exI [of _ 1])
next
  case (Cons e es)
  obtain x y where xy: "e = (x, y)" by fastforce
  let ?p = "pad 8 pos"
  from Cons.prems(2) xy obtain b c q where e: "encode x le d (pos + length ?p) = Inr b"
    "encode y le d (pos + length ?p + length b) = Inr c"
    "encode_entries (map (map_prod encode encode) es) le d (pos + length ?p + length b + length c) = Inr q"
    "buf = ?p @ b @ c @ q" by (auto simp: ebind_Inr Let_def)
  have mk: "(pos + i) mod j = (pos' + i) mod j" if "j dvd 8" for i j
    using mod_add_cong [OF Cons.prems(3), of i] mod_dvd [OF that] by blast
  have x: "arrives x" "getSignature (typeOf x) = Some kw" "nesting (typeOf x) \<le> 64" "length b < 2 ^ 32"
    and y: "arrives y" "getSignature (typeOf y) = Some w" "nesting (typeOf y) \<le> 64" "length c < 2 ^ 32"
    using Cons.prems(1,4) assms(2,4,5,6) xy e(4) by (cases k; auto)+
  from arrivesD [OF x(1) e(1) x(2,3) mk [OF period_dvd_8] x(4)] obtain N1 where N1: "b \<noteq> []"
    "\<And>n rest. n \<ge> N1 \<Longrightarrow> decode n le d kw (pos' + length ?p) (b @ rest) = dret (received x) (pos' + length ?p + length b) rest" by blast
  have my: "(pos + length ?p + length b) mod period y = (pos' + length ?p + length b) mod period y"
    using mk [OF period_dvd_8 [of y], of "length ?p + length b"] by (simp add: add.assoc)
  from arrivesD [OF y(1) e(2) y(2,3) my y(4)]
  obtain N2 where N2: "\<And>n rest. n \<ge> N2 \<Longrightarrow> decode n le d w (pos' + length ?p + length b) (c @ rest)
      = dret (received y) (pos' + length ?p + length b + length c) rest" by blast
  have "(pos + length ?p + length b + length c) mod 8 = (pos' + length ?p + length b + length c) mod 8"
    using mk [of 8 "length ?p + length b + length c"] by (simp add: add.assoc)
  from Cons.IH [OF _ e(3) this] Cons.prems e(4) obtain N3 where
    N3: "\<forall>n\<ge>N3. \<forall>m\<ge>N3. \<forall>rest acc. fst ` set acc \<inter> fst ` set es = {} \<longrightarrow>
      decode_map (decode m le) n d (seen k) vt kw w (pos' + length ?p + length b + length c + length q) acc
        (pos' + length ?p + length b + length c) (q @ rest)
      = dret (GMap (seen k) vt (acc @ map (map_prod received received) es)) (pos' + length ?p + length b + length c + length q) rest"
    by auto
  have rx: "received x = x" using received_key [of x] Cons.prems(1) assms(2,3) xy by simp
  have sk: "isKeyType (seen k)" using assms(2) by (cases k) auto
  have "decode_map (decode m le) n d (seen k) vt kw w (pos' + length buf) acc pos' (buf @ rest)
      = dret (GMap (seen k) vt (acc @ map (map_prod received received) (e # es))) (pos' + length buf) rest"
    if n: "n \<ge> Suc (max N1 (max N2 N3))" and m: "m \<ge> Suc (max N1 (max N2 N3))"
      and a: "fst ` set acc \<inter> fst ` set (e # es) = {}" for n m rest acc
  proof -
    from n obtain j where j: "n = Suc j" "j \<ge> N3" by (cases n) auto
    have al: "align_in 8 pos' (?p @ r) = dret () (pos' + length ?p) r" for r
      using align_in_pad [of 8 pos pos'] Cons.prems(3) by simp
    have u: "AList.update x (received y) acc = acc @ [(x, received y)]"
      using a xy by (simp add: update_new)
    have "fst ` set (acc @ [(x, received y)]) \<inter> fst ` set es = {}" using a Cons.prems(5) xy by auto
    from N3 [rule_format, OF j(2) _ this, of m rest] N1(2) [of m "c @ q @ rest"] N2 [of m "q @ rest"] m show ?thesis
      using N1(1) j(1) e(4) sk by (simp add: al u rx xy ac_simps)
  qed
  then show ?case by blast
qed

lemma seq_loop:
  assumes "\<forall>v\<in>set vs. nesting (typeOf v) \<le> 64 \<and> arrives v" and "SignatureOf (map typeOf vs) = Some w"
    and "encode_all (map encode vs) le d pos = Inr buf" and "pos mod 8 = pos' mod 8" and "length buf < 2 ^ 32"
  shows "(vs \<noteq> [] \<longrightarrow> buf \<noteq> []) \<and> (\<exists>N. \<forall>n\<ge>N. \<forall>m\<ge>N. \<forall>rest acc. decode_seq (decode m le) bad n d w acc pos' (buf @ rest)
    = dret (acc @ map received vs) (pos' + length buf) rest)"
  using assms
proof (induction vs arbitrary: w pos pos' buf)
  case Nil
  have "decode_seq (decode m le) bad n d [] acc pos' rest = dret acc pos' rest" if "n \<ge> 1" for n m acc rest
    using that by (cases n) simp_all
  with Nil show ?case by (auto intro: exI [of _ 1])
next
  case (Cons v vs)
  from Cons.prems(3) obtain b c where e: "encode v le d pos = Inr b" "encode_all (map encode vs) le d (pos + length b) = Inr c"
    "buf = b @ c" by (auto simp: ebind_Inr)
  from Cons.prems(2) obtain s ss where s: "getSignature (typeOf v) = Some s" "SignatureOf (map typeOf vs) = Some ss" "w = s @ ss"
    by (auto simp: bind_eq_Some_conv)
  have n: "nesting (typeOf v) \<le> 64" "arrives v" using Cons.prems(1) by auto
  have "pos mod period v = pos' mod period v" by (rule mod_dvd [OF period_dvd_8 Cons.prems(4)])
  from arrivesD [OF n(2) e(1) s(1) n(1) this] Cons.prems(5) e(3) obtain N1 where N1: "b \<noteq> []"
    "\<And>n rest. n \<ge> N1 \<Longrightarrow> decode n le d s pos' (b @ rest) = dret (received v) (pos' + length b) rest" by auto
  from Cons.IH [OF _ s(2) e(2) mod_add_cong [OF Cons.prems(4)]] Cons.prems(1,5) e(3) obtain N2 where
    N2: "\<forall>n\<ge>N2. \<forall>m\<ge>N2. \<forall>rest acc. decode_seq (decode m le) bad n d ss acc (pos' + length b) (c @ rest)
    = dret (acc @ map received vs) (pos' + length b + length c) rest" by auto
  note vs = single_type_signature [OF s(1) n(1)]
  have "decode_seq (decode m le) bad n d w acc pos' (buf @ rest) = dret (acc @ map received (v # vs)) (pos' + length buf) rest"
    if n: "n \<ge> Suc (max N1 N2)" and m: "m \<ge> Suc (max N1 N2)" for n m rest acc
  proof -
    from n obtain j where j: "n = Suc j" "j \<ge> N2" by (cases n) auto
    with N1(2) [of m "c @ rest"] N2 [rule_format, OF j(2), of m "acc @ [received v]" rest] m show ?thesis
      using s(3) e(3) vs(2,3) by (simp add: ac_simps)
  qed
  then show ?case using N1(1) e(3) by blast
qed


lemma SignatureOf_fields: "field_signatures fs = SignatureOf (map snd (filter fst fs))"
  by (induction fs) auto

lemma encode_fields_all: "encode_fields fs le d pos = encode_all (map snd (filter fst fs)) le d pos"
  by (induction fs arbitrary: pos) auto

lemma fields_snd: "map snd (filter fst (map (map_prod id f) fs)) = map f (map snd (filter fst fs))"
  by (induction fs) auto

lemma nesting_field:
  assumes "(used, t) \<in> set fs" and "nesting (Struct fs) \<le> 64"
  shows "nesting t < 64"
proof -
  have "nesting t \<le> Max (set (0 # map (\<lambda>(used, t). nesting t) fs))"
    by (rule Max_ge) (use assms(1) in force)+
  with assms(2) show ?thesis by (simp del: Max_insert set_simps list.set Max_le_iff)
qed

lemma arrives_int:
  assumes "\<And>le d pos. encode v le d pos = at_type (typeOf v) pos (\<lambda>p. Inr (put le n x))"
    and "period v = alignment (typeOf v)" and "x < 256 ^ n" and "0 < n" and "getSignature (typeOf v) = Some w"
    and "\<And>dec m le d p bs. decode_kind dec m le d w p bs = dbind (read_int le n p bs) (\<lambda>i. dret (g i))"
    and "g x = received v"
  shows "arrives v"
proof (rule arrivesI [OF assms(1)])
  fix le d w' p p' cs
  assume "getSignature (typeOf v) = Some w'" "Inr (put le n x) = (Inr cs :: wire_error + byte list)"
  with assms(5) have "w' = w" "cs = put le n x" by auto
  then show "cs \<noteq> [] \<and> (\<exists>N. \<forall>m\<ge>N. \<forall>rest. decode_kind (decode m le) m le d w' p' (cs @ rest) = dret (received v) (p' + length cs) rest)"
    using assms(3,4,6,7) by (auto simp: read_int_put simp flip: length_0_conv)
qed (simp add: assms(2))

lemma kind_ints:
  "decode_kind dec m le d ''n'' p bs = dbind (read_int le 2 p bs) (\<lambda>i. dret (GInt16 (of_nat i)))"
  "decode_kind dec m le d ''q'' p bs = dbind (read_int le 2 p bs) (\<lambda>i. dret (GUint16 (of_nat i)))"
  "decode_kind dec m le d ''i'' p bs = dbind (read_int le 4 p bs) (\<lambda>i. dret (GInt32 (of_nat i)))"
  "decode_kind dec m le d ''u'' p bs = dbind (read_int le 4 p bs) (\<lambda>i. dret (GUint32 (of_nat i)))"
  "decode_kind dec m le d ''x'' p bs = dbind (read_int le 8 p bs) (\<lambda>i. dret (GInt64 (of_nat i)))"
  "decode_kind dec m le d ''t'' p bs = dbind (read_int le 8 p bs) (\<lambda>i. dret (GUint64 (of_nat i)))"
  "decode_kind dec m le d ''d'' p bs = dbind (read_int le 8 p bs) (\<lambda>i. dret (GFloat64 (of_nat i)))"
  by (simp_all add: decode_kind_def)

lemma arrives_ints:
"arrives (GInt16 w16)" "arrives (GUint16 w16)" "arrives (GInt32 w32)" "arrives (GUint32 w32)" "arrives (GInt64 w64)" "arrives (GUint64 w64)" "arrives (GFloat64 w64)"
proof -
  show "arrives (GInt16 w16)"
    by (rule arrives_int [OF _ _ unat_bounds(1), where w = "''n''" and g = "\<lambda>i. GInt16 (of_nat i)"]) (simp_all add: kind_ints)
  show "arrives (GUint16 w16)"
    by (rule arrives_int [OF _ _ unat_bounds(1), where w = "''q''" and g = "\<lambda>i. GUint16 (of_nat i)"]) (simp_all add: kind_ints)
  show "arrives (GInt32 w32)"
    by (rule arrives_int [OF _ _ unat_bounds(2), where w = "''i''" and g = "\<lambda>i. GInt32 (of_nat i)"]) (simp_all add: kind_ints)
  show "arrives (GUint32 w32)"
    by (rule arrives_int [OF _ _ unat_bounds(2), where w = "''u''" and g = "\<lambda>i. GUint32 (of_nat i)"]) (simp_all add: kind_ints)
  show "arrives (GInt64 w64)"
    by (rule arrives_int [OF _ _ unat_bounds(3), where w = "''x''" and g = "\<lambda>i. GInt64 (of_nat i)"]) (simp_all add: kind_ints)
  show "arrives (GUint64 w64)"
    by (rule arrives_int [OF _ _ unat_bounds(3), where w = "''t''" and g = "\<lambda>i. GUint64 (of_nat i)"]) (simp_all add: kind_ints)
  show "arrives (GFloat64 w64)"
    by (rule arrives_int [OF _ _ unat_bounds(3), where w = "''d''" and g = "\<lambda>i. GFloat64 (of_nat i)"]) (simp_all add: kind_ints)
qed

lemma kind_others:
  "decode_kind dec m le d ''y'' p bs = dbind (read_full 1 p bs) (\<lambda>b. dret (GByte (hd b)))"
  "decode_kind dec m le d ''b'' p bs = dbind (decode_u32 le p bs) (\<lambda>i pos bs.
     if i = 0 then dret (GBool False) pos bs else if i = 1 then dret (GBool True) pos bs
     else dfail (FormatError ''invalid value for boolean''))"
  "decode_kind dec m le d ''s'' p bs = dbind (decode_string le p bs) (\<lambda>s. dret (GString s))"
  "decode_kind dec m le d ''o'' p bs = dbind (decode_string le p bs) (\<lambda>s. dret (GPath s))"
  "decode_kind dec m le d ''g'' p bs = dbind (decode_sig p bs) (\<lambda>s. dret (GSig s))"
  "decode_kind dec m le d ''h'' p bs = dbind (decode_u32 le p bs) (\<lambda>i. dret (GFDIndex (of_nat i)))"
  by (simp_all add: decode_kind_def)

lemma kind_variant:
  "d < 64 \<Longrightarrow> decode_kind dec m le d ''v'' p bs =
     dbind (decode_sig p bs) (\<lambda>sig pos bs.
       if length sig = 0 then dfail (FormatError ''variant signature is empty'')
       else case validSingle sig 0 of
              None \<Rightarrow> dfail RuntimePanic
            | Some (Some err, rem) \<Rightarrow> dfail (BadSignature err)
            | Some (None, rem) \<Rightarrow>
                if rem \<noteq> '''' then dfail (FormatError ''variant signature has multiple types'')
                else dbind (dec (d + 1) sig pos bs) (\<lambda>v. dret (GVariant sig v)))"
  by (simp add: decode_kind_def)

lemma kind_slice:
  "d < 64 \<Longrightarrow> hd w \<noteq> CHR ''{'' \<Longrightarrow> typeFor w = Some et \<Longrightarrow> decode_kind dec m le d (CHR ''a'' # w) p bs =
     dbind (decode_u32 le p bs) (\<lambda>l pos bs. dbind (align_in (alignment et) pos bs) (\<lambda>_ pos bs.
       decode_slice dec m (d + 1) et w (pos + l) [] pos bs))"
  by (simp add: decode_kind_def)

lemma kind_map:
  "d < 63 \<Longrightarrow> typeFor [k] = Some kt \<Longrightarrow> typeFor w = Some vt \<Longrightarrow> decode_kind dec m le d (''a{'' @ [k] @ w @ ''}'') p bs =
     dbind (decode_u32 le p bs) (\<lambda>l pos bs. dbind (align_in 8 pos bs) (\<lambda>_ pos bs.
       decode_map dec m (d + 2) kt vt [k] w (pos + l) [] pos bs))"
  by (simp add: decode_kind_def)

lemma kind_struct:
  "d < 64 \<Longrightarrow> decode_kind dec m le d (''('' @ w @ '')'') p bs =
     dbind (align_in 8 p bs) (\<lambda>_ pos bs. dbind (decode_seq dec bad_field m (d + 1) w [] pos bs) (\<lambda>vs.
       dret (GSlice Interface (map GInterface vs))))"
  by (simp add: decode_kind_def butlast_append)

lemma put_u32_aligned: "p mod 4 = 0 \<Longrightarrow> put_u32 le p w = put le 4 (unat w)"
  by (simp add: put_u32_def pad_def)

lemma read_u32_aligned:
  "p mod 4 = 0 \<Longrightarrow> decode_u32 le p (put le 4 (unat (w :: u32)) @ rest) = dret (unat w) (p + 4) rest"
  using read_u32 [of p p le w rest] by (simp add: put_u32_aligned)

lemma put_not_Nil: "0 < n \<Longrightarrow> put le n x \<noteq> []"
  by (metis length_put less_numeral_extra(3) list.size(3))

lemma arrives_fd: "arrives (GFD w)" "arrives (GFDIndex w)"
  by (rule arrivesI [where f = "\<lambda>le d p. Inr (put le 4 (unat w))"];
      auto simp: kind_others read_u32_aligned put_not_Nil)+

lemma arrives_byte: "arrives (GByte b)"
  by (rule arrivesI) (auto simp: kind_others read_full_def)

lemma arrives_bool: "arrives (GBool b)"
proof (rule arrivesI)
  fix le d w p p' cs
  assume a: "getSignature (typeOf (GBool b)) = Some w" "Inr (put_u32 le p (if b then 1 else 0)) = (Inr cs :: wire_error + byte list)"
    "p mod period (GBool b) = p' mod period (GBool b)"
  then have "w = ''b''" "cs = put_u32 le p (if b then 1 else 0)" "p mod 4 = p' mod 4" by simp_all
  then show "cs \<noteq> [] \<and> (\<exists>N. \<forall>n\<ge>N. \<forall>rest. decode_kind (decode n le) n le d w p' (cs @ rest) = dret (received (GBool b)) (p' + length cs) rest)"
    by (simp add: kind_others read_u32) (simp add: put_u32_def put_not_Nil)
qed simp_all

lemma put_string_short: "length (put_string le p s) < 2 ^ 32 \<Longrightarrow> length s < 2 ^ 32"
  by (simp add: put_string_def)

lemma arrives_strings: "arrives (GString s)" "arrives (GPath s)"
proof -
  show "arrives (GString s)"
    by (rule arrivesI) (auto simp: kind_others read_string [OF _ _ put_string_short], simp add: put_string_def)
  show "arrives (GPath s)"
    by (rule arrivesI) (auto simp: kind_others read_string [OF _ _ put_string_short], simp add: put_string_def)
qed

lemma arrives_sig: "ParseSignature s = Some (s, None) \<Longrightarrow> arrives (GSig s)"
  by (rule arrivesI) (auto simp: kind_others read_sig valid_sig_short, simp add: put_sig_def)

lemma arrives_variant:
  assumes v: "arrives v" and g: "getSignature (typeOf v) = Some s" and n: "nesting (typeOf v) \<le> 64" and l: "length s \<le> 255"
  shows "arrives (GVariant s v)"
proof (rule arrivesI [where f = "\<lambda>le d p. if d \<ge> 64 then Inl depth_error
     else ebind (encode v le (d + 1) (p + length (put_sig s))) (\<lambda>bs. Inr (put_sig s @ bs))"])
  fix le d w p p' cs
  assume w: "getSignature (typeOf (GVariant s v)) = Some w"
    and e: "(if d \<ge> 64 then Inl depth_error
     else ebind (encode v le (d + 1) (p + length (put_sig s))) (\<lambda>bs. Inr (put_sig s @ bs))) = Inr cs"
    and m: "p mod period (GVariant s v) = p' mod period (GVariant s v)" and lc: "length cs < 2 ^ 32"
  from e obtain b where b: "d < 64" "encode v le (d + 1) (p + length (put_sig s)) = Inr b" "cs = put_sig s @ b"
    by (auto simp: ebind_Inr split: if_splits)
  have "(p + length (put_sig s)) mod period v = (p' + length (put_sig s)) mod period v"
    by (rule mod_add_cong) (use m in simp)
  moreover have "length b < 2 ^ 32" using lc b(3) by simp
  ultimately obtain N where N: "\<And>n rest. n \<ge> N \<Longrightarrow>
     decode n le (d + 1) s (p' + length (put_sig s)) (b @ rest) = dret (received v) (p' + length (put_sig s) + length b) rest"
    using arrivesD [OF v b(2) g n] by blast
  have s: "single_type 0 s" "s \<noteq> []" "validSingle s 0 = Some (None, [])"
    using single_type_signature [OF g n] single_type_signature(3) [OF g n, of "[]"] by simp_all
  have "\<exists>ws. s = concat ws \<and> (\<forall>w\<in>set ws. single_type 0 w)" using s(1) by (intro exI [of _ "[s]"]) simp
  then have "ParseSignature s = Some (s, None)" using ParseSignature_iff l by blast
  from read_sig [OF this l] N show "cs \<noteq> [] \<and> (\<exists>N. \<forall>n\<ge>N. \<forall>rest.
     decode_kind (decode n le) n le d w p' (cs @ rest) = dret (received (GVariant s v)) (p' + length cs) rest)"
    using w b s by (auto simp: kind_variant put_sig_def add.assoc intro!: exI [of _ N])
qed (simp_all add: fun_eq_iff)

lemma encode_slice_Inr:
  "encode_slice t fs le d p = Inr cs \<longleftrightarrow>
     d < 64 \<and> (\<exists>buf. encode_all fs le (d + 1) 0 = Inr buf \<and> cs = put_sized le (alignment t) p buf)"
  by (auto simp: encode_slice_def ebind_Inr)

text \<open>What stands behind a length is read by a loop that runs up to its end.\<close>

lemma read_loop:
  assumes "p mod lcm 4 n = p' mod lcm 4 n" and "0 < n" and "length buf < 2 ^ 32"
    and "\<And>q. q mod n = 0 \<Longrightarrow> \<exists>N. \<forall>m\<ge>N. \<forall>rest. k m (q + length buf) q (buf @ rest) = dret x (q + length buf) rest"
    and "\<And>m bs. K m p' bs = dbind (decode_u32 le p' bs) (\<lambda>l q bs. dbind (align_in n q bs) (\<lambda>_ q bs. k m (q + l) q bs))"
  shows "put_sized le n p buf \<noteq> [] \<and> (\<exists>N. \<forall>m\<ge>N. \<forall>rest. K m p' (put_sized le n p buf @ rest)
    = dret x (p' + length (put_sized le n p buf)) rest)"
proof -
  let ?l = "put_u32 le p (of_nat (length buf))"
  let ?q = "p' + length ?l + length (pad n (p + length ?l))"
  have ma: "p mod 4 = p' mod 4" "p mod n = p' mod n" using mod_dvd [OF _ assms(1)] by simp_all
  have u: "unat (of_nat (length buf) :: u32) = length buf" using assms(3) by (simp add: unat_of_nat)
  have m: "(p + length ?l) mod n = (p' + length ?l) mod n" using mod_add_cong [OF ma(2)] .
  have "?q mod n = 0" using pad_aligned [OF assms(2), of "p' + length ?l"] pad_cong [OF assms(2) m] by simp
  from assms(4) [OF this] obtain N where N: "\<forall>m\<ge>N. \<forall>rest. k m (?q + length buf) ?q (buf @ rest) = dret x (?q + length buf) rest"
    by blast
  have "K m p' (put_sized le n p buf @ rest) = dret x (p' + length (put_sized le n p buf)) rest" if "m \<ge> N" for m rest
  proof -
    have "K m p' (put_sized le n p buf @ rest) = k m (?q + length buf) ?q (buf @ rest)"
      using align_in_pad [OF assms(2) m, of "buf @ rest"] by (simp add: assms(5) put_sized_def Let_def read_u32 [OF ma(1)] u)
    also have "\<dots> = dret x (?q + length buf) rest" using N that by blast
    finally show ?thesis by (simp add: put_sized_def Let_def add.assoc)
  qed
  moreover have "put_sized le n p buf \<noteq> []" by (simp add: put_sized_def Let_def put_u32_def put_not_Nil)
  ultimately show ?thesis by blast
qed

lemma slice_kind:
  assumes "\<forall>v\<in>set vs. typeOf v = t \<and> period v dvd alignment t \<and> arrives v"
    and g: "getSignature t = Some s" and n: "nesting t < 64"
    and e: "encode_slice t (map encode vs) le d p = Inr cs" and m: "p mod lcm 4 (alignment t) = p' mod lcm 4 (alignment t)"
    and l: "length cs < 2 ^ 32"
  shows "cs \<noteq> [] \<and> (\<exists>N. \<forall>n\<ge>N. \<forall>rest. decode_kind (decode n le) n le d (CHR ''a'' # s) p' (cs @ rest)
    = dret (GSlice (seen t) (map received vs)) (p' + length cs) rest)"
proof -
  from e obtain buf where b: "d < 64" "encode_all (map encode vs) le (d + 1) 0 = Inr buf" "cs = put_sized le (alignment t) p buf"
    by (auto simp: encode_slice_Inr)
  have lb: "length buf < 2 ^ 32" using l b(3) sized_length [of buf le "alignment t" p] by simp
  have n': "nesting t \<le> 64" using n by simp
  show ?thesis
    unfolding b(3)
  proof (rule read_loop [OF m alignment_pos lb])
    fix q assume "q mod alignment t = 0"
    then have "0 mod alignment t = q mod alignment t" by simp
    from slice_loop [OF assms(1) g n' b(2) this lb] obtain N where N: "\<forall>n\<ge>N. \<forall>m\<ge>N. \<forall>rest acc.
      decode_slice (decode m le) n (d + 1) (seen t) s (q + length buf) acc q (buf @ rest)
        = dret (GSlice (seen t) (acc @ map received vs)) (q + length buf) rest" by blast
    show "\<exists>N. \<forall>m\<ge>N. \<forall>rest. decode_slice (decode m le) m (d + 1) (seen t) s (q + length buf) [] q (buf @ rest)
        = dret (GSlice (seen t) (map received vs)) (q + length buf) rest"
      using N by (intro exI [of _ N]) simp
  next
    show "decode_kind (decode m le) m le d (CHR ''a'' # s) p' bs =
      dbind (decode_u32 le p' bs) (\<lambda>l q bs. dbind (align_in (alignment t) q bs) (\<lambda>_ q bs.
        decode_slice (decode m le) m (d + 1) (seen t) s (q + l) [] q bs))" for m bs
      using kind_slice [OF b(1) slice_signature(2) [OF g n] typeFor_seen [OF g n']] alignment_seen [OF g] by simp
  qed
qed

lemma arrives_slice:
  assumes "\<forall>v\<in>set vs. typeOf v = t \<and> period v dvd alignment t \<and> arrives v"
  shows "arrives (GSlice t vs)"
proof (rule arrivesI [where f = "encode_slice t (map encode vs)"])
  fix le d w p p' cs
  assume a: "getSignature (typeOf (GSlice t vs)) = Some w" "nesting (typeOf (GSlice t vs)) \<le> 64"
    "encode_slice t (map encode vs) le d p = Inr cs" "p mod period (GSlice t vs) = p' mod period (GSlice t vs)"
    "length cs < 2 ^ 32"
  then obtain s where s: "getSignature t = Some s" "w = CHR ''a'' # s" "nesting t < 64"
    by (auto simp: bind_eq_Some_conv)
  have m: "p mod lcm 4 (alignment t) = p' mod lcm 4 (alignment t)" by (rule mod_dvd [OF _ a(4)]) simp
  from slice_kind [OF assms s(1,3) a(3) m a(5)] s(2)
  show "cs \<noteq> [] \<and> (\<exists>N. \<forall>n\<ge>N. \<forall>rest. decode_kind (decode n le) n le d w p' (cs @ rest)
    = dret (received (GSlice t vs)) (p' + length cs) rest)" by simp
qed simp_all

lemma arrives_array:
  assumes "\<forall>v\<in>set vs. typeOf v = t \<and> period v dvd alignment t \<and> arrives v"
  shows "arrives (GArray t vs)"
proof (rule arrivesI [where f = "encode_slice t (map encode vs)"])
  fix le d w p p' cs
  assume a: "getSignature (typeOf (GArray t vs)) = Some w" "nesting (typeOf (GArray t vs)) \<le> 64"
    "encode_slice t (map encode vs) le d p = Inr cs" "p mod period (GArray t vs) = p' mod period (GArray t vs)"
    "length cs < 2 ^ 32"
  then obtain s where s: "getSignature t = Some s" "w = CHR ''a'' # s" "nesting t < 64"
    by (auto simp: bind_eq_Some_conv)
  have m: "p mod lcm 4 (alignment t) = p' mod lcm 4 (alignment t)" using a(4) by simp
  from slice_kind [OF assms s(1,3) a(3) m a(5)] s(2)
  show "cs \<noteq> [] \<and> (\<exists>N. \<forall>n\<ge>N. \<forall>rest. decode_kind (decode n le) n le d w p' (cs @ rest)
    = dret (received (GArray t vs)) (p' + length cs) rest)" by simp
qed simp_all

lemma arrives_map:
  assumes a: "\<forall>e\<in>set es. typeOf (fst e) = k \<and> typeOf (snd e) = t \<and> arrives (fst e) \<and> arrives (snd e)"
    and u: "distinct (map fst es)" "k \<noteq> UnixFD"
  shows "arrives (GMap k t es)"
proof (rule arrivesI [where f = "\<lambda>le d p. if d \<ge> 63 then Inl depth_error
     else if \<not> isKeyType k then Inl (InvalidTypeError (Map k t))
     else ebind (encode_entries (map (map_prod encode encode) es) le (d + 2) 0) (\<lambda>buf. Inr (put_sized le 8 p buf))"])
  fix le d w p p' cs
  assume w: "getSignature (typeOf (GMap k t es)) = Some w" and n: "nesting (typeOf (GMap k t es)) \<le> 64"
    and e: "(if d \<ge> 63 then Inl depth_error else if \<not> isKeyType k then Inl (InvalidTypeError (Map k t))
      else ebind (encode_entries (map (map_prod encode encode) es) le (d + 2) 0) (\<lambda>buf. Inr (put_sized le 8 p buf))) = Inr cs"
    and m: "p mod period (GMap k t es) = p' mod period (GMap k t es)" and l: "length cs < 2 ^ 32"
  from e obtain buf where b: "d < 63" "isKeyType k" "encode_entries (map (map_prod encode encode) es) le (d + 2) 0 = Inr buf"
    "cs = put_sized le 8 p buf" by (auto simp: ebind_Inr split: if_splits)
  have lb: "length buf < 2 ^ 32" using l b(4) sized_length [of buf le 8 p] by simp
  obtain c where c: "getSignature k = Some [c]" "sigToType c = Some (seen k)" using key_seen [OF b(2)] by blast
  with w b(2) obtain s where s: "getSignature t = Some s" "w = ''a{'' @ [c] @ s @ ''}''" by (auto simp: bind_eq_Some_conv)
  have nt: "nesting t \<le> 64" using n by simp
  have "p mod lcm 4 8 = p' mod lcm 4 8" using m by (simp add: lcm_nat_def)
  then show "cs \<noteq> [] \<and> (\<exists>N. \<forall>n\<ge>N. \<forall>rest. decode_kind (decode n le) n le d w p' (cs @ rest)
      = dret (received (GMap k t es)) (p' + length cs) rest)"
    unfolding b(4)
  proof (rule read_loop [OF _ _ lb])
    fix q :: nat assume "q mod 8 = 0"
    then have "0 mod 8 = q mod 8" by simp
    from map_loop [OF a b(2) u(2) c(1) s(1) nt b(3) this lb u(1), where vt = "seen t"] obtain N where N:
      "\<forall>n\<ge>N. \<forall>m\<ge>N. \<forall>rest acc. fst ` set acc \<inter> fst ` set es = {} \<longrightarrow>
        decode_map (decode m le) n (d + 2) (seen k) (seen t) [c] s (q + length buf) acc q (buf @ rest)
        = dret (GMap (seen k) (seen t) (acc @ map (map_prod received received) es)) (q + length buf) rest" by blast
    show "\<exists>N. \<forall>m\<ge>N. \<forall>rest. decode_map (decode m le) m (d + 2) (seen k) (seen t) [c] s (q + length buf) [] q (buf @ rest)
        = dret (received (GMap k t es)) (q + length buf) rest"
      using N by (intro exI [of _ N]) simp
  next
    show "decode_kind (decode m le) m le d w p' bs =
      dbind (decode_u32 le p' bs) (\<lambda>l q bs. dbind (align_in 8 q bs) (\<lambda>_ q bs.
        decode_map (decode m le) m (d + 2) (seen k) (seen t) [c] s (q + l) [] q bs))" for m bs
      using kind_map [OF b(1) typeFor_basic [OF c(2)] typeFor_seen [OF s(1) nt]] s(2) by simp
  qed simp
qed simp_all

lemma arrives_struct:
  assumes a: "\<forall>f\<in>set fs. fst f \<longrightarrow> arrives (snd f)" and u: "\<exists>f\<in>set fs. fst f"
  shows "arrives (GStruct fs)"
proof (rule arrivesI [where f = "\<lambda>le d p. if d \<ge> 64 then Inl depth_error
     else encode_fields (map (map_prod id encode) fs) le (d + 1) p"])
  fix le d w p p' cs
  let ?vs = "map snd (filter fst fs)"
  assume w: "getSignature (typeOf (GStruct fs)) = Some w" and n: "nesting (typeOf (GStruct fs)) \<le> 64"
    and e: "(if d \<ge> 64 then Inl depth_error else encode_fields (map (map_prod id encode) fs) le (d + 1) p) = Inr cs"
    and z: "p' mod alignment (typeOf (GStruct fs)) = 0"
    and m: "p mod period (GStruct fs) = p' mod period (GStruct fs)" and l: "length cs < 2 ^ 32"
  from e have b: "d < 64" "encode_all (map encode ?vs) le (d + 1) p = Inr cs"
    by (auto simp: encode_fields_all fields_snd split: if_splits)
  from w obtain s where s: "SignatureOf (map typeOf ?vs) = Some s" "w = ''('' @ s @ '')''"
    by (auto simp: bind_eq_Some_conv SignatureOf_fields fields_snd)
  have v: "nesting (typeOf x) \<le> 64 \<and> arrives x" if x: "x \<in> set ?vs" for x
  proof -
    from x obtain y where y: "(y, x) \<in> set fs" "y" by auto
    then have "(y, typeOf x) \<in> set (map (map_prod id typeOf) fs)" by force
    with nesting_field [OF this] n a y show ?thesis by fastforce
  qed
  have ne: "?vs \<noteq> []" using u by (auto simp: filter_empty_conv)
  have m8: "p mod 8 = p' mod 8" using m by simp
  from v seq_loop [OF _ s(1) b(2) m8 l] ne obtain N where N: "cs \<noteq> []"
    "\<forall>n\<ge>N. \<forall>m\<ge>N. \<forall>rest acc. decode_seq (decode m le) bad_field n (d + 1) s acc p' (cs @ rest)
      = dret (acc @ map received ?vs) (p' + length cs) rest" by blast
  have al: "align_in 8 p' bs = dret () p' bs" for bs using z by (simp add: align_in_def)
  have "decode_kind (decode n le) n le d w p' (cs @ rest) = dret (received (GStruct fs)) (p' + length cs) rest"
    if "n \<ge> N" for n rest
    using N(2) [rule_format, OF that that, of "[]" rest] kind_struct [OF b(1)] s(2)
    by (simp add: al fields_snd flip: map_map)
  with N(1) show "cs \<noteq> [] \<and> (\<exists>N. \<forall>n\<ge>N. \<forall>rest. decode_kind (decode n le) n le d w p' (cs @ rest)
      = dret (received (GStruct fs)) (p' + length cs) rest)" by blast
qed (simp_all add: fun_eq_iff)

lemma steady_arrives: "steady v \<Longrightarrow> arrives v"
proof (induction v)
  case (GPtr t v)
  show ?case
  proof (cases v)
    case None
    then show ?thesis by (simp add: arrives_def at_type_def ebind_def)
  next
    case (Some x)
    with GPtr show ?thesis using arrives_Ptr [of x t] by auto
  qed
next
  case (GSlice t vs)
  then show ?case by (intro arrives_slice) auto
next
  case (GArray t vs)
  then show ?case by (intro arrives_array) auto
next
  case (GMap k t es)
  then have "\<forall>e\<in>set es. arrives (fst e) \<and> arrives (snd e)" by (force elim!: fsts.cases snds.cases)
  with GMap.prems show ?case by (intro arrives_map) auto
next
  case (GStruct fs)
  then have "\<forall>f\<in>set fs. fst f \<longrightarrow> arrives (snd f)" by (force elim!: snds.cases)
  with GStruct.prems show ?case by (intro arrives_struct) auto
next
  case (GVariant s v)
  then show ?case by (intro arrives_variant) auto
next
  case (GSig s)
  then show ?case by (intro arrives_sig) auto
next
  case (GInterface v)
  show ?case by (simp add: arrives_def at_type_def ebind_def)
next
  case GOther
  show ?case by (simp add: arrives_def at_type_def ebind_def)
qed (rule arrives_byte arrives_bool arrives_ints arrives_fd arrives_strings)+

section \<open>Fuel\<close>

text \<open>More fuel does not change a result.\<close>

definition below :: "'a dres \<Rightarrow> 'a dres \<Rightarrow> bool" where
  "below r r' \<longleftrightarrow> (r = None \<or> r' = r)"

lemma below_refl [simp]: "below r r" "below None r"
  by (simp_all add: below_def)

lemma below_dbind: "below r r' \<Longrightarrow> (\<And>x pos bs. below (f x pos bs) (f' x pos bs)) \<Longrightarrow> below (dbind r f) (dbind r' f')"
  by (auto simp: below_def dbind_def split: option.splits sum.splits)

lemma below_slice:
  assumes "\<And>d s pos bs. below (dec d s pos bs) (dec' d s pos bs)"
  shows "n \<le> n' \<Longrightarrow> below (decode_slice dec n d t sig end acc pos bs) (decode_slice dec' n' d t sig end acc pos bs)"
proof (induction n arbitrary: n' acc pos bs)
  case (Suc n)
  then obtain m where "n' = Suc m" "n \<le> m" by (cases n') auto
  then show ?case by (auto intro!: below_dbind assms Suc.IH)
qed simp

lemma below_map:
  assumes "\<And>d s pos bs. below (dec d s pos bs) (dec' d s pos bs)"
  shows "n \<le> n' \<Longrightarrow> below (decode_map dec n d kt vt ks vs end acc pos bs) (decode_map dec' n' d kt vt ks vs end acc pos bs)"
proof (induction n arbitrary: n' acc pos bs)
  case (Suc n)
  then obtain m where "n' = Suc m" "n \<le> m" by (cases n') auto
  then show ?case by (auto intro!: below_dbind assms Suc.IH)
qed simp

lemma below_seq:
  assumes "\<And>d s pos bs. below (dec d s pos bs) (dec' d s pos bs)"
  shows "n \<le> n' \<Longrightarrow> below (decode_seq dec bad n d s acc pos bs) (decode_seq dec' bad n' d s acc pos bs)"
proof (induction n arbitrary: n' s acc pos bs)
  case (Suc n)
  then obtain m where "n' = Suc m" "n \<le> m" by (cases n') auto
  then show ?case by (auto intro!: below_dbind assms Suc.IH split: option.splits)
qed simp

lemma below_if: "(P \<Longrightarrow> below a a') \<Longrightarrow> (\<not> P \<Longrightarrow> below b b') \<Longrightarrow> below (if P then a else b) (if P then a' else b')"
  by simp

lemma below_option:
  "below a a' \<Longrightarrow> (\<And>x. below (f x) (f' x)) \<Longrightarrow> below (case r of None \<Rightarrow> a | Some x \<Rightarrow> f x) (case r of None \<Rightarrow> a' | Some x \<Rightarrow> f' x)"
  by (cases r) simp_all

lemma below_prod: "(\<And>x y. below (f x y) (f' x y)) \<Longrightarrow> below (case r of (x, y) \<Rightarrow> f x y) (case r of (x, y) \<Rightarrow> f' x y)"
  by (cases r) simp

lemma below_list:
  "below a a' \<Longrightarrow> (\<And>x xs. below (f x xs) (f' x xs)) \<Longrightarrow> below (case r of [] \<Rightarrow> a | x # xs \<Rightarrow> f x xs) (case r of [] \<Rightarrow> a' | x # xs \<Rightarrow> f' x xs)"
  by (cases r) simp_all

lemma below_kind:
  assumes "\<And>d s pos bs. below (dec d s pos bs) (dec' d s pos bs)" and "n \<le> n'"
  shows "below (decode_kind dec n le d s pos bs) (decode_kind dec' n' le d s pos bs)"
  unfolding decode_kind_def Let_def
  by (rule below_refl(1) assms(1) below_slice [OF assms] below_map [OF assms] below_seq [OF assms]
      below_if below_option below_prod below_list below_dbind)+

lemma below_decode: "n \<le> n' \<Longrightarrow> below (decode n le d s pos bs) (decode n' le d s pos bs)"
proof (induction n arbitrary: n' d s pos bs)
  case (Suc n)
  then obtain m where "n' = Suc m" "n \<le> m" by (cases n') auto
  with Suc.IH show ?case by (auto intro!: below_dbind below_kind split: option.splits)
qed simp

lemma Decode_fuel: "Decode n le sig pos bs = Some r \<Longrightarrow> n \<le> n' \<Longrightarrow> Decode n' le sig pos bs = Some r"
  using below_seq [of "decode n le" "decode n' le" n n' bad_argument 0 sig "[]" pos bs] below_decode
  by (auto simp: Decode_def below_def)

section \<open>Message bodies\<close>

text \<open>A signature with an error is no error of \<open>Decode\<close>.\<close>

lemma Decode_swallows_error:
  "validSingle sig 0 = Some (Some e, rem) \<Longrightarrow> sig \<noteq> [] \<Longrightarrow> Decode (Suc n) le sig pos bs = dret [] pos bs"
  by (simp add: Decode_def bad_argument_def del: decode.simps)

text \<open>
  What the encoder writes for the values of a message body is read back by the decoder, in
  either byte order and at every position, with whatever follows left unread. The values are the
  ones that were sent, but for what the types of the wire cannot express: a pointer has become what
  it points to, an array a slice, a struct the list of its fields, and a file descriptor an index.
\<close>

lemma bodies_arrive:
  assumes "Encode le pos vs = Inr bs" and "\<forall>v\<in>set vs. steady v \<and> nesting (typeOf v) \<le> 64"
    and "SignatureOf (map typeOf vs) = Some sig" and "length bs < 2 ^ 32"
  shows "\<exists>n. \<forall>m\<ge>n. \<forall>rest. Decode m le sig pos (bs @ rest) = dret (map received vs) (pos + length bs) rest"
proof -
  have "\<forall>v\<in>set vs. nesting (typeOf v) \<le> 64 \<and> arrives v" using assms(2) steady_arrives by blast
  from seq_loop [OF this assms(3) assms(1) [unfolded Encode_def] refl assms(4)]
  show ?thesis by (fastforce simp: Decode_def)
qed

lemma bodies_arrive_example:
  "\<exists>n. \<forall>m\<ge>n. \<forall>rest. Decode m False ''as(yv)'' 3 ([0, 0,0,0,7, 0,0,0,2, 97,98,0, 0,  4, 1,117,0, 0,0,0,9] @ rest)
   = dret [GSlice String [GString ''ab''], GSlice Interface [GInterface (GByte 4), GInterface (GVariant ''u'' (GUint32 9))]] 24 rest"
proof -
  let ?vs = "[GSlice String [GString ''ab''], GStruct [(True, GByte 4), (False, GOther), (True, GVariant ''u'' (GUint32 9))]]"
  have "Encode False 3 ?vs = Inr [0, 0,0,0,7, 0,0,0,2, 97,98,0, 0,  4, 1,117,0, 0,0,0,9]" by code_simp
  moreover have "\<forall>v\<in>set ?vs. steady v \<and> nesting (typeOf v) \<le> 64" by simp
  moreover have "SignatureOf (map typeOf ?vs) = Some ''as(yv)''" by simp
  ultimately have "\<exists>n. \<forall>m\<ge>n. \<forall>rest. Decode m False ''as(yv)'' 3 ([0, 0,0,0,7, 0,0,0,2, 97,98,0, 0,  4, 1,117,0, 0,0,0,9] @ rest)
      = dret (map received ?vs) (3 + 21) rest" by (drule_tac bodies_arrive) simp_all
  then show ?thesis by simp
qed

text \<open>
  Slices of slices of numbers of eight bytes do not arrive. The encoder lays the elements of a
  slice out as if they began at position 0, but behind the length of the slice they begin at 4: the
  padding before the number is wrong, and the decoder asks for bytes that are not there.
\<close>

lemma nested_slices_misaligned:
  "Encode False 0 [GSlice (Slice Uint64) [GSlice Uint64 [GUint64 1]]]
     = Inr [0,0,0,16, 0,0,0,8, 0,0,0,0, 0,0,0,0,0,0,0,1]
   \<and> Decode 10 False ''aat'' 0 [0,0,0,16, 0,0,0,8, 0,0,0,0, 0,0,0,0,0,0,0,1] = dfail UnexpectedEOF"
proof
  show "Encode False 0 [GSlice (Slice Uint64) [GSlice Uint64 [GUint64 1]]]
     = Inr [0,0,0,16, 0,0,0,8, 0,0,0,0, 0,0,0,0,0,0,0,1]" by code_simp
  show "Decode 10 False ''aat'' 0 [0,0,0,16, 0,0,0,8, 0,0,0,0, 0,0,0,0,0,0,0,1] = dfail UnexpectedEOF" by code_simp
qed

lemma empty_struct: "validSingle ''()'' 0 = Some (None, [])" "validSingle ''a()'' 0 = Some (None, [])"
  by code_simp+

lemma empty_struct_type: "typeFor ''()'' = Some interfacesType" "typeFor ''a()'' = Some (Slice interfacesType)"
  by code_simp+

lemma empty_struct_stays:
  "p mod 8 = 0 \<Longrightarrow> d < 64 \<Longrightarrow> decode m le d ''()'' p bs = None \<or> decode m le d ''()'' p bs = dret (GSlice Interface []) p bs"
proof (induction m)
  case (Suc m)
  show ?case
    by (cases m) (use Suc.prems in \<open>simp_all add: empty_struct_type interfacesType_def align_in_def decode_kind_def dbind_def dret_def\<close>)
qed simp

lemma empty_struct_loops:
  "p mod 8 = 0 \<Longrightarrow> d < 64 \<Longrightarrow> p < end \<Longrightarrow> decode_slice (decode m le) n d t ''()'' end acc p bs = None"
proof (induction n arbitrary: acc)
  case (Suc n)
  from empty_struct_stays [OF Suc.prems(1,2), of m le bs] Suc show ?case
    by (elim disjE) (simp_all add: dbind_def dret_def)
qed simp

text \<open>
  C30: eight bytes make the decoder run forever. A slice of empty structs with a length other than 0
  is read element by element up to its end, but an empty struct takes no bytes: with every bound on
  the turns of its loops, the bound is reached.
\<close>

theorem empty_structs_never_end:
  "0 < l \<Longrightarrow> Decode n le ''a()'' 0 (put le 4 (unat (l :: u32)) @ [0, 0, 0, 0] @ rest) = None"
proof -
  assume l: "0 < l"
  then have l': "0 < unat l" by (simp add: unat_gt_0)
  have e: "decode m le 0 ''a()'' 0 (put le 4 (unat l) @ [0, 0, 0, 0] @ rest) = None" for m
  proof (cases m)
    case (Suc k)
    have u: "decode_u32 le 0 (put le 4 (unat l) @ [0, 0, 0, 0] @ rest) = dret (unat l) 4 ([0, 0, 0, 0] @ rest)"
      using read_u32_aligned [of 0 le l] by simp
    have "align_in 8 4 ([0, 0, 0, 0] @ rest) = dret () 8 rest" by (simp add: align_in_eq)
    with u Suc l' show ?thesis
      by (simp add: empty_struct_type interfacesType_def align_in_def [of 8 0] align_in_def [of 4 0] align_in_def [of 1]
        kind_slice empty_struct_loops)
  qed simp
  show ?thesis
  proof (cases n)
    case (Suc k)
    have "decode_seq (decode n le) bad_argument (Suc k) 0 ''a()'' [] 0 (put le 4 (unat l) @ [0, 0, 0, 0] @ rest) = None"
      by (simp add: empty_struct e [unfolded append_Cons append_Nil] del: decode.simps) (simp add: dbind_def)
    with Suc show ?thesis by (simp only: Decode_def)
  qed (simp add: Decode_def)
qed

theorem empty_structs_never_end_witness:
  "Decode 1000 True ''a()'' 0 [5, 0, 0, 0, 0, 0, 0, 0] = None"
proof -
  have "put True 4 (unat (5 :: u32)) = [5, 0, 0, 0]" by code_simp
  then show ?thesis using empty_structs_never_end [of 5 1000 True "[]"] by simp
qed

end
