(* ===== verification/DbusTypes.thy ===== *)
theory DbusTypes
  imports DbusRoundtrip
begin

text \<open>
  The values of the D-Bus decoder have the types of the signature they were decoded with, for every
  input, and the decoder reads exactly the bytes by which its position moves on.
\<close>

section \<open>Values of a signature\<close>

inductive conforms :: "gval \<Rightarrow> string \<Rightarrow> bool" where
  "conforms (GByte b) ''y''"
| "conforms (GBool x) ''b''"
| "conforms (GInt16 w16) ''n''"
| "conforms (GUint16 w16) ''q''"
| "conforms (GInt32 w32) ''i''"
| "conforms (GUint32 w32) ''u''"
| "conforms (GInt64 w64) ''x''"
| "conforms (GUint64 w64) ''t''"
| "conforms (GFloat64 w64) ''d''"
| "conforms (GFDIndex w32) ''h''"
| "conforms (GString s) ''s''"
| "conforms (GPath s) ''o''"
| "ParseSignature s = Some (s, None) \<Longrightarrow> conforms (GSig s) ''g''"
| "single_type 0 s \<Longrightarrow> conforms v s \<Longrightarrow> conforms (GVariant s v) ''v''"
| "single_type 0 s \<Longrightarrow> typeFor s = Some t \<Longrightarrow> \<forall>v\<in>set vs. conforms v s \<Longrightarrow> conforms (GSlice t vs) (CHR ''a'' # s)"
| "sigToType k = Some kt \<Longrightarrow> typeFor s = Some t \<Longrightarrow> \<forall>e\<in>set es. conforms (fst e) [k] \<and> conforms (snd e) s \<Longrightarrow> distinct (map fst es)
    \<Longrightarrow> conforms (GMap kt t es) (''a{'' @ [k] @ s @ ''}'')"
| "list_all2 conforms vs ws \<Longrightarrow> conforms (GSlice Interface (map GInterface vs)) (''('' @ concat ws @ '')'')"

section \<open>Reading\<close>

definition reads :: "nat \<Rightarrow> byte list \<Rightarrow> nat \<Rightarrow> byte list \<Rightarrow> bool" where
  "reads pos bs p r \<longleftrightarrow> (\<exists>c. bs = c @ r \<and> p = pos + length c)"

lemma reads_refl [simp]: "reads pos bs pos bs"
  by (simp add: reads_def)

lemma reads_trans [trans]: "reads pos bs p r \<Longrightarrow> reads p r q s \<Longrightarrow> reads pos bs q s"
  by (auto simp: reads_def)

lemma dret_Inr [simp]: "dret x p r = Some (Inr (y, q, s)) \<longleftrightarrow> x = y \<and> p = q \<and> r = s"
  by (auto simp: dret_def)

lemma dfail_Inr [simp]: "dfail e \<noteq> Some (Inr y)"
  by (simp add: dfail_def)

lemma dbind_Inr: "dbind r f = Some (Inr y) \<longleftrightarrow> (\<exists>x q c. r = Some (Inr (x, q, c)) \<and> f x q c = Some (Inr y))"
  by (auto simp: dbind_def split: option.splits sum.splits)

lemma read_full_reads: "read_full n pos bs = Some (Inr (x, p, r)) \<Longrightarrow> reads pos bs p r \<and> length x = n"
  by (auto simp: read_full_def reads_def intro!: exI [of _ "take n bs"] split: if_splits)

lemma align_in_reads: "align_in n pos bs = Some (Inr (x, p, r)) \<Longrightarrow> reads pos bs p r"
  by (auto simp: align_in_def dbind_Inr dest: read_full_reads split: if_splits)

lemma read_int_reads: "read_int le n pos bs = Some (Inr (x, p, r)) \<Longrightarrow> reads pos bs p r"
  by (auto simp: read_int_def dbind_Inr dest: read_full_reads)

lemma decode_u32_reads: "decode_u32 le pos bs = Some (Inr (x, p, r)) \<Longrightarrow> reads pos bs p r"
  by (auto simp: decode_u32_def dbind_Inr dest!: align_in_reads read_int_reads intro: reads_trans)

lemma decode_string_reads: "decode_string le pos bs = Some (Inr (x, p, r)) \<Longrightarrow> reads pos bs p r"
  by (auto simp: decode_string_def dbind_Inr dest!: align_in_reads decode_u32_reads read_full_reads intro: reads_trans)

lemma ParseSignature_result: "ParseSignature s = Some (t, None) \<Longrightarrow> t = s"
  by (auto simp: ParseSignature_def sig_error_def bind_eq_Some_conv split: if_splits)

lemma decode_sig_reads:
  assumes "decode_sig pos bs = Some (Inr (x, p, r))"
  shows "reads pos bs p r \<and> ParseSignature x = Some (x, None)"
proof -
  from assms obtain l q c b q2 c2 where e: "read_full 1 pos bs = Some (Inr (l, q, c))"
    "read_full (unat (hd l) + 1) q c = Some (Inr (b, q2, c2))"
    "(case ParseSignature (string_of (butlast b)) of None \<Rightarrow> dfail RuntimePanic
      | Some (sig, None) \<Rightarrow> dret sig q2 c2 | Some (sig, Some err) \<Rightarrow> dfail (BadSignature err)) = Some (Inr (x, p, r))"
    by (auto simp: decode_sig_def dbind_Inr)
  from e(3) have "ParseSignature (string_of (butlast b)) = Some (x, None)" "p = q2" "r = c2"
    by (auto split: option.split_asm prod.split_asm)
  with read_full_reads [OF e(1)] read_full_reads [OF e(2)] ParseSignature_result show ?thesis by (auto intro: reads_trans)
qed

section \<open>The loops\<close>

text \<open>A decoder of parts that gives values of its signatures.\<close>

definition typed :: "decoder \<Rightarrow> bool" where
  "typed dec \<longleftrightarrow> (\<forall>d s pos bs v p r. single_type 0 s \<longrightarrow> dec d s pos bs = Some (Inr (v, p, r)) \<longrightarrow> conforms v s \<and> reads pos bs p r)"

lemma typedD: "typed dec \<Longrightarrow> single_type 0 s \<Longrightarrow> dec d s pos bs = Some (Inr (v, p, r)) \<Longrightarrow> conforms v s \<and> reads pos bs p r"
  by (auto simp: typed_def)

lemma slice_typed:
  assumes "typed dec" and "single_type 0 s" and "\<forall>v\<in>set acc. conforms v s"
    and "decode_slice dec n d t s end acc pos bs = Some (Inr (v, p, r))"
  shows "(\<exists>vs. v = GSlice t vs \<and> (\<forall>v\<in>set vs. conforms v s)) \<and> reads pos bs p r"
  using assms(3,4)
proof (induction n arbitrary: acc pos bs)
  case (Suc n)
  show ?case
  proof (cases "pos < end")
    case True
    with Suc.prems(2) obtain e q c where e: "dec d s pos bs = Some (Inr (e, q, c))"
      "decode_slice dec n d t s end (acc @ [e]) q c = Some (Inr (v, p, r))" by (auto simp: dbind_Inr)
    from typedD [OF assms(1,2) e(1)] Suc.IH [OF _ e(2)] Suc.prems(1) show ?thesis by (auto intro: reads_trans)
  qed (use Suc.prems in auto)
qed simp

lemma map_typed:
  assumes "typed dec" and "single_type 0 [k]" and "single_type 0 s" and "distinct (map fst acc)"
    and "\<forall>e\<in>set acc. conforms (fst e) [k] \<and> conforms (snd e) s"
    and "decode_map dec n d kt vt [k] s end acc pos bs = Some (Inr (v, p, r))"
  shows "(\<exists>es. v = GMap kt vt es \<and> distinct (map fst es) \<and> (\<forall>e\<in>set es. conforms (fst e) [k] \<and> conforms (snd e) s)) \<and> reads pos bs p r"
  using assms(4-6)
proof (induction n arbitrary: acc pos bs)
  case (Suc n)
  show ?case
  proof (cases "pos < end")
    case True
    with Suc.prems(3) obtain q c x q2 c2 y q3 c3 where e: "align_in 8 pos bs = Some (Inr ((), q, c))"
      "dec d [k] q c = Some (Inr (x, q2, c2))" "dec d s q2 c2 = Some (Inr (y, q3, c3))"
      "decode_map dec n d kt vt [k] s end (AList.update x y acc) q3 c3 = Some (Inr (v, p, r))"
      by (auto simp: dbind_Inr split: if_splits)
    have x: "conforms x [k]" "reads q c q2 c2" "conforms y s" "reads q2 c2 q3 c3"
      using typedD [OF assms(1,2) e(2)] typedD [OF assms(1,3) e(3)] by simp_all
    have "set (AList.update x y acc) \<subseteq> insert (x, y) (set acc)" by (induction acc) auto
    then have "\<forall>e\<in>set (AList.update x y acc). conforms (fst e) [k] \<and> conforms (snd e) s"
      using Suc.prems(2) x(1,3) by (metis fst_conv insertE snd_conv subsetD)
    with Suc.IH [OF distinct_update [OF Suc.prems(1)] _ e(4)] align_in_reads [OF e(1)] x(2,4)
    show ?thesis by (blast intro: reads_trans)
  qed (use Suc.prems in auto)
qed simp

lemma seq_typed:
  assumes "typed dec" and "\<forall>w\<in>set ws. single_type 0 w"
    and "decode_seq dec bad n d (concat ws) acc pos bs = Some (Inr (vs, p, r))"
  shows "(\<exists>us. vs = acc @ us \<and> list_all2 conforms us ws) \<and> reads pos bs p r"
  using assms(2,3)
proof (induction ws arbitrary: n acc pos bs)
  case Nil
  then show ?case by (cases n) auto
next
  case (Cons w ws)
  then obtain m where m: "n = Suc m" by (cases n) auto
  have w: "single_type 0 w" "w \<noteq> []" using Cons.prems(1) single_type_not_Nil by auto
  from Cons.prems(2) m w(2) validSingle_complete [OF w(1), of "concat ws"] obtain v q c where e: "dec d w pos bs = Some (Inr (v, q, c))"
    "decode_seq dec bad m d (concat ws) (acc @ [v]) q c = Some (Inr (vs, p, r))"
    by (auto simp: dbind_Inr)
  from Cons.IH [OF _ e(2)] Cons.prems(1) obtain us where "vs = (acc @ [v]) @ us" "list_all2 conforms us ws" "reads q c p r" by auto
  with typedD [OF assms(1) w(1) e(1)] show ?case by (auto intro!: exI [of _ "v # us"] intro: reads_trans)
qed

section \<open>The decoder\<close>

lemma single_type_lower: "single_type d w \<Longrightarrow> d' \<le> d \<Longrightarrow> single_type d' w"
proof (induction arbitrary: d' rule: single_type.induct)
  case (struct d ws)
  then show ?case by (intro single_type.struct) auto
next
  case (dict d k w)
  then show ?case by (intro single_type.dict) auto
qed (auto intro: single_type.intros)

text \<open>The cases of the switch.\<close>

lemma numbers_typed:
  assumes "c \<in> {CHR ''n'', CHR ''q'', CHR ''i'', CHR ''u'', CHR ''x'', CHR ''t'', CHR ''d''}"
    and "decode_kind dec n le d [c] pos bs = Some (Inr (v, p, r))"
  shows "conforms v [c] \<and> reads pos bs p r"
  using assms by (auto simp: kind_ints dbind_Inr intro: conforms.intros dest: read_int_reads)

lemma strings_typed:
  assumes "c \<in> {CHR ''y'', CHR ''b'', CHR ''s'', CHR ''o'', CHR ''g'', CHR ''h''}"
    and "decode_kind dec n le d [c] pos bs = Some (Inr (v, p, r))"
  shows "conforms v [c] \<and> reads pos bs p r"
  using assms
  by (auto simp: kind_others dbind_Inr intro: conforms.intros split: if_splits
      dest!: read_full_reads decode_u32_reads decode_string_reads decode_sig_reads)

lemma variant_typed:
  assumes "typed dec" and "decode_kind dec n le d ''v'' pos bs = Some (Inr (v, p, r))"
  shows "conforms v ''v'' \<and> reads pos bs p r"
proof -
  have "d < 64" using assms(2) by (auto simp: decode_kind_def split: if_splits)
  with assms(2) obtain sig q c x where e: "decode_sig pos bs = Some (Inr (sig, q, c))" "validSingle sig 0 = Some (None, [])"
    "dec (d + 1) sig q c = Some (Inr (x, p, r))" "v = GVariant sig x"
    by (auto simp: kind_variant dbind_Inr split: if_splits option.splits prod.splits)
  have "single_type 0 sig" using valid_sound(1) [OF e(2)] by auto
  with typedD [OF assms(1) _ e(3)] decode_sig_reads [OF e(1)] e(4) show ?thesis by (auto intro: conforms.intros reads_trans)
qed

lemma slice_kind_typed:
  assumes "typed dec" and "single_type 0 s" and "decode_kind dec n le d (CHR ''a'' # s) pos bs = Some (Inr (v, p, r))"
  shows "conforms v (CHR ''a'' # s) \<and> reads pos bs p r"
proof -
  have h: "hd s \<noteq> CHR ''{''" using single_type_hd [OF assms(2)] .
  with assms(3) have d: "d < 64" by (auto simp: decode_kind_def split: if_splits)
  with h assms(3) obtain t where t: "typeFor s = Some t" by (auto simp: decode_kind_def dbind_Inr split: option.splits if_splits)
  with assms(3) d h obtain l q c q2 c2 where e: "decode_u32 le pos bs = Some (Inr (l, q, c))" "align_in (alignment t) q c = Some (Inr ((), q2, c2))"
    "decode_slice dec n (d + 1) t s (q2 + l) [] q2 c2 = Some (Inr (v, p, r))"
    by (auto simp: kind_slice dbind_Inr)
  from slice_typed [OF assms(1,2) _ e(3)] decode_u32_reads [OF e(1)] align_in_reads [OF e(2)] t assms(2)
  show ?thesis by (auto intro!: conforms.intros intro: reads_trans)
qed

lemma map_kind_typed:
  assumes "typed dec" and "single_type 0 [k]" and "single_type 0 s"
    and "decode_kind dec n le d (''a{'' @ [k] @ s @ ''}'') pos bs = Some (Inr (v, p, r))"
  shows "conforms v (''a{'' @ [k] @ s @ ''}'') \<and> reads pos bs p r"
proof -
  obtain kt t where t: "typeFor [k] = Some kt" "typeFor s = Some t" and d: "d < 63"
    using assms(4) by (auto simp: decode_kind_def Let_def split: option.splits if_splits)
  from assms(4) [unfolded kind_map [OF d t]] obtain l q c q2 c2 where e: "decode_u32 le pos bs = Some (Inr (l, q, c))" "align_in 8 q c = Some (Inr ((), q2, c2))"
    "decode_map dec n (d + 2) kt t [k] s (q2 + l) [] q2 c2 = Some (Inr (v, p, r))"
    by (auto simp: dbind_Inr)
  have "k \<in> set basic_chars" using assms(2) by (cases rule: single_type.cases) (auto dest: single_type_not_Nil)
  then have "sigToType k \<noteq> None" by (auto simp: sigToType_def basic_chars_def)
  then have k: "sigToType k = Some kt" using t(1) typeFor_basic by fastforce
  from map_typed [OF assms(1-3) _ _ e(3)] decode_u32_reads [OF e(1)] align_in_reads [OF e(2)] conforms.intros(16) [OF k t(2)]
  show ?thesis by (auto intro: reads_trans)
qed

lemma struct_kind_typed:
  assumes "typed dec" and "\<forall>w\<in>set ws. single_type 0 w"
    and "decode_kind dec n le d (''('' @ concat ws @ '')'') pos bs = Some (Inr (v, p, r))"
  shows "conforms v (''('' @ concat ws @ '')'') \<and> reads pos bs p r"
proof -
  have d: "d < 64" using assms(3) by (auto simp: decode_kind_def split: if_splits)
  from assms(3) [unfolded kind_struct [OF d]] obtain q c vs where e: "align_in 8 pos bs = Some (Inr ((), q, c))"
    "decode_seq dec bad_field n (d + 1) (concat ws) [] q c = Some (Inr (vs, p, r))" "v = GSlice Interface (map GInterface vs)"
    by (auto simp: dbind_Inr)
  from seq_typed [OF assms(1,2) e(2)] align_in_reads [OF e(1)] conforms.intros(17) [of vs ws] e(3)
  show ?thesis by (auto intro: reads_trans)
qed

lemma kind_typed:
  assumes t: "typed dec" and w: "single_type 0 w" and e: "decode_kind dec n le d w pos bs = Some (Inr (v, p, r))"
  shows "conforms v w \<and> reads pos bs p r"
  using w
proof (cases rule: single_type.cases)
  case (basic c)
  then have "c \<in> {CHR ''n'', CHR ''q'', CHR ''i'', CHR ''u'', CHR ''x'', CHR ''t'', CHR ''d''} \<or>
      c \<in> {CHR ''y'', CHR ''b'', CHR ''s'', CHR ''o'', CHR ''g'', CHR ''h''} \<or> c = CHR ''v''" by (auto simp: basic_chars_def)
  then show ?thesis
    using numbers_typed [OF _ e [unfolded basic(1)]] strings_typed [OF _ e [unfolded basic(1)]] variant_typed [OF t] e basic(1) by metis
next
  case (array s)
  then have "single_type 0 s" using single_type_lower [OF array(3), of 0] by simp
  with slice_kind_typed [OF t this] e array(1) show ?thesis by simp
next
  case (dict k s)
  then have "single_type 0 s" "single_type 0 [k]" using single_type_lower [OF dict(4), of 0] by (auto intro: single_type.basic)
  with map_kind_typed [OF t this(2,1)] e dict(1) show ?thesis by simp
next
  case (struct ws)
  then have "\<forall>w\<in>set ws. single_type 0 w" using single_type_lower [of 1 _ 0] by simp
  with struct_kind_typed [OF t this] e struct(1) show ?thesis by simp
qed

lemma decode_typed: "typed (decode n le)"
proof (induction n)
  case (Suc n)
  show ?case
    unfolding typed_def
  proof (intro allI impI)
    fix d s pos bs v p r
    assume s: "single_type 0 s" and e: "decode (Suc n) le d s pos bs = Some (Inr (v, p, r))"
    then obtain t q c where e: "align_in (alignment t) pos bs = Some (Inr ((), q, c))" "decode_kind (decode n le) n le d s q c = Some (Inr (v, p, r))"
      by (auto simp: dbind_Inr split: option.splits)
    from kind_typed [OF Suc s e(2)] align_in_reads [OF e(1)] show "conforms v s \<and> reads pos bs p r" by (auto intro: reads_trans)
  qed
qed (simp add: typed_def)

text \<open>The dynamic type of a value is the one of its signature.\<close>

lemma conforms_type: "conforms v w \<Longrightarrow> single_type 0 w \<Longrightarrow> typeFor w = Some (typeOf v)"
proof (induction rule: conforms.induct)
  case (15 s t vs)
  have "validSingle (CHR ''a'' # s) 0 = Some (None, [])" using validSingle_complete [OF 15(4), of "[]"] by simp
  then show ?case using 15(2) single_type_hd [OF 15(1)] by (subst typeFor.simps) simp
next
  case (16 k kt s t es)
  let ?w = "''a{'' @ [k] @ s @ ''}''"
  have "validSingle ?w 0 = Some (None, [])" using validSingle_complete [OF 16(5), of "[]"] by simp
  moreover have "LastIndex ?w (CHR ''}'') = Some (length s + 3)"
    using LastIndex_append [of "''a{'' @ [k] @ s" "CHR ''}''"] by simp
  ultimately show ?case using 16(1,2) by (subst typeFor.simps) (simp del: LastIndex.simps)
next
  case (17 vs ws)
  have "validSingle (''('' @ concat ws @ '')'') 0 = Some (None, [])" using validSingle_complete [OF 17(2), of "[]"] by simp
  then show ?case by (subst typeFor.simps) (simp add: interfacesType_def)
qed (auto intro: typeFor_basic simp: sigToType_def)

text \<open>
  C39: type soundness of the decoder. Whatever the bytes are, when the decoder returns the values of
  a valid signature, it returns one value for each type in it, and each value is one of its type
  down to the elements, entries and fields, and to the values in variants, which have the signature
  they say they have; the dynamic type of the value is the one computed for the signature. The
  position moves on by exactly the bytes that were read.
\<close>

theorem Decode_type_sound:
  assumes "Decode n le sig pos bs = Some (Inr (vs, p, r))" and "ParseSignature sig = Some (sig, None)"
  shows "\<exists>ws. sig = concat ws \<and> (\<forall>w\<in>set ws. single_type 0 w) \<and> list_all2 (\<lambda>v w. conforms v w \<and> typeFor w = Some (typeOf v)) vs ws
    \<and> reads pos bs p r"
proof -
  from assms(2) obtain ws where ws: "sig = concat ws" "\<forall>w\<in>set ws. single_type 0 w" by (auto simp: ParseSignature_iff)
  from seq_typed [OF decode_typed ws(2) assms(1) [unfolded Decode_def ws(1)]]
  have "list_all2 conforms vs ws" "reads pos bs p r" by auto
  moreover from this(1) have "list_all2 (\<lambda>v w. conforms v w \<and> typeFor w = Some (typeOf v)) vs ws"
    using ws(2) conforms_type by (auto simp: list_all2_conv_all_nth)
  ultimately show ?thesis using ws by blast
qed

theorem Decode_type_sound_witness:
  "\<exists>ws. ''a{yv}'' = concat ws \<and> list_all2 conforms [GMap Uint8 VariantT [(GByte 4, GVariant ''q'' (GUint16 513))]] ws"
proof -
  have "Decode 10 True ''a{yv}'' 0 [6, 0, 0, 0, 0, 0, 0, 0, 4, 1, 113, 0, 1, 2]
      = Some (Inr ([GMap Uint8 VariantT [(GByte 4, GVariant ''q'' (GUint16 513))]], 14, []))"
    "ParseSignature ''a{yv}'' = Some (''a{yv}'', None)" by code_simp+
  from Decode_type_sound [OF this] show ?thesis by (auto elim!: list_all2_mono)
qed

end
