(* ===== verification/DbusAuth.thy ===== *)
theory DbusAuth
  imports GoStrings
begin

text \<open>
  The authentication of the vendored package \<open>github.com/godbus/dbus\<close> (\<open>auth.go\<close>, \<open>auth_external.go\<close>,
  \<open>auth_sha1.go\<close>): the client's side of a dialog of lines. The server is a function of the dialog so
  far, which may also fail, and so is the fate of a write; the mechanisms have an environment
  (files, random numbers). Strings are the bytes of the lines. The dialog is a list of what was sent
  and what was got, in order. \<open>tryAuth\<close> may go on forever, so the result of the authentication is an
  option; within it a panic is a value.
\<close>

section \<open>The mechanisms\<close>

datatype AuthStatus = AuthOk | AuthContinue | AuthError

datatype authState = WaitingForData | WaitingForOk | WaitingForReject

record 'm Auth =
  FirstData :: "'m \<Rightarrow> (string \<times> string \<times> AuthStatus) \<times> 'm"
  HandleData :: "string \<Rightarrow> 'm \<Rightarrow> (string \<times> AuthStatus) \<times> 'm"

text \<open>\<open>encoding/hex\<close>: two digits for a byte, and back.\<close>

definition hex_Encode :: "string \<Rightarrow> string" where
  "hex_Encode s = concat (map (\<lambda>c. [digit (of_char c div 16), digit (of_char c mod 16)]) s)"

fun hex_Decode :: "string \<Rightarrow> string option" where
  "hex_Decode [] = Some []"
| "hex_Decode [c] = None"
| "hex_Decode (c # d # s) =
     (case (xval c, xval d, hex_Decode s) of
        (Some a, Some b, Some t) \<Rightarrow> Some (char_of (16 * a + b) # t)
      | _ \<Rightarrow> None)"

definition AuthExternal :: "string \<Rightarrow> 'm Auth" where
  "AuthExternal user =
     \<lparr>FirstData = (\<lambda>w. ((''EXTERNAL'', hex_Encode user, AuthOk), w)),
      HandleData = (\<lambda>b w. (('''', AuthError), w))\<rparr>"

text \<open>
  The cookie mechanism: \<open>files\<close> gives the contents of a file or fails, \<open>random\<close> is \<open>rand.Read\<close> of 16
  bytes, or its failure, and \<open>sha1\<close> is the hash. A line of the keyring has an id, a date and a cookie; a
  last line without an end is not seen.
\<close>

fun ReadLines :: "string \<Rightarrow> string \<Rightarrow> string list" where
  "ReadLines line [] = []"
| "ReadLines line (c # s) = (if c = CHR 0x0A then line # ReadLines [] s else ReadLines (line @ [c]) s)"

fun find_cookie :: "string list \<Rightarrow> string \<Rightarrow> string option" where
  "find_cookie [] i = None"
| "find_cookie (line # lines) i =
     (let b = Split line '' '' in
      if length b \<noteq> 3 then None
      else if b ! 0 = i then Some (b ! 2)
      else find_cookie lines i)"

record 'm cookie_world =
  files :: "string \<Rightarrow> string option"
  random :: "'m \<Rightarrow> string option \<times> 'm"
  sha1 :: "string \<Rightarrow> string"

definition getCookie :: "'m cookie_world \<Rightarrow> string \<Rightarrow> string \<Rightarrow> string \<Rightarrow> string option" where
  "getCookie W home ctx i =
     (case files W (home @ ''/.dbus-keyrings/'' @ ctx) of
        None \<Rightarrow> None
      | Some s \<Rightarrow> find_cookie (ReadLines [] s) i)"

definition generateChallenge :: "'m cookie_world \<Rightarrow> 'm \<Rightarrow> string option \<times> 'm" where
  "generateChallenge W w = (case random W w of (r, w') \<Rightarrow> (map_option hex_Encode r, w'))"

definition sha1_HandleData :: "'m cookie_world \<Rightarrow> string \<Rightarrow> string \<Rightarrow> 'm \<Rightarrow> (string \<times> AuthStatus) \<times> 'm" where
  "sha1_HandleData W home data w =
     (case hex_Decode data of
        None \<Rightarrow> (('''', AuthError), w)
      | Some challenge \<Rightarrow>
          (case Split challenge '' '' of
             [ctx, i, svchallenge] \<Rightarrow>
               (case getCookie W home ctx i of
                  None \<Rightarrow> (('''', AuthError), w)
                | Some cookie \<Rightarrow>
                    (case generateChallenge W w of
                       (None, w') \<Rightarrow> (('''', AuthError), w')
                     | (Some clchallenge, w') \<Rightarrow>
                         let hash = sha1 W (Join [svchallenge, clchallenge, cookie] '':'')
                         in ((hex_Encode (clchallenge @ '' '' @ hex_Encode hash), AuthOk), w')))
           | _ \<Rightarrow> (('''', AuthError), w)))"

definition AuthCookieSha1 :: "'m cookie_world \<Rightarrow> string \<Rightarrow> string \<Rightarrow> 'm Auth" where
  "AuthCookieSha1 W user home =
     \<lparr>FirstData = (\<lambda>w. ((''DBUS_COOKIE_SHA1'', hex_Encode user, AuthContinue), w)),
      HandleData = sha1_HandleData W home\<rparr>"

section \<open>Lines\<close>

datatype event = Sent string | Got string

record 'm dialog =
  events :: "event list"
  env :: 'm

text \<open>
  The other side: what a read of a line gives, what a write of a line does (the number of bytes
  written and the error), what sending the null byte gives, and whether file descriptors can be
  passed.
\<close>

record peer =
  ReadBytes :: "event list \<Rightarrow> error + string"
  Write :: "event list \<Rightarrow> string \<Rightarrow> nat \<times> error option"
  SendNullByte :: "error option"
  SupportsUnixFDs :: bool

definition TrimSuffix :: "string \<Rightarrow> string \<Rightarrow> string" where
  "TrimSuffix s suffix =
     (if length suffix \<le> length s \<and> drop (length s - length suffix) s = suffix
      then take (length s - length suffix) s else s)"

definition crlf :: string where
  "crlf = [CHR 0x0D, CHR 0x0A]"

definition split_line :: "string \<Rightarrow> string list" where
  "split_line data = Split (TrimSuffix data crlf) '' ''"

definition authReadLine :: "peer \<Rightarrow> 'm dialog \<Rightarrow> (error + string list) \<times> 'm dialog" where
  "authReadLine P d =
     (case ReadBytes P (events d) of
        Inl e \<Rightarrow> (Inl e, d)
      | Inr data \<Rightarrow> (Inr (split_line data), d\<lparr>events := events d @ [Got data]\<rparr>))"

definition authWriteLine :: "peer \<Rightarrow> string list \<Rightarrow> 'm dialog \<Rightarrow> error option \<times> 'm dialog" where
  "authWriteLine P data d =
     (let buf = Join data '' '' @ crlf;
          d' = d\<lparr>events := events d @ [Sent buf]\<rparr>
      in case Write P (events d) buf of
           (n, Some e) \<Rightarrow> (Some e, d')
         | (n, None) \<Rightarrow> (if n \<noteq> length buf then (Some (Foreign ''unexpected EOF''), d') else (None, d')))"

section \<open>One mechanism\<close>

record Conn =
  uuid :: string
  unixFD :: bool
  working :: bool

text \<open>What a turn of the loop of \<open>tryAuth\<close> leads to.\<close>

datatype turn = Next authState | Done "error option" bool | Panics

text \<open>Answer with a line and go on in a state, unless the write fails.\<close>

definition answer :: "peer \<Rightarrow> string list \<Rightarrow> turn \<Rightarrow> Conn \<Rightarrow> 'm dialog \<Rightarrow> turn \<times> Conn \<times> 'm dialog" where
  "answer P line t c d =
     (case authWriteLine P line d of
        (Some e, d') \<Rightarrow> (Done (Some e) False, c, d')
      | (None, d') \<Rightarrow> (t, c, d'))"

text \<open>\<open>conn.uuid = string(s[1])\<close> and the return behind it.\<close>

definition accept_uuid :: "string list \<Rightarrow> Conn \<Rightarrow> 'm dialog \<Rightarrow> turn \<times> Conn \<times> 'm dialog" where
  "accept_uuid s c d = (if length s < 2 then (Panics, c, d) else (Done None True, c\<lparr>uuid := s ! 1\<rparr>, d))"

text \<open>The cases for an \<open>OK\<close>: one without exactly one argument is refused, and then accepted all the same.\<close>

definition handle_ok :: "peer \<Rightarrow> string list \<Rightarrow> Conn \<Rightarrow> 'm dialog \<Rightarrow> turn \<times> Conn \<times> 'm dialog" where
  "handle_ok P s c d =
     (if length s \<noteq> 2 then
        (case authWriteLine P [''CANCEL''] d of
           (Some e, d') \<Rightarrow> (Done (Some e) False, c, d')
         | (None, d') \<Rightarrow> accept_uuid s c d')
      else accept_uuid s c d)"

definition handle_data :: "peer \<Rightarrow> 'm Auth \<Rightarrow> string list \<Rightarrow> Conn \<Rightarrow> 'm dialog \<Rightarrow> turn \<times> Conn \<times> 'm dialog" where
  "handle_data P m s c d =
     (if length s \<noteq> 2 then answer P [''ERROR''] (Next WaitingForData) c d
      else case HandleData m (s ! 1) (env d) of
             ((data, status), w) \<Rightarrow>
               let d' = d\<lparr>env := w\<rparr>;
                   t = Next (if status = AuthOk then WaitingForOk else WaitingForData)
               in if status = AuthError then answer P [''ERROR''] (Next WaitingForData) c d'
                  else if length data \<noteq> 0 then answer P [''DATA'', data] t c d'
                  else (t, c, d'))"

definition handle_line :: "peer \<Rightarrow> 'm Auth \<Rightarrow> authState \<Rightarrow> string list \<Rightarrow> Conn \<Rightarrow> 'm dialog \<Rightarrow> turn \<times> Conn \<times> 'm dialog" where
  "handle_line P m state s c d =
     (let cmd = s ! 0 in
      if state = WaitingForData \<and> cmd = ''DATA'' then handle_data P m s c d
      else if state = WaitingForData \<and> cmd = ''REJECTED'' then (Done None False, c, d)
      else if state = WaitingForData \<and> cmd = ''ERROR'' then answer P [''CANCEL''] (Next WaitingForReject) c d
      else if state = WaitingForData \<and> cmd = ''OK'' then handle_ok P s c d
      else if state = WaitingForData then answer P [''ERROR''] (Next WaitingForData) c d
      else if state = WaitingForOk \<and> cmd = ''OK'' then handle_ok P s c d
      else if state = WaitingForOk \<and> cmd = ''REJECTED'' then (Done None False, c, d)
      else if state = WaitingForOk \<and> (cmd = ''DATA'' \<or> cmd = ''ERROR'') then
        answer P [''CANCEL''] (Next WaitingForReject) c d
      else if state = WaitingForOk then answer P [''ERROR''] (Next WaitingForOk) c d
      else if cmd = ''REJECTED'' then (Done None False, c, d)
      else (Done (Some (Errorf ''dbus: authentication protocol error'' [])) False, c, d))"

partial_function (option) tryAuth ::
    "peer \<Rightarrow> 'm Auth \<Rightarrow> authState \<Rightarrow> Conn \<Rightarrow> 'm dialog \<Rightarrow> ((error option \<times> bool) option \<times> Conn \<times> 'm dialog) option" where
  "tryAuth P m state c d =
     (case authReadLine P d of
        (Inl e, d) \<Rightarrow> Some (Some (Some e, False), c, d)
      | (Inr s, d) \<Rightarrow>
          (case handle_line P m state s c d of
             (Next state, c, d) \<Rightarrow> tryAuth P m state c d
           | (Done e ok, c, d) \<Rightarrow> Some (Some (e, ok), c, d)
           | (Panics, c, d) \<Rightarrow> Some (None, c, d)))"

declare tryAuth.simps [code]

section \<open>All mechanisms\<close>

text \<open>A result is the error returned, or \<open>None\<close> for a panic.\<close>

type_synonym 'm auth_result = "(error option option \<times> Conn \<times> 'm dialog) option"

definition begin_session :: "peer \<Rightarrow> Conn \<Rightarrow> 'm dialog \<Rightarrow> 'm auth_result" where
  "begin_session P c d =
     (case authWriteLine P [''BEGIN''] d of
        (Some e, d) \<Rightarrow> Some (Some (Some e), c, d)
      | (None, d) \<Rightarrow> Some (Some None, c\<lparr>working := True\<rparr>, d))"

definition negotiate :: "peer \<Rightarrow> Conn \<Rightarrow> 'm dialog \<Rightarrow> 'm auth_result" where
  "negotiate P c d =
     (if SupportsUnixFDs P then
        (case authWriteLine P [''NEGOTIATE_UNIX_FD''] d of
           (Some e, d) \<Rightarrow> Some (Some (Some e), c, d)
         | (None, d) \<Rightarrow>
             (case authReadLine P d of
                (Inl e, d) \<Rightarrow> Some (Some (Some e), c, d)
              | (Inr line, d) \<Rightarrow>
                  if line ! 0 = ''AGREE_UNIX_FD'' then begin_session P (c\<lparr>unixFD := True\<rparr>) d
                  else if line ! 0 = ''ERROR'' then begin_session P c d
                  else Some (Some (Some (Errorf ''dbus: authentication protocol error'' [])), c, d)))
      else begin_session P c d)"

text \<open>The two loops: over the names the server knows, and for each over the methods.\<close>

fun auth_loop :: "peer \<Rightarrow> (string \<times> 'm Auth) list \<Rightarrow> Conn \<Rightarrow> 'm dialog \<Rightarrow> 'm auth_result" where
  "auth_loop P [] c d = Some (Some (Some (Errorf ''dbus: authentication failed'' [])), c, d)"
| "auth_loop P ((v, m) # rest) c d =
     (case FirstData m (env d) of
        ((name, data, status), w) \<Rightarrow>
          let d = d\<lparr>env := w\<rparr> in
          if v = name then
            (case authWriteLine P [''AUTH'', v, data] d of
               (Some e, d) \<Rightarrow> Some (Some (Some e), c, d)
             | (None, d) \<Rightarrow>
                 if status = AuthError then Some (None, c, d)
                 else (case tryAuth P m (if status = AuthOk then WaitingForOk else WaitingForData) c d of
                         None \<Rightarrow> None
                       | Some (None, c, d) \<Rightarrow> Some (None, c, d)
                       | Some (Some (Some e, ok), c, d) \<Rightarrow> Some (Some (Some e), c, d)
                       | Some (Some (None, True), c, d) \<Rightarrow> negotiate P c d
                       | Some (Some (None, False), c, d) \<Rightarrow> auth_loop P rest c d))
          else auth_loop P rest c d)"

definition Conn_Auth :: "peer \<Rightarrow> 'm Auth list \<Rightarrow> Conn \<Rightarrow> 'm dialog \<Rightarrow> 'm auth_result" where
  "Conn_Auth P methods c d =
     (case SendNullByte P of
        Some e \<Rightarrow> Some (Some (Some e), c, d)
      | None \<Rightarrow>
          (case authWriteLine P [''AUTH''] d of
             (Some e, d) \<Rightarrow> Some (Some (Some e), c, d)
           | (None, d) \<Rightarrow>
               (case authReadLine P d of
                  (Inl e, d) \<Rightarrow> Some (Some (Some e), c, d)
                | (Inr s, d) \<Rightarrow>
                    if length s < 2 \<or> s ! 0 \<noteq> ''REJECTED'' then
                      Some (Some (Some (Errorf ''dbus: authentication protocol error'' [])), c, d)
                    else auth_loop P (List.product (drop 1 s) methods) c d)))"

definition default_methods :: "'m cookie_world \<Rightarrow> string \<Rightarrow> string \<Rightarrow> 'm Auth list" where
  "default_methods W uid home = [AuthExternal uid, AuthCookieSha1 W uid home]"

section \<open>Dialogs\<close>

definition begin_line :: event where
  "begin_line = Sent (''BEGIN'' @ crlf)"

text \<open>A line is an acceptance with an id.\<close>

definition accepts :: "string \<Rightarrow> string \<Rightarrow> bool" where
  "accepts l u \<longleftrightarrow> split_line l ! 0 = ''OK'' \<and> 2 \<le> length (split_line l) \<and> split_line l ! 1 = u"

text \<open>A step adds events, and no line that begins the session.\<close>

definition quiet :: "'m dialog \<Rightarrow> 'm dialog \<Rightarrow> bool" where
  "quiet d d' \<longleftrightarrow> (\<exists>es. events d' = events d @ es \<and> begin_line \<notin> set es)"

lemma quiet_refl [simp]: "quiet d d"
  by (simp add: quiet_def)

lemma quiet_trans: "quiet d d' \<Longrightarrow> quiet d' d'' \<Longrightarrow> quiet d d''"
  by (auto simp: quiet_def)

lemma quiet_env [simp]: "quiet d (d'\<lparr>env := w\<rparr>) \<longleftrightarrow> quiet d d'" "quiet (d\<lparr>env := w\<rparr>) d' \<longleftrightarrow> quiet d d'"
  by (simp_all add: quiet_def)

lemma quiet_set: "quiet d d' \<Longrightarrow> set (events d) \<subseteq> set (events d')"
  by (auto simp: quiet_def)

lemma quiet_begin: "quiet d d' \<Longrightarrow> begin_line \<in> set (events d') \<longleftrightarrow> begin_line \<in> set (events d)"
  by (auto simp: quiet_def)

lemma read_quiet: "authReadLine P d = (r, d') \<Longrightarrow> quiet d d'"
  by (auto simp: authReadLine_def quiet_def begin_line_def split: sum.splits)

lemma read_Inr: "authReadLine P d = (Inr s, d') \<Longrightarrow>
    \<exists>l. ReadBytes P (events d) = Inr l \<and> s = split_line l \<and> events d' = events d @ [Got l] \<and> env d' = env d"
  by (auto simp: authReadLine_def split: sum.splits)

lemma write_events: "authWriteLine P data d = (r, d') \<Longrightarrow>
    events d' = events d @ [Sent (Join data '' '' @ crlf)] \<and> env d' = env d"
  by (auto simp: authWriteLine_def Let_def split: prod.splits option.splits if_splits)

lemma write_quiet:
  "authWriteLine P (w # ws) d = (r, d') \<Longrightarrow> w \<noteq> [] \<Longrightarrow> hd w \<noteq> CHR ''B'' \<Longrightarrow> quiet d d'"
  using write_events [of P "w # ws" d r d'] by (cases w; cases ws) (auto simp: quiet_def begin_line_def)

lemma answer_cases:
  assumes "answer P line t c d = (t', c', d')"
  shows "c' = c \<and> (t' = t \<or> (\<exists>e. t' = Done (Some e) False)) \<and> (line \<noteq> [] \<longrightarrow> hd line \<noteq> [] \<longrightarrow> hd (hd line) \<noteq> CHR ''B'' \<longrightarrow> quiet d d')"
  using assms write_quiet [of P "hd line" "tl line" d]
  by (auto simp: answer_def split: prod.splits option.splits)

text \<open>What a line leads to: a session only when the line is an acceptance.\<close>

lemma ok_cases:
  assumes "handle_ok P s c d = (t, c', d')"
  shows "quiet d d' \<and> (case t of Next st \<Rightarrow> False | Done e ok \<Rightarrow> (if ok then e = None \<and> 2 \<le> length s \<and> c' = c\<lparr>uuid := s ! 1\<rparr> else c' = c)
    | Panics \<Rightarrow> c' = c)"
  using assms write_quiet [of P "''CANCEL''" "[]" d]
  by (auto simp: handle_ok_def accept_uuid_def split: prod.splits option.splits if_splits)

lemma data_cases:
  assumes "handle_data P m s c d = (t, c', d')"
  shows "quiet d d' \<and> c' = c \<and> (\<forall>e. t \<noteq> Done e True) \<and> t \<noteq> Panics"
  using assms
  by (auto simp: handle_data_def Let_def dest!: answer_cases split: prod.splits if_splits)

definition sound :: "string list \<Rightarrow> Conn \<Rightarrow> 'm dialog \<Rightarrow> turn \<times> Conn \<times> 'm dialog \<Rightarrow> bool" where
  "sound s c d r = (case r of (t, c', d') \<Rightarrow> quiet d d' \<and>
     (case t of Done e True \<Rightarrow> e = None \<and> s ! 0 = ''OK'' \<and> 2 \<le> length s \<and> c' = c\<lparr>uuid := s ! 1\<rparr> | _ \<Rightarrow> c' = c))"

lemma sound_answer:
  assumes "w \<noteq> []" and "hd w \<noteq> CHR ''B''" and "\<forall>e. t \<noteq> Done e True"
  shows "sound s c d (answer P (w # ws) t c d)"
proof -
  obtain t' c' d' where r: "answer P (w # ws) t c d = (t', c', d')" by (cases "answer P (w # ws) t c d")
  from answer_cases [OF this] assms show ?thesis
    by (auto simp: r sound_def split: turn.splits bool.splits)
qed

lemma sound_ok: "s ! 0 = ''OK'' \<Longrightarrow> sound s c d (handle_ok P s c d)"
  using ok_cases [of P s c d] by (cases "handle_ok P s c d") (auto simp: sound_def split: turn.splits bool.splits if_splits)

lemma sound_data: "sound s c d (handle_data P m s c d)"
  using data_cases [of P m s c d] by (cases "handle_data P m s c d") (auto simp: sound_def split: turn.splits bool.splits)

lemma sound_line: "sound s c d (handle_line P m st s c d)"
proof -
  have rej: "sound s c d (Done None False, c, d)" "sound s c d (Done (Some e) False, c, d)" for e by (simp_all add: sound_def)
  have ans: "sound s c d (answer P [''ERROR''] (Next st) c d)" "sound s c d (answer P [''CANCEL''] (Next st) c d)" for st
    by (rule sound_answer; simp)+
  show ?thesis
    unfolding handle_line_def Let_def using rej ans sound_ok [of s c d P] sound_data [of s c d P m] by (simp split: if_split)
qed

lemma tryAuth_induct [consumes 1, case_names eof finished crash turn]:
  assumes "tryAuth P m st c d = Some r"
    and "\<And>st c d e d'. authReadLine P d = (Inl e, d') \<Longrightarrow> Q st c d (Some (Some e, False), c, d')"
    and "\<And>st c d s d1 e ok c' d'. authReadLine P d = (Inr s, d1) \<Longrightarrow> handle_line P m st s c d1 = (Done e ok, c', d')
      \<Longrightarrow> Q st c d (Some (e, ok), c', d')"
    and "\<And>st c d s d1 c' d'. authReadLine P d = (Inr s, d1) \<Longrightarrow> handle_line P m st s c d1 = (Panics, c', d')
      \<Longrightarrow> Q st c d (None, c', d')"
    and "\<And>st c d s d1 st' c' d' r. authReadLine P d = (Inr s, d1) \<Longrightarrow> handle_line P m st s c d1 = (Next st', c', d')
      \<Longrightarrow> Q st' c' d' r \<Longrightarrow> Q st c d r"
  shows "Q st c d r"
proof -
  let ?Q = "\<lambda>((((P', m'), st), c), d) r. P' = P \<longrightarrow> m' = m \<longrightarrow> Q st c d r"
  have "?Q ((((P, m), st), c), d) r"
    using assms(1)
    by (rule tryAuth.raw_induct [where Pa = ?Q, rotated])
      (use assms(2-5) in \<open>auto split: prod.splits sum.splits turn.splits\<close>)
  then show ?thesis by simp
qed

text \<open>One mechanism either fails without a session, or ends with an acceptance of the server.\<close>

definition tried :: "Conn \<Rightarrow> 'm dialog \<Rightarrow> (error option \<times> bool) option \<times> Conn \<times> 'm dialog \<Rightarrow> bool" where
  "tried c d res = (case res of (r, c', d') \<Rightarrow> quiet d d' \<and> (case r of
     Some (e, True) \<Rightarrow> e = None \<and> (\<exists>l u. Got l \<in> set (events d') \<and> accepts l u \<and> c' = c\<lparr>uuid := u\<rparr>) | _ \<Rightarrow> c' = c))"

lemma tryAuth_tried: "tryAuth P m st c d = Some res \<Longrightarrow> tried c d res"
proof (induction rule: tryAuth_induct)
  case (eof st c d e d')
  then show ?case by (simp add: tried_def read_quiet)
next
  case (finished st c d s d1 e ok c' d')
  obtain l where l: "s = split_line l" "events d1 = events d @ [Got l]" using read_Inr [OF finished(1)] by blast
  have "sound s c d1 (Done e ok, c', d')" using sound_line [of s c d1 P m st] finished(2) by simp
  with l have "quiet d1 d'" and "ok \<Longrightarrow> e = None \<and> accepts l (s ! 1) \<and> c' = c\<lparr>uuid := s ! 1\<rparr>" and "\<not> ok \<Longrightarrow> c' = c"
    by (auto simp: sound_def accepts_def)
  moreover have "Got l \<in> set (events d')" using quiet_set [OF \<open>quiet d1 d'\<close>] l(2) by auto
  ultimately show ?case using quiet_trans [OF read_quiet [OF finished(1)]] by (cases ok) (auto simp: tried_def)
next
  case (crash st c d s d1 c' d')
  with sound_line [of s c d1 P m st] show ?case
    using quiet_trans [OF read_quiet [OF crash(1)]] by (auto simp: sound_def tried_def)
next
  case (turn st c d s d1 st' c2 d2 r)
  with sound_line [of s c d1 P m st] have "quiet d d2" "c2 = c"
    using quiet_trans [OF read_quiet [OF turn(1)]] by (auto simp: sound_def)
  with turn(3) show ?case using quiet_trans [of d d2] by (auto simp: tried_def)
qed

text \<open>
  The whole authentication: a session is begun by the last line, after an acceptance, and exactly
  then nothing went wrong.
\<close>

definition session :: "bool \<Rightarrow> 'm dialog \<Rightarrow> error option option \<times> Conn \<times> 'm dialog \<Rightarrow> bool" where
  "session busy d res = (case res of (r, c', d') \<Rightarrow>
     (r = Some None \<longrightarrow> begin_line \<in> set (events d') \<and> working c') \<and> (r \<noteq> Some None \<longrightarrow> working c' = busy) \<and>
     (\<exists>evs. events d' = events d @ evs \<and> (begin_line \<in> set evs \<longrightarrow> (\<exists>es l.
        evs = es @ [begin_line] \<and> begin_line \<notin> set es \<and> Got l \<in> set (events d @ es) \<and> accepts l (uuid c')))))"

lemma session_quiet: "quiet d d' \<Longrightarrow> session b d' res \<Longrightarrow> session b d res"
  by (fastforce simp: session_def quiet_def)

lemma session_failed: "quiet d d' \<Longrightarrow> r \<noteq> Some None \<Longrightarrow> session (working c) d (r, c, d')"
  by (auto simp: session_def quiet_def)

lemma begin_session:
  assumes "Got l \<in> set (events d)" and "accepts l (uuid c)" and "begin_session P c d = Some res"
  shows "session (working c) d res"
proof -
  obtain r d' where w: "authWriteLine P [''BEGIN''] d = (r, d')" by fastforce
  with write_events [OF w] assms show ?thesis
    by (auto simp: begin_session_def session_def begin_line_def split: option.splits)
qed

lemma negotiate_session:
  assumes "Got l \<in> set (events d)" and "accepts l (uuid c)" and "negotiate P c d = Some res"
  shows "session (working c) d res"
proof -
  obtain r d' where w: "authWriteLine P [''NEGOTIATE_UNIX_FD''] d = (r, d')" by fastforce
  then have q: "quiet d d'" by (rule write_quiet) simp_all
  obtain q2 d2 where r: "authReadLine P d' = (q2, d2)" by fastforce
  with q have q2: "quiet d d2" using read_quiet quiet_trans by blast
  have g: "Got l \<in> set (events d2)" using assms(1) quiet_set [OF q2] by blast
  have b: "begin_session P (c\<lparr>unixFD := True\<rparr>) d2 = Some res \<Longrightarrow> session (working c) d res"
    "begin_session P c d2 = Some res \<Longrightarrow> session (working c) d res"
    "begin_session P c d = Some res \<Longrightarrow> session (working c) d res"
    using session_quiet [OF q2 begin_session [OF g, of "c\<lparr>unixFD := True\<rparr>"]] session_quiet [OF q2 begin_session [OF g assms(2)]]
      begin_session [OF assms(1,2)] assms(2) by simp_all
  show ?thesis
    using assms(3) w r b session_failed [OF q] session_failed [OF q2]
    by (auto simp: negotiate_def split: option.splits sum.splits if_splits)
qed

lemma auth_loop_session:
  "auth_loop P ms c d = Some res \<Longrightarrow> session (working c) d res"
proof (induction P ms c d arbitrary: res rule: auth_loop.induct)
  case (1 P c d)
  then show ?case by (auto simp: session_failed)
next
  case (2 P v m rest c d)
  obtain name data status w where f: "FirstData m (env d) = ((name, data, status), w)" by (metis prod_cases3 surj_pair)
  let ?d = "d\<lparr>env := w\<rparr>"
  show ?case
  proof (cases "v = name")
    case False
    with 2(2) [OF f [symmetric]] 2(3) f show ?thesis using session_quiet [of d ?d] by simp
  next
    case True
    obtain r d1 where a: "authWriteLine P [''AUTH'', v, data] ?d = (r, d1)" by fastforce
    then have q1: "quiet d d1" using write_quiet [OF a] by simp
    show ?thesis
    proof (cases "r = None \<and> status \<noteq> AuthError")
      case False
      with 2(3) f True a show ?thesis by (auto simp: session_failed [OF q1] split: option.splits)
    next
      case go: True
      let ?st = "if status = AuthOk then WaitingForOk else WaitingForData"
      from go 2(3) f True a obtain t c2 d2 where t: "tryAuth P m ?st c d1 = Some (t, c2, d2)"
        by (cases "tryAuth P m ?st c d1") (auto simp: Let_def)
      from tryAuth_tried [OF this] have td: "quiet d1 d2" "case t of
          Some (e, True) \<Rightarrow> e = None \<and> (\<exists>l u. Got l \<in> set (events d2) \<and> accepts l u \<and> c2 = c\<lparr>uuid := u\<rparr>) | _ \<Rightarrow> c2 = c"
        by (simp_all add: tried_def)
      have q2: "quiet d d2" by (rule quiet_trans [OF q1 td(1)])
      have r: "(case (t, c2, d2) of
           (None, c, d) \<Rightarrow> Some (None, c, d)
         | (Some (Some e, ok), c, d) \<Rightarrow> Some (Some (Some e), c, d)
         | (Some (None, True), c, d) \<Rightarrow> negotiate P c d
         | (Some (None, False), c, d) \<Rightarrow> auth_loop P rest c d) = Some res"
        using 2(3) f True a go t by (simp add: Let_def split: option.splits prod.splits)
      show ?thesis
      proof (cases t)
        case None
        with r td session_failed [OF q2] show ?thesis by auto
      next
        case (Some x)
        obtain e ok where x: "t = Some (e, ok)" using Some by (cases x) auto
        show ?thesis
        proof (cases ok)
          case ok: True
          then obtain l u where l: "e = None" "Got l \<in> set (events d2)" "accepts l u" "c2 = c\<lparr>uuid := u\<rparr>" using td(2) x by auto
          with r x ok have "negotiate P c2 d2 = Some res" by simp
          from negotiate_session [OF l(2) _ this] l session_quiet [OF q2] show ?thesis by simp
        next
          case notok: False
          with td(2) x have c: "c2 = c" by simp
          show ?thesis
          proof (cases e)
            case (Some e)
            with r x notok c session_failed [OF q2] show ?thesis by auto
          next
            case None
            with r x notok c have "auth_loop P rest c d2 = Some res" by simp
            with 2(1) [OF f [symmetric]] True a go t x notok None c have "session (working c) d2 res" by simp
            then show ?thesis using session_quiet [OF q2] by simp
          qed
        qed
      qed
    qed
  qed
qed

section \<open>The authentication returns\<close>

text \<open>The server falls silent: from some length of the dialog on, reads fail.\<close>

definition falls_silent :: "peer \<Rightarrow> nat \<Rightarrow> bool" where
  "falls_silent P n \<longleftrightarrow> (\<forall>evs. n \<le> length evs \<longrightarrow> (\<exists>e. ReadBytes P evs = Inl e))"

lemma tryAuth_returns:
  assumes "falls_silent P n"
  shows "tryAuth P m st c d \<noteq> None"
proof (induction "n - length (events d)" arbitrary: st c d rule: less_induct)
  case less
  obtain r d1 where r: "authReadLine P d = (r, d1)" by fastforce
  show ?case
  proof (cases r)
    case (Inl e)
    with r show ?thesis by (simp add: tryAuth.simps [of P m st])
  next
    case (Inr s)
    obtain t c2 d2 where t: "handle_line P m st s c d1 = (t, c2, d2)" by (cases "handle_line P m st s c d1")
    from read_Inr [OF r [unfolded Inr]] obtain l where l: "ReadBytes P (events d) = Inr l" "events d1 = events d @ [Got l]"
      by blast
    have n: "length (events d) < n"
    proof (rule ccontr)
      assume "\<not> length (events d) < n"
      with assms obtain e where "ReadBytes P (events d) = Inl e" by (meson falls_silent_def not_less)
      with l(1) show False by simp
    qed
    have "quiet d1 d2" using sound_line [of s c d1 P m st] t by (simp add: sound_def)
    then have g: "length (events d) < length (events d2)" using l(2) by (auto simp: quiet_def)
    show ?thesis
    proof (cases t)
      case (Next st')
      have "n - length (events d2) < n - length (events d)" using n g by linarith
      from less [OF this, of st' c2] Next r t Inr show ?thesis by (subst tryAuth.simps) simp
    qed (use r t Inr in \<open>subst tryAuth.simps, simp\<close>)+
  qed
qed

lemma begin_session_returns: "begin_session P c d \<noteq> None"
  by (simp add: begin_session_def split: prod.splits option.splits)

lemma negotiate_returns: "negotiate P c d \<noteq> None"
  using begin_session_returns by (auto simp: negotiate_def split: prod.splits option.splits sum.splits)

lemma auth_loop_returns:
  assumes "falls_silent P n"
  shows "auth_loop P ms c d \<noteq> None"
proof (induction ms arbitrary: c d)
  case (Cons vm rest)
  obtain v m where "vm = (v, m)" by fastforce
  then show ?case
    using Cons.IH by (auto simp: Let_def tryAuth_returns [OF assms] negotiate_returns simp del: not_None_eq split: prod.splits option.splits bool.splits)
qed simp

section \<open>Properties\<close>

text \<open>
  C31: a session is begun only with a server that accepted it. Whatever the server answers and
  whichever writes fail, the line that begins the session is sent at most once, as the last one, and
  only after a line of the server that accepts the client and gives the id the connection then has.
  The workers are started exactly when the authentication returns without an error, and then that
  line was sent.
\<close>

theorem session_after_acceptance:
  assumes "Conn_Auth P methods c \<lparr>events = [], env = w\<rparr> = Some (r, c', d')" and "\<not> working c"
  shows "(working c' \<longleftrightarrow> r = Some None) \<and> (r = Some None \<longrightarrow> begin_line \<in> set (events d')) \<and>
    (begin_line \<in> set (events d') \<longrightarrow> (\<exists>es l. events d' = es @ [begin_line] \<and> begin_line \<notin> set es
       \<and> Got l \<in> set es \<and> accepts l (uuid c')))"
proof -
  let ?d = "\<lparr>events = [], env = w\<rparr>"
  obtain r1 d1 where w: "authWriteLine P [''AUTH''] ?d = (r1, d1)" by fastforce
  then have q1: "quiet ?d d1" by (rule write_quiet) simp_all
  obtain r2 d2 where r: "authReadLine P d1 = (r2, d2)" by fastforce
  have q2: "quiet ?d d2" using quiet_trans [OF q1 read_quiet [OF r]] .
  have "session (working c) ?d (r, c', d')"
    using assms(1) w r session_failed [OF quiet_refl, of _ c ?d] session_failed [OF q1] session_failed [OF q2]
      session_quiet [OF q2 auth_loop_session]
    by (auto simp: Conn_Auth_def split: option.splits sum.splits if_splits)
  with assms(2) show ?thesis by (auto simp: session_def)
qed

text \<open>A server that gives the lines of a list, whatever it is sent, and then closes the connection.\<close>

fun replies :: "event list \<Rightarrow> nat" where
  "replies [] = 0"
| "replies (Got l # es) = Suc (replies es)"
| "replies (Sent l # es) = replies es"

definition scripted :: "bool \<Rightarrow> string list \<Rightarrow> peer" where
  "scripted fds lines =
     \<lparr>ReadBytes = (\<lambda>es. if replies es < length lines then Inr (lines ! replies es @ crlf) else Inl (Foreign ''EOF'')),
      Write = (\<lambda>es l. (length l, None)), SendNullByte = None, SupportsUnixFDs = fds\<rparr>"

definition new_conn :: Conn where
  "new_conn = \<lparr>uuid = '''', unixFD = False, working = False\<rparr>"

lemma external_dialog:
  "Conn_Auth (scripted True [''REJECTED DBUS_COOKIE_SHA1 EXTERNAL'', ''OK 1234'', ''AGREE_UNIX_FD'']) [AuthExternal ''0''] new_conn
     \<lparr>events = [], env = ()\<rparr>
   = Some (Some None, \<lparr>uuid = ''1234'', unixFD = True, working = True\<rparr>, \<lparr>events =
      [Sent (''AUTH'' @ crlf), Got (''REJECTED DBUS_COOKIE_SHA1 EXTERNAL'' @ crlf), Sent (''AUTH EXTERNAL 30'' @ crlf), Got (''OK 1234'' @ crlf),
       Sent (''NEGOTIATE_UNIX_FD'' @ crlf), Got (''AGREE_UNIX_FD'' @ crlf), begin_line], env = ()\<rparr>)"
  by code_simp

theorem session_after_acceptance_witness:
  "\<exists>c' d' es l. Conn_Auth (scripted True [''REJECTED DBUS_COOKIE_SHA1 EXTERNAL'', ''OK 1234'', ''AGREE_UNIX_FD'']) [AuthExternal ''0''] new_conn
     \<lparr>events = [], env = ()\<rparr> = Some (Some None, c', d') \<and> events d' = es @ [begin_line] \<and> Got l \<in> set es \<and> accepts l (uuid c')"
  using session_after_acceptance [OF external_dialog] external_dialog by (fastforce simp: new_conn_def)

text \<open>
  C32: the authentication always returns, with or without an error or with a panic, when the server
  falls silent at some point, however long it goes on refusing, asking for data or sending lines
  that make no sense; the only loop without a bound reads a line in every turn.
\<close>

theorem Auth_returns:
  "falls_silent P n \<Longrightarrow> Conn_Auth P methods c d \<noteq> None"
  using auth_loop_returns [of P n] by (auto simp: Conn_Auth_def split: prod.splits option.splits sum.splits)

theorem Auth_returns_witness:
  "Conn_Auth \<lparr>ReadBytes = (\<lambda>es. if length es < 50 then Inr ''DATA'' else Inl (Foreign ''EOF'')), Write = (\<lambda>es l. (length l, None)),
     SendNullByte = None, SupportsUnixFDs = False\<rparr> [AuthExternal ''0''] new_conn \<lparr>events = [], env = ()\<rparr> \<noteq> None"
  by (rule Auth_returns [of _ 50]) (simp add: falls_silent_def)

text \<open>
  An acceptance with the wrong number of arguments is refused with CANCEL, as the specification
  of the protocol asks, and then taken all the same: the client goes on to begin the session. An
  acceptance without arguments makes it panic.
\<close>

lemma malformed_acceptance_taken:
  "Conn_Auth (scripted False [''REJECTED EXTERNAL'', ''OK 1 2'']) [AuthExternal ''0''] new_conn \<lparr>events = [], env = ()\<rparr>
   = Some (Some None, \<lparr>uuid = ''1'', unixFD = False, working = True\<rparr>, \<lparr>events =
      [Sent (''AUTH'' @ crlf), Got (''REJECTED EXTERNAL'' @ crlf), Sent (''AUTH EXTERNAL 30'' @ crlf), Got (''OK 1 2'' @ crlf),
       Sent (''CANCEL'' @ crlf), begin_line], env = ()\<rparr>)
   \<and> Conn_Auth (scripted False [''REJECTED EXTERNAL'', ''OK'']) [AuthExternal ''0''] new_conn \<lparr>events = [], env = ()\<rparr>
   = Some (None, new_conn, \<lparr>events =
      [Sent (''AUTH'' @ crlf), Got (''REJECTED EXTERNAL'' @ crlf), Sent (''AUTH EXTERNAL 30'' @ crlf), Got (''OK'' @ crlf),
       Sent (''CANCEL'' @ crlf)], env = ()\<rparr>)"
  by (rule conjI) code_simp+

section \<open>The answer of the cookie mechanism\<close>

lemma xval_digit:
  assumes "n < 16"
  shows "xval (digit n) = Some n"
proof -
  have "\<forall>k\<in>{0,1,2,3,4,5,6,7,8,9,10,11,12,13,14,15}. xval (digit k) = Some k" by (simp add: digit_def xval_def)
  moreover have "n \<in> {0,1,2,3,4,5,6,7,8,9,10,11,12,13,14,15}" using assms by (simp; presburger)
  ultimately show ?thesis by blast
qed

lemma hex_roundtrip: "hex_Decode (hex_Encode s) = Some s"
proof (induction s)
  case (Cons c s)
  have "of_char c < (256 :: nat)" using of_char_mod_256 [of c, where 'a = nat] by (metis mod_less_divisor zero_less_numeral)
  then have "of_char c div 16 < (16 :: nat)" by (simp add: less_mult_imp_div_less)
  with Cons show ?case by (simp add: hex_Encode_def xval_digit)
qed (simp add: hex_Encode_def)

lemma ReadLines_append: "CHR 0x0A \<notin> set l \<Longrightarrow> ReadLines p (l @ CHR 0x0A # s) = (p @ l) # ReadLines [] s"
  by (induction l arbitrary: p) auto

lemma find_cookie_found:
  "\<forall>l\<in>set ls. length (Split l '' '') = 3 \<and> Split l '' '' ! 0 \<noteq> i \<Longrightarrow> Split l '' '' = [i, t, k] \<Longrightarrow>
    find_cookie (ls @ l # ls') i = Some k"
  by (induction ls) (auto simp: Let_def)

text \<open>
  The answer of the cookie mechanism to a challenge. When the keyring of the context has the
  cookie of the id, in a line of three words that no earlier line of the id or of another shape
  hides, the answer stands for a fresh challenge of the client and the hash of the two challenges
  and the cookie, which is what a server that has the cookie compares it with.
\<close>

lemma cookie_answer:
  assumes "\<forall>x\<in>{ctx, i, sv}. CHR '' '' \<notin> set x"
    and "files W (home @ ''/.dbus-keyrings/'' @ ctx) = Some s" and "ReadLines [] s = ls @ l # ls'"
    and "\<forall>l\<in>set ls. length (Split l '' '') = 3 \<and> Split l '' '' ! 0 \<noteq> i" and "Split l '' '' = [i, t, cookie]"
    and "random W w = (Some r, w')"
  shows "\<exists>resp. HandleData (AuthCookieSha1 W user home) (hex_Encode (Join [ctx, i, sv] '' '')) w = ((resp, AuthOk), w')
    \<and> hex_Decode resp = Some (hex_Encode r @ '' '' @ hex_Encode (sha1 W (sv @ '':'' @ hex_Encode r @ '':'' @ cookie)))"
proof -
  have "Split (Join [ctx, i, sv] '' '') '' '' = [ctx, i, sv]" using assms(1) by (intro Split_Join) auto
  moreover have "getCookie W home ctx i = Some cookie"
    using assms(2,3) find_cookie_found [OF assms(4,5)] by (simp add: getCookie_def)
  ultimately show ?thesis
    using assms(6) by (simp add: AuthCookieSha1_def sha1_HandleData_def hex_roundtrip generateChallenge_def Let_def)
qed

lemma cookie_answer_witness:
  "\<exists>resp. HandleData (AuthCookieSha1 \<lparr>files = (\<lambda>f. if f = ''/root/.dbus-keyrings/org'' then Some (''7 99 secret'' @ [CHR 0x0A]) else None),
       random = (\<lambda>u. (Some ''xy'', u)), sha1 = rev\<rparr> ''root'' ''/root'') ''6f72672037206162'' () = ((resp, AuthOk), ())
     \<and> hex_Decode resp = Some (''7879 '' @ hex_Encode (rev ''ab:7879:secret''))"
proof -
  let ?W = "\<lparr>files = (\<lambda>f. if f = ''/root/.dbus-keyrings/org'' then Some (''7 99 secret'' @ [CHR 0x0A]) else None),
       random = (\<lambda>u. (Some ''xy'', u)), sha1 = rev\<rparr> :: unit cookie_world"
  have h: "hex_Encode (Join [''org'', ''7'', ''ab''] '' '') = ''6f72672037206162''" "hex_Encode ''xy'' = ''7879''" by code_simp+
  have s: "Split ''7 99 secret'' '' '' = [''7'', ''99'', ''secret'']" "ReadLines [] (''7 99 secret'' @ [CHR 0x0A]) = [] @ ''7 99 secret'' # []" by code_simp+
  have "\<exists>resp. HandleData (AuthCookieSha1 ?W ''root'' ''/root'') (hex_Encode (Join [''org'', ''7'', ''ab''] '' '')) () = ((resp, AuthOk), ())
     \<and> hex_Decode resp = Some (hex_Encode ''xy'' @ '' '' @ hex_Encode (sha1 ?W (''ab'' @ '':'' @ hex_Encode ''xy'' @ '':'' @ ''secret'')))"
    by (rule cookie_answer [OF _ _ s(2) _ s(1)]) simp_all
  then show ?thesis by (simp only: h) simp
qed

end
