(* ===== verification/DbusMessage.thy ===== *)
theory DbusMessage
  imports DbusRoundtrip
begin

text \<open>
  Messages of the vendored package \<open>github.com/godbus/dbus\<close> (\<open>message.go\<close>, and \<open>Store\<close> of \<open>dbus.go\<close>, with
  which the decoded values are copied into typed variables): when a message is valid, how it is
  written, and how it is read from a stream of bytes. The headers are a list with distinct keys in
  the order the range statement uses; the value of a header is a signature and what it is the
  signature of. The text form of a message is left out.
\<close>

section \<open>Store\<close>

text \<open>
  A destination is the value its variable has; the zero value of a type, for the elements of a new
  slice. The inner option of a result is a panic.
\<close>

type_synonym 'a stored = "(string + 'a) option"

definition mismatch :: "'a stored" where
  "mismatch = Some (Inl ''dbus.Store: type mismatch'')"

primrec zero :: "gotype \<Rightarrow> gval" where
  "zero Uint8 = GByte 0" | "zero Bool = GBool False" | "zero Int16 = GInt16 0" | "zero Uint16 = GUint16 0"
| "zero Int32 = GInt32 0" | "zero UnixFD = GFD 0" | "zero Uint32 = GUint32 0" | "zero UnixFDIndex = GFDIndex 0"
| "zero Int64 = GInt64 0" | "zero Uint64 = GUint64 0" | "zero Float64 = GFloat64 0" | "zero (Ptr t) = GPtr t None"
| "zero String = GString ''''" | "zero ObjectPath = GPath ''''" | "zero (Struct fs) = GStruct (map (map_prod id zero) fs)"
| "zero VariantT = GVariant '''' GOther" | "zero SignatureT = GSig ''''" | "zero (Array t) = GArray t []"
| "zero (Slice t) = GSlice t []" | "zero (Map k t) = GMap k t []" | "zero Interface = GInterface GOther" | "zero OtherKind = GOther"

text \<open>\<open>Interface()\<close> of an element: what is in the variable when it is of interface type.\<close>

fun dynamic :: "gval \<Rightarrow> gval" where
  "dynamic (GInterface v) = v"
| "dynamic v = v"

text \<open>The first failure of the copies of a list, or the values.\<close>

fun stores :: "'a stored list \<Rightarrow> 'a list stored" where
  "stores [] = Some (Inr [])"
| "stores (None # rs) = None"
| "stores (Some (Inl e) # rs) = Some (Inl e)"
| "stores (Some (Inr v) # rs) = map_option (map_sum id (Cons v)) (stores rs)"

text \<open>The fields that take part get the values, in order.\<close>

fun set_fields :: "(bool \<times> gval) list \<Rightarrow> gval list \<Rightarrow> (bool \<times> gval) list" where
  "set_fields ((True, f) # fs) (v # vs) = (True, v) # set_fields fs vs"
| "set_fields ((False, f) # fs) vs = (False, f) # set_fields fs vs"
| "set_fields fs vs = fs"

text \<open>
  \<open>store\<close>: a map into a map of another type always panics, as \<open>Set\<close> needs the type of the destination.
  A variant and a signature are structs none of whose fields take part. Arrays have their length in
  their type, which \<open>gotype\<close> does not; no variable the package stores into is an array.
\<close>

lemma size_dynamic: "size (dynamic v) \<le> size v"
  by (cases v) simp_all

function store :: "gval \<Rightarrow> gval \<Rightarrow> gval stored" where
  "store src dest =
     (if typeOf dest = typeOf src then Some (Inr src)
      else if hasStruct (typeOf dest) then
        (case (dest, src) of
           (GStruct fs, GSlice t vs) \<Rightarrow>
             let ndest = map snd (filter fst fs) in
             if t \<noteq> Interface then mismatch
             else if length vs \<noteq> length ndest then mismatch
             else (case stores (map (\<lambda>(v, d). store (dynamic v) d) (zip vs ndest)) of
                     None \<Rightarrow> None
                   | Some (Inl e) \<Rightarrow> mismatch
                   | Some (Inr ws) \<Rightarrow> Some (Inr (GStruct (set_fields fs ws))))
         | (GVariant s x, GSlice t vs) \<Rightarrow> if t = Interface \<and> vs = [] then Some (Inr dest) else mismatch
         | (GSig s, GSlice t vs) \<Rightarrow> if t = Interface \<and> vs = [] then Some (Inr dest) else mismatch
         | (GSlice et ds, GSlice t vs) \<Rightarrow>
             map_option (map_sum id (GSlice et)) (stores (map (\<lambda>v. store (dynamic v) (zero et)) vs))
         | (GSlice et ds, GArray t vs) \<Rightarrow> mismatch
         | (GMap k t es, GMap k' t' es') \<Rightarrow> None
         | _ \<Rightarrow> mismatch)
      else mismatch)"
  by pat_completeness auto
termination
  by (relation "measure (\<lambda>(src, dest). size src)")
    (auto dest!: set_zip_leftD intro: le_less_trans [OF size_dynamic] simp: less_Suc_eq_le size_list_estimation')

declare store.simps [simp del]

definition Store :: "gval list \<Rightarrow> gval list \<Rightarrow> gval list stored" where
  "Store src dest =
     (if length src \<noteq> length dest then Some (Inl ''dbus.Store: length mismatch'')
      else stores (map (\<lambda>(v, d). store (dynamic v) d) (zip src dest)))"

section \<open>Messages\<close>

record Message =
  msg_Type :: byte
  msg_Flags :: byte
  Headers :: "(byte \<times> string \<times> gval) list"
  Body :: "gval list"
  serial :: u32

definition protoVersion :: byte where
  "protoVersion = 1"

definition TypeMethodCall :: byte where "TypeMethodCall = 1"
definition TypeMethodReply :: byte where "TypeMethodReply = 2"
definition TypeError :: byte where "TypeError = 3"
definition TypeSignal :: byte where "TypeSignal = 4"
definition typeMax :: byte where "typeMax = 5"

definition FieldPath :: byte where "FieldPath = 1"
definition FieldInterface :: byte where "FieldInterface = 2"
definition FieldMember :: byte where "FieldMember = 3"
definition FieldErrorName :: byte where "FieldErrorName = 4"
definition FieldReplySerial :: byte where "FieldReplySerial = 5"
definition FieldDestination :: byte where "FieldDestination = 6"
definition FieldSender :: byte where "FieldSender = 7"
definition FieldSignature :: byte where "FieldSignature = 8"
definition FieldUnixFDs :: byte where "FieldUnixFDs = 9"
definition fieldMax :: byte where "fieldMax = 10"

lemmas message_constants =
  protoVersion_def TypeMethodCall_def TypeMethodReply_def TypeError_def TypeSignal_def typeMax_def FieldPath_def
  FieldInterface_def FieldMember_def FieldErrorName_def FieldReplySerial_def FieldDestination_def FieldSender_def
  FieldSignature_def FieldUnixFDs_def fieldMax_def

text \<open>The arrays \<open>fieldTypes\<close> and \<open>requiredFields\<close>; an index without an entry has the zero value.\<close>

definition fieldTypes :: "byte \<Rightarrow> gotype option" where
  "fieldTypes k =
     map_of [(FieldPath, ObjectPath), (FieldInterface, String), (FieldMember, String), (FieldErrorName, String),
       (FieldReplySerial, Uint32), (FieldDestination, String), (FieldSender, String), (FieldSignature, SignatureT),
       (FieldUnixFDs, Uint32)] k"

definition requiredFields :: "byte \<Rightarrow> byte list" where
  "requiredFields t =
     (case map_of [(TypeMethodCall, [FieldPath, FieldMember]), (TypeMethodReply, [FieldReplySerial]),
        (TypeError, [FieldErrorName, FieldReplySerial]), (TypeSignal, [FieldPath, FieldInterface, FieldMember])] t of
        None \<Rightarrow> [] | Some fs \<Rightarrow> fs)"

text \<open>The loop over the headers, then the one over the required fields.\<close>

fun check_headers :: "(byte \<times> string \<times> gval) list \<Rightarrow> string option" where
  "check_headers [] = None"
| "check_headers ((k, sig, v) # hs) =
     (if k = 0 \<or> k \<ge> fieldMax then Some ''invalid header''
      else if Some (typeOf v) \<noteq> fieldTypes k then Some ''invalid type of header field''
      else check_headers hs)"

fun check_required :: "byte list \<Rightarrow> (byte \<times> string \<times> gval) list \<Rightarrow> string option" where
  "check_required [] hs = None"
| "check_required (k # ks) hs =
     (if map_of hs k = None then Some ''missing required header'' else check_required ks hs)"

text \<open>The value of a header as a name; \<open>None\<close> when the header is not there.\<close>

definition header_name :: "Message \<Rightarrow> byte \<Rightarrow> string option" where
  "header_name msg k =
     (case map_of (Headers msg) k of
        Some (sig, GPath s) \<Rightarrow> Some s
      | Some (sig, GString s) \<Rightarrow> Some s
      | _ \<Rightarrow> None)"

definition name_ok :: "(string \<Rightarrow> bool) \<Rightarrow> string option \<Rightarrow> bool" where
  "name_ok valid n = (case n of None \<Rightarrow> True | Some s \<Rightarrow> valid s)"

text \<open>\<open>IsValid\<close>, with the text of the \<open>InvalidMessageError\<close>.\<close>

definition IsValid :: "Message \<Rightarrow> string option" where
  "IsValid msg =
     (if and (msg_Flags msg) (not 3) \<noteq> 0 then Some ''invalid flags''
      else if msg_Type msg = 0 \<or> msg_Type msg \<ge> typeMax then Some ''invalid message type''
      else case check_headers (Headers msg) of
        Some e \<Rightarrow> Some e
      | None \<Rightarrow>
          (case check_required (requiredFields (msg_Type msg)) (Headers msg) of
             Some e \<Rightarrow> Some e
           | None \<Rightarrow>
               if \<not> name_ok ObjectPath_IsValid (header_name msg FieldPath) then Some ''invalid path name''
               else if \<not> name_ok isValidInterface (header_name msg FieldInterface) then Some ''invalid interface name''
               else if \<not> name_ok isValidMember (header_name msg FieldMember) then Some ''invalid member name''
               else if \<not> name_ok isValidInterface (header_name msg FieldErrorName) then Some ''invalid error name''
               else if length (Body msg) \<noteq> 0 \<and> map_of (Headers msg) FieldSignature = None then Some ''missing signature''
               else None))"

section \<open>Writing a message\<close>

text \<open>
  \<open>EncodeTo\<close>. The code drops the errors of the two calls of \<open>Encode\<close> and sends what was written before
  them; that case is left out, as \<open>None\<close>. The two byte orders of the package are the only ones.
\<close>

definition header_structs :: "(byte \<times> string \<times> gval) list \<Rightarrow> gval" where
  "header_structs hs =
     GSlice (Struct [(True, Uint8), (True, VariantT)]) (map (\<lambda>(k, sig, v). GStruct [(True, GByte k), (True, GVariant sig v)]) hs)"

definition order_byte :: "bool \<Rightarrow> byte" where
  "order_byte le = (if le then of_char (CHR ''l'') else of_char (CHR ''B''))"

definition EncodeTo :: "Message \<Rightarrow> bool \<Rightarrow> (string + byte list) option" where
  "EncodeTo msg le =
     (case IsValid msg of
        Some e \<Rightarrow> Some (Inl e)
      | None \<Rightarrow>
          (case Encode le 0 (Body msg) of
             Inl e \<Rightarrow> None
           | Inr body \<Rightarrow>
               (case Encode le 0 [GByte (order_byte le), GByte (msg_Type msg), GByte (msg_Flags msg), GByte protoVersion,
                    GUint32 (of_nat (length body)), GUint32 (serial msg), header_structs (Headers msg)] of
                  Inl e \<Rightarrow> None
                | Inr buf \<Rightarrow>
                    let out = buf @ pad 8 (length buf) @ body in
                    if length out > 2 ^ 27 then Some (Inl ''message is too long'') else Some (Inr out))))"

section \<open>Reading a message\<close>

datatype msg_error = Wire wire_error | InvalidMessageError string | StoreError string | ReaderError

text \<open>
  A result is \<open>None\<close> when the fuel of the decoder ran out; in it \<open>Inl None\<close> is a panic, which here no
  deferred function recovers.
\<close>

type_synonym 'a read_result = "((msg_error option) + 'a) option"

definition rbind :: "'a read_result \<Rightarrow> ('a \<Rightarrow> 'b read_result) \<Rightarrow> 'b read_result" where
  "rbind r f = (case r of None \<Rightarrow> None | Some (Inl e) \<Rightarrow> Some (Inl e) | Some (Inr x) \<Rightarrow> f x)"

definition of_dres :: "'a dres \<Rightarrow> ('a \<times> nat \<times> byte list) read_result" where
  "of_dres r = map_option (map_sum (\<lambda>e. Some (Wire e)) id) r"

definition of_stored :: "'a stored \<Rightarrow> 'a read_result" where
  "of_stored r = (case r of None \<Rightarrow> Some (Inl None) | Some (Inl e) \<Rightarrow> Some (Inl (Some (StoreError e))) | Some (Inr x) \<Rightarrow> Some (Inr x))"

text \<open>The headers as they stand in the variable after \<open>Store\<close>, put into the map one by one.\<close>

fun header_of :: "gval \<Rightarrow> byte \<times> string \<times> gval" where
  "header_of (GStruct [(True, GByte k), (True, GVariant sig v)]) = (k, sig, v)"
| "header_of v = (0, '''', GOther)"

definition headers_map :: "gval \<Rightarrow> (byte \<times> string \<times> gval) list" where
  "headers_map v = (case v of GSlice t vs \<Rightarrow> foldl (\<lambda>hs v. AList.update (fst (header_of v)) (snd (header_of v)) hs) [] vs | _ \<Rightarrow> [])"

definition headers_var :: gval where
  "headers_var = GSlice (Struct [(True, Uint8), (True, VariantT)]) []"

text \<open>The numbers in the variables; \<open>Store\<close> keeps the types of its destinations.\<close>

fun byte_of :: "gval \<Rightarrow> byte" where
  "byte_of (GByte b) = b"
| "byte_of v = 0"

fun u32_of :: "gval \<Rightarrow> u32" where
  "u32_of (GUint32 w) = w"
| "u32_of v = 0"

definition read_fixed :: "nat \<Rightarrow> bool \<Rightarrow> byte list \<Rightarrow> (Message \<times> u32 \<times> byte list) read_result" where
  "read_fixed n le bs =
     rbind (of_dres (Decode n le ''yyyuu'' 1 bs)) (\<lambda>(vs, pos, bs).
     rbind (of_stored (Store vs [GByte 0, GByte 0, GByte 0, GUint32 0, GUint32 0])) (\<lambda>ws.
       Some (Inr (\<lparr>msg_Type = byte_of (ws ! 0), msg_Flags = byte_of (ws ! 1), Headers = [], Body = [], serial = u32_of (ws ! 4)\<rparr>,
         u32_of (ws ! 3), bs))))"

definition read_headers :: "nat \<Rightarrow> bool \<Rightarrow> u32 \<Rightarrow> byte list \<Rightarrow> ((byte \<times> string \<times> gval) list \<times> byte list) read_result" where
  "read_headers n le len bs =
     (if length bs < 4 then Some (Inl (Some ReaderError))
      else let hlength = of_nat (get le (take 4 bs)) :: u32 in
        if hlength + len + 16 > 2 ^ 27 then Some (Inl (Some (InvalidMessageError ''message is too long'')))
        else rbind (of_dres (Decode n le ''a(yv)'' 12 bs)) (\<lambda>(vs, pos, bs).
             rbind (of_stored (Store vs [headers_var])) (\<lambda>ws.
               let hs = headers_map (hd ws) in
               (case align_in 8 pos bs of
                  Some (Inr (u, pos, bs)) \<Rightarrow> Some (Inr (hs, bs))
                | _ \<Rightarrow> Some (Inl None)))))"

definition signature_of :: "(byte \<times> string \<times> gval) list \<Rightarrow> string" where
  "signature_of hs = (case map_of hs FieldSignature of Some (s, GSig sig) \<Rightarrow> sig | _ \<Rightarrow> '''')"

definition DecodeMessage :: "nat \<Rightarrow> byte list \<Rightarrow> (Message \<times> byte list) read_result" where
  "DecodeMessage n rd =
     (case rd of
        [] \<Rightarrow> Some (Inl (Some ReaderError))
      | b # bs \<Rightarrow>
          if b \<noteq> order_byte True \<and> b \<noteq> order_byte False then Some (Inl (Some (InvalidMessageError ''invalid byte order'')))
          else let le = (b = order_byte True) in
            rbind (read_fixed n le bs) (\<lambda>(msg, len, bs).
            rbind (read_headers n le len bs) (\<lambda>(hs, bs).
              let msg = msg\<lparr>Headers := hs\<rparr> in
              if length bs < unat len then Some (Inl (Some ReaderError))
              else let body = take (unat len) bs; bs = drop (unat len) bs in
                (case IsValid msg of
                   Some e \<Rightarrow> Some (Inl (Some (InvalidMessageError e)))
                 | None \<Rightarrow>
                     if signature_of hs = '''' then Some (Inr (msg, bs))
                     else rbind (of_dres (Decode n le (signature_of hs) 0 body)) (\<lambda>(vs, u).
                          Some (Inr (msg\<lparr>Body := vs\<rparr>, bs)))))))"

section \<open>Valid messages\<close>

lemma rbind_Inr: "rbind r f = Some (Inr y) \<longleftrightarrow> (\<exists>x. r = Some (Inr x) \<and> f x = Some (Inr y))"
  by (auto simp: rbind_def split: option.splits sum.splits)

lemma IsValid_headers:
  "IsValid msg = None \<Longrightarrow> check_headers (Headers msg) = None"
  by (simp add: IsValid_def split: if_splits option.splits)

lemma check_headers_types: "check_headers hs = None \<Longrightarrow> (k, sig, v) \<in> set hs \<Longrightarrow> Some (typeOf v) = fieldTypes k"
  by (induction hs rule: check_headers.induct) (auto split: if_split_asm)

lemma IsValid_Body:
  assumes "IsValid msg = None" and "vs \<noteq> [] \<longrightarrow> map_of (Headers msg) FieldSignature \<noteq> None"
  shows "IsValid (msg\<lparr>Body := vs\<rparr>) = None"
proof -
  have "header_name (msg\<lparr>Body := vs\<rparr>) = header_name msg" by (simp add: header_name_def fun_eq_iff)
  with assms show ?thesis by (cases "vs = []") (simp_all add: IsValid_def split: if_splits option.splits)
qed

lemma read_fixed_Headers:
  "read_fixed n le bs = Some (Inr (msg, len, bs')) \<Longrightarrow> Body msg = [] \<and> Headers msg = []"
  by (auto simp: read_fixed_def rbind_Inr)

lemma distinct_headers_map: "distinct (map fst (headers_map v))"
proof -
  have "distinct (map fst hs) \<Longrightarrow> distinct (map fst (foldl (\<lambda>hs v. AList.update (fst (header_of v)) (snd (header_of v)) hs) hs vs))" for hs vs
    by (induction vs arbitrary: hs) (simp_all add: AList.distinct_update)
  from this [of "[]"] show ?thesis by (auto simp: headers_map_def split: gval.splits)
qed

lemma aligned_Inr:
  "(case r of Some (Inr (u, p, bs)) \<Rightarrow> Some (Inr (hs, bs)) | _ \<Rightarrow> Some (Inl None)) = Some (Inr (h, b)) \<longleftrightarrow>
     (\<exists>u p. r = Some (Inr (u, p, b)) \<and> hs = h)"
  by (auto split: option.splits sum.splits)

lemma read_headers_map:
  assumes "read_headers n le len bs = Some (Inr (hs, bs'))"
  obtains v where "hs = headers_map v"
proof -
  have "\<exists>v. hs = headers_map v"
    using assms unfolding read_headers_def Let_def rbind_Inr
    by (auto simp: rbind_Inr aligned_Inr split: if_split_asm)
  with that show ?thesis by blast
qed

lemma DecodeMessage_parts:
  assumes "DecodeMessage n (b # bs) = Some (Inr (msg, rest))"
  obtains m len bs1 hs bs2 where "read_fixed n (b = order_byte True) bs = Some (Inr (m, len, bs1))"
    and "read_headers n (b = order_byte True) len bs1 = Some (Inr (hs, bs2))" and "IsValid (m\<lparr>Headers := hs\<rparr>) = None"
    and "(signature_of hs = [] \<and> msg = m\<lparr>Headers := hs\<rparr>) \<or> (signature_of hs \<noteq> [] \<and> (\<exists>vs. msg = m\<lparr>Headers := hs, Body := vs\<rparr>))"
proof -
  let ?le = "b = order_byte True"
  from assms obtain m len bs1 where f: "read_fixed n ?le bs = Some (Inr (m, len, bs1))"
    by (auto simp: DecodeMessage_def Let_def rbind_Inr split: if_split_asm)
  with assms obtain hs bs2 where h: "read_headers n ?le len bs1 = Some (Inr (hs, bs2))"
    by (auto simp: DecodeMessage_def Let_def rbind_Inr split: if_split_asm)
  with assms f that show ?thesis
    by (auto simp: DecodeMessage_def Let_def rbind_Inr split: if_split_asm option.split_asm)
qed

text \<open>
  A message that was read is valid: its flags, type and headers are ones the protocol knows, every
  header has its type and stands for one value only, the headers its type needs are there, the
  names are well formed, and a body comes with a signature.
\<close>

lemma DecodeMessage_facts:
  assumes "DecodeMessage n rd = Some (Inr (msg, rest))"
  shows "IsValid msg = None \<and> distinct (map fst (Headers msg)) \<and> (\<forall>(k, sig, v)\<in>set (Headers msg). Some (typeOf v) = fieldTypes k)
    \<and> (Body msg \<noteq> [] \<longrightarrow> signature_of (Headers msg) \<noteq> [])"
proof -
  obtain b bs where rd: "rd = b # bs" using assms by (cases rd) (auto simp: DecodeMessage_def)
  let ?le = "b = order_byte True"
  from DecodeMessage_parts [OF assms [unfolded rd]] obtain m len bs1 hs bs2 where
    f: "read_fixed n ?le bs = Some (Inr (m, len, bs1))" and h: "read_headers n ?le len bs1 = Some (Inr (hs, bs2))"
    and v: "IsValid (m\<lparr>Headers := hs\<rparr>) = None" 
    and r: "(signature_of hs = [] \<and> msg = m\<lparr>Headers := hs\<rparr>) \<or> (signature_of hs \<noteq> [] \<and> (\<exists>vs. msg = m\<lparr>Headers := hs, Body := vs\<rparr>))" .
  have hs: "distinct (map fst hs)" using read_headers_map [OF h] distinct_headers_map by blast
  have s: "signature_of hs \<noteq> [] \<Longrightarrow> map_of hs FieldSignature \<noteq> None" by (auto simp: signature_of_def split: option.splits)
  from r have "IsValid msg = None" using v IsValid_Body [OF v] s by auto
  moreover have "Headers msg = hs" using r by auto
  ultimately show ?thesis
    using check_headers_types [OF IsValid_headers] hs r read_fixed_Headers [OF f] by (elim disjE) auto
qed

lemma DecodeMessage_valid: "DecodeMessage n rd = Some (Inr (msg, rest)) \<Longrightarrow> IsValid msg = None"
  using DecodeMessage_facts by blast

section \<open>A message comes back\<close>

lemma encode_all_append:
  "encode_all (fs @ gs) le d pos =
     ebind (encode_all fs le d pos) (\<lambda>b. ebind (encode_all gs le d (pos + length b)) (\<lambda>c. Inr (b @ c)))"
  by (induction fs arbitrary: pos) (auto simp: ebind_def add.assoc split: sum.splits)

lemma Encode_append:
  "Encode le pos (us @ vs) = Inr out \<longleftrightarrow>
     (\<exists>b c. Encode le pos us = Inr b \<and> Encode le (pos + length b) vs = Inr c \<and> out = b @ c)"
  by (auto simp: Encode_def encode_all_append ebind_Inr)

lemma Encode_byte: "Encode le pos [GByte b] = Inr [b]"
  by (simp add: Encode_def at_type_def pad_def ebind_def)

lemma fixed_bytes:
  "Encode le 1 [GByte t, GByte f, GByte v, GUint32 l, GUint32 s] = Inr ([t, f, v] @ put le 4 (unat l) @ put le 4 (unat s))"
  by (simp add: Encode_def at_type_def pad_def ebind_def)

text \<open>The headers behind their length.\<close>

lemma header_bytes:
  assumes "Encode le 12 [header_structs hs] = Inr h"
  obtains b where "h = put le 4 (unat (of_nat (length b) :: u32)) @ b"
proof -
  from assms obtain cs where c: "h = cs" "encode_slice (Struct [(True, Uint8), (True, VariantT)])
      (map encode (map (\<lambda>(k, sig, v). GStruct [(True, GByte k), (True, GVariant sig v)]) hs)) le 0 12 = Inr cs"
    by (auto simp: Encode_def header_structs_def ebind_Inr at_type_Inr pad_def interfacesType_def)
  then obtain b where "h = put_sized le 8 12 b" by (auto simp: encode_slice_Inr)
  then have "h = put le 4 (unat (of_nat (length b) :: u32)) @ b" by (simp add: put_sized_def put_u32_def pad_def Let_def)
  with that show ?thesis .
qed

lemma steady_headers:
  assumes "\<forall>(k, sig, v)\<in>set hs. getSignature (typeOf v) = Some sig \<and> steady v \<and> nesting (typeOf v) \<le> 64 \<and> length sig \<le> 255"
  shows "steady (header_structs hs)"
  using assms by (auto simp: header_structs_def)

lemma header_structs_signature: "SignatureOf (map typeOf [header_structs hs]) = Some ''a(yv)''"
  by (simp add: header_structs_def)

lemma nesting_headers: "nesting (typeOf (header_structs hs)) \<le> 64"
  by (simp add: header_structs_def)

text \<open>What \<open>Store\<close> and the map make of the headers that were decoded.\<close>

lemma stores_map: "\<forall>x\<in>set xs. f x = Some (Inr (g x)) \<Longrightarrow> stores (map f xs) = Some (Inr (map g xs))"
  by (induction xs) simp_all

lemma store_header:
  "store (dynamic (GSlice Interface [GInterface (GByte k), GInterface (GVariant sig v)]))
     (GStruct [(True, GByte b), (True, GVariant s x)]) = Some (Inr (GStruct [(True, GByte k), (True, GVariant sig v)]))"
  by (subst store.simps) (simp add: store.simps [of "GByte k"] store.simps [of "GVariant sig v"])

lemma store_headers:
  "store (received (header_structs hs)) headers_var =
     Some (Inr (GSlice (Struct [(True, Uint8), (True, VariantT)])
       (map (\<lambda>(k, sig, v). GStruct [(True, GByte k), (True, GVariant sig (received v))]) hs)))"
proof -
  let ?g = "\<lambda>(k, sig, v). GStruct [(True, GByte k), (True, GVariant sig (received v))]"
  let ?s = "\<lambda>(k, sig, v). GSlice Interface [GInterface (GByte k), GInterface (GVariant sig (received v))]"
  have r: "received (header_structs hs) = GSlice interfacesType (map ?s hs)"
    by (auto simp: header_structs_def interfacesType_def)
  have "stores (map (\<lambda>v. store (dynamic v) (zero (Struct [(True, Uint8), (True, VariantT)]))) (map ?s hs)) = Some (Inr (map ?g hs))"
    unfolding map_map by (rule stores_map) (auto simp: store_header simp del: dynamic.simps)
  then show ?thesis by (subst store.simps) (simp add: r headers_var_def interfacesType_def o_def)
qed

lemma headers_map_new:
  assumes "distinct (map fst hs)"
  shows "headers_map (GSlice t (map (\<lambda>(k, sig, v). GStruct [(True, GByte k), (True, GVariant sig v)]) hs)) = hs"
proof -
  let ?f = "\<lambda>(k, sig, v). GStruct [(True, GByte k), (True, GVariant sig v)]"
  have "foldl (\<lambda>hs v. AList.update (fst (header_of v)) (snd (header_of v)) hs) acc (map ?f hs) = acc @ hs"
    if "distinct (map fst (acc @ hs))" for acc
    using that
  proof (induction hs arbitrary: acc)
    case (Cons x hs)
    obtain k sig v where x: "x = (k, sig, v)" by (cases x)
    with Cons.prems have "AList.update k (sig, v) acc = acc @ [x]" by (auto intro: update_new)
    with Cons x show ?case by simp
  qed simp
  from this [of "[]"] assms show ?thesis by (simp add: headers_map_def)
qed

text \<open>The values of valid headers are as they were.\<close>

lemma received_headers:
  assumes "check_headers hs = None"
  shows "map (\<lambda>(k, sig, v). (k, sig, received v)) hs = hs"
proof -
  have "received v = v" if "Some (typeOf v) = fieldTypes k" for v k
    using that by (cases v) (auto simp: fieldTypes_def split: if_split_asm)
  with assms show ?thesis by (induction hs rule: check_headers.induct) (auto split: if_split_asm)
qed

lemma of_dres_dret [simp]: "of_dres (dret x p bs) = Some (Inr (x, p, bs))"
  by (simp add: of_dres_def dret_def)

lemma of_stored_Inr [simp]: "of_stored (Some (Inr x)) = Some (Inr x)"
  by (simp add: of_stored_def)

lemma rbind_Some [simp]: "rbind (Some (Inr x)) f = f x"
  by (simp add: rbind_def)

lemma store_same: "typeOf v = typeOf d \<Longrightarrow> store v d = Some (Inr v)"
  by (subst store.simps) simp

lemma fixed_read:
  "\<exists>n. \<forall>m\<ge>n. \<forall>rest. read_fixed m le (([t, f, v] @ put le 4 (unat l) @ put le 4 (unat s)) @ rest)
     = Some (Inr (\<lparr>msg_Type = t, msg_Flags = f, Headers = [], Body = [], serial = s\<rparr>, l, rest))"
proof -
  let ?vs = "[GByte t, GByte f, GByte v, GUint32 l, GUint32 s]"
  let ?b = "[t, f, v] @ put le 4 (unat l) @ put le 4 (unat s)"
  have "\<exists>n. \<forall>m\<ge>n. \<forall>rest. Decode m le ''yyyuu'' 1 (?b @ rest) = dret (map received ?vs) (1 + length ?b) rest"
    by (rule bodies_arrive [OF fixed_bytes]) simp_all
  then obtain n where n: "\<And>m rest. m \<ge> n \<Longrightarrow> Decode m le ''yyyuu'' 1 (?b @ rest) = dret (map received ?vs) (1 + length ?b) rest"
    by blast
  have "read_fixed m le (?b @ rest) = Some (Inr (\<lparr>msg_Type = t, msg_Flags = f, Headers = [], Body = [], serial = s\<rparr>, l, rest))"
    if "m \<ge> n" for m rest
    unfolding read_fixed_def n [OF that] by (simp add: Store_def store_same)
  then show ?thesis by blast
qed

lemma headers_read:
  assumes e: "Encode le 12 [header_structs hs] = Inr h" and d: "distinct (map fst hs)" and c: "check_headers hs = None"
    and s: "\<forall>(k, sig, v)\<in>set hs. getSignature (typeOf v) = Some sig \<and> steady v \<and> nesting (typeOf v) \<le> 64 \<and> length sig \<le> 255"
    and l: "length h < 2 ^ 32" and w: "\<not> (of_nat (length h - 4) + len + 16 > (2 ^ 27 :: u32))"
  shows "\<exists>n. \<forall>m\<ge>n. \<forall>rest. read_headers m le len (h @ pad 8 (12 + length h) @ rest) = Some (Inr (hs, rest))"
proof -
  have "\<exists>n. \<forall>m\<ge>n. \<forall>rest. Decode m le ''a(yv)'' 12 (h @ rest) = dret (map received [header_structs hs]) (12 + length h) rest"
    by (rule bodies_arrive [OF e _ header_structs_signature]) (use steady_headers [OF s] nesting_headers l in simp_all)
  then obtain n where n: "\<And>m rest. m \<ge> n \<Longrightarrow> Decode m le ''a(yv)'' 12 (h @ rest) = dret (map received [header_structs hs]) (12 + length h) rest"
    by blast
  obtain b where b: "h = put le 4 (unat (of_nat (length b) :: u32)) @ b" using header_bytes [OF e] .
  have lb: "length h = 4 + length b" using arg_cong [OF b, of length] by simp
  have u: "unat (of_nat (length b) :: u32) = length b" using l lb by (simp add: unat_of_nat)
  have t: "take 4 (h @ r) = put le 4 (length b)" for r using b u by simp
  have g: "get le (put le 4 (length b)) = length b" by (rule get_put) (use l lb in simp)
  have st: "of_stored (Store (map received [header_structs hs]) [headers_var]) =
      Some (Inr [GSlice (Struct [(True, Uint8), (True, VariantT)])
        (map (\<lambda>(k, sig, v). GStruct [(True, GByte k), (True, GVariant sig (received v))]) hs)])"
  proof -
    have "dynamic (received (header_structs hs)) = received (header_structs hs)" by (simp add: header_structs_def)
    then show ?thesis using store_headers [of hs] by (simp add: Store_def)
  qed
  have m: "headers_map (GSlice (Struct [(True, Uint8), (True, VariantT)])
        (map (\<lambda>(k, sig, v). GStruct [(True, GByte k), (True, GVariant sig (received v))]) hs)) = hs"
  proof -
    let ?r = "map (\<lambda>(k, sig, v). (k, sig, received v)) hs"
    have "distinct (map fst ?r)" using received_headers [OF c] d by simp
    from headers_map_new [OF this, of "Struct [(True, Uint8), (True, VariantT)]"] received_headers [OF c]
    show ?thesis by (simp add: o_def case_prod_unfold)
  qed
  have "read_headers m le len (h @ pad 8 (12 + length h) @ rest) = Some (Inr (hs, rest))" if "m \<ge> n" for m rest
  proof -
    have "align_in 8 (12 + length h) (pad 8 (12 + length h) @ rest) = Some (Inr ((), 12 + length h + length (pad 8 (12 + length h)), rest))"
      using align_in_pad [of 8 "12 + length h" "12 + length h" rest] by (simp add: dret_def)
    then show ?thesis
      using w lb unfolding read_headers_def Let_def n [OF that] t g of_dres_dret rbind_Some prod.case st by (simp add: m)
  qed
  then show ?thesis by blast
qed

text \<open>The parts of what \<open>EncodeTo\<close> writes.\<close>

definition fixed_part :: "bool \<Rightarrow> Message \<Rightarrow> nat \<Rightarrow> byte list" where
  "fixed_part le msg n =
     [msg_Type msg, msg_Flags msg, protoVersion] @ put le 4 (unat (of_nat n :: u32)) @ put le 4 (unat (serial msg))"

lemma length_fixed_part [simp]: "length (fixed_part le msg n) = 11"
  by (simp add: fixed_part_def)

lemma EncodeTo_parts:
  assumes e: "EncodeTo msg le = Some (Inr out)"
  obtains body h where "IsValid msg = None" and "Encode le 0 (Body msg) = Inr body"
    and "Encode le 12 [header_structs (Headers msg)] = Inr h"
    and "out = order_byte le # fixed_part le msg (length body) @ h @ pad 8 (12 + length h) @ body" and "length out \<le> 2 ^ 27"
proof -
  let ?vs = "\<lambda>body. [GByte (msg_Type msg), GByte (msg_Flags msg), GByte protoVersion, GUint32 (of_nat (length body)), GUint32 (serial msg)]"
  from e obtain body buf where v: "IsValid msg = None" "Encode le 0 (Body msg) = Inr body"
    and bu: "Encode le 0 ([GByte (order_byte le)] @ ?vs body @ [header_structs (Headers msg)]) = Inr buf"
    and o: "out = buf @ pad 8 (length buf) @ body" "length out \<le> 2 ^ 27"
    by (auto simp: EncodeTo_def Let_def split: option.splits sum.splits if_splits)
  from bu obtain b c where bc: "Encode le (0 + length [order_byte le]) (?vs body) = Inr b"
    "Encode le (0 + length [order_byte le] + length b) [header_structs (Headers msg)] = Inr c" "buf = [order_byte le] @ b @ c"
    unfolding Encode_append Encode_byte by blast
  with fixed_bytes [of le "msg_Type msg" "msg_Flags msg" protoVersion "of_nat (length body)" "serial msg"]
  have b: "b = fixed_part le msg (length body)" by (simp add: fixed_part_def)
  with bc that [OF v, of c] o show ?thesis by simp
qed

lemma EncodeTo_of_parts:
  assumes "IsValid msg = None" and b: "Encode le 0 (Body msg) = Inr body" and h: "Encode le 12 [header_structs (Headers msg)] = Inr h"
    and o: "out = order_byte le # fixed_part le msg (length body) @ h @ pad 8 (12 + length h) @ body" and "length out \<le> 2 ^ 27"
  shows "EncodeTo msg le = Some (Inr out)"
proof -
  let ?vs = "[GByte (msg_Type msg), GByte (msg_Flags msg), GByte protoVersion, GUint32 (of_nat (length body)), GUint32 (serial msg)]"
  have "Encode le 0 ([GByte (order_byte le)] @ ?vs @ [header_structs (Headers msg)])
      = Inr ([order_byte le] @ fixed_part le msg (length body) @ h)"
    unfolding Encode_append Encode_byte using fixed_bytes h by (auto simp: fixed_part_def)
  then show ?thesis using assms by (simp add: EncodeTo_def Let_def)
qed

lemma header_length:
  assumes "Encode le 12 [header_structs hs] = Inr h"
  shows "4 \<le> length h" and "length h < 2 ^ 32 \<Longrightarrow> take 4 h = put le 4 (length h - 4)"
proof -
  obtain b where b: "h = put le 4 (unat (of_nat (length b) :: u32)) @ b" using header_bytes [OF assms] .
  from arg_cong [OF b, of length] have l: "length h = 4 + length b" by simp
  then show "4 \<le> length h" by simp
  show "take 4 h = put le 4 (length h - 4)" if "length h < 2 ^ 32"
  proof -
    have "unat (of_nat (length b) :: u32) = length b" using that l by (simp add: unat_of_nat)
    then show ?thesis using b l by simp
  qed
qed

text \<open>Headers of the types of their fields are no deeper and no longer than the wire allows.\<close>

lemma headers_small:
  assumes c: "check_headers hs = None" and s: "\<forall>(k, sig, v)\<in>set hs. getSignature (typeOf v) = Some sig \<and> steady v"
  shows "\<forall>(k, sig, v)\<in>set hs. getSignature (typeOf v) = Some sig \<and> steady v \<and> nesting (typeOf v) \<le> 64 \<and> length sig \<le> 255"
proof -
  have "nesting (typeOf v) \<le> 64 \<and> length sig \<le> 255" if "Some (typeOf v) = fieldTypes k" "getSignature (typeOf v) = Some sig" for k sig v
    using that by (cases v) (auto simp: fieldTypes_def split: if_split_asm)
  with check_headers_types [OF c] have "nesting (typeOf v) \<le> 64 \<and> length sig \<le> 255"
    if "(k, sig, v) \<in> set hs" for k sig v using s that by blast
  with s show ?thesis by blast
qed

lemma no_signature_no_body:
  assumes "SignatureOf (map typeOf vs) = Some ''''" and "\<forall>v\<in>set vs. steady v \<and> nesting (typeOf v) \<le> 64"
  shows "vs = []"
proof (cases vs)
  case (Cons x xs)
  from assms Cons obtain t ts where t: "getSignature (typeOf x) = Some t" "t @ ts = ''''"
    by (auto simp: bind_eq_Some_conv)
  with single_type_signature(2) [OF t(1)] assms Cons show ?thesis by simp
qed

lemma order_byte_cases: "order_byte le = order_byte True \<or> order_byte le = order_byte False" "(order_byte le = order_byte True) = le"
  by (cases le; simp add: order_byte_def)+

text \<open>\<open>DecodeMessage\<close> on the parts, when each of them is read.\<close>

lemma DecodeMessage_reads:
  assumes "read_fixed m le (f @ h @ body @ rest) = Some (Inr (msg\<lparr>Headers := [], Body := []\<rparr>, of_nat (length body), h @ body @ rest))"
    and "read_headers m le (of_nat (length body)) (h @ body @ rest) = Some (Inr (Headers msg, body @ rest))"
    and "length body < 2 ^ 32" and "IsValid (msg\<lparr>Body := []\<rparr>) = None"
    and "signature_of (Headers msg) \<noteq> '''' \<Longrightarrow> Decode m le (signature_of (Headers msg)) 0 body = dret vs p bs"
    and "signature_of (Headers msg) = '''' \<Longrightarrow> vs = []"
  shows "DecodeMessage m (order_byte le # f @ h @ body @ rest) = Some (Inr (msg\<lparr>Body := vs\<rparr>, rest))"
proof -
  have ul: "unat (of_nat (length body) :: u32) = length body" using assms(3) by (simp add: unat_of_nat)
  have ob: "le \<or> order_byte le = order_byte False" by (cases le) simp_all
  show ?thesis
    unfolding DecodeMessage_def list.case Let_def order_byte_cases(2) assms(1) rbind_Some prod.case
    using assms(2,4-6) ul ob by (auto simp: Let_def)
qed

lemma messages_arrive:
  assumes e: "EncodeTo msg le = Some (Inr out)" and d: "distinct (map fst (Headers msg))"
    and s: "\<forall>(k, sig, v)\<in>set (Headers msg). getSignature (typeOf v) = Some sig \<and> steady v"
    and b: "\<forall>v\<in>set (Body msg). steady v \<and> nesting (typeOf v) \<le> 64"
    and g: "SignatureOf (map typeOf (Body msg)) = Some (signature_of (Headers msg))"
  shows "\<exists>n. \<forall>m\<ge>n. \<forall>rest. DecodeMessage m (out @ rest) = Some (Inr (msg\<lparr>Body := map received (Body msg)\<rparr>, rest))"
proof -
  obtain body h where v: "IsValid msg = None" and bo: "Encode le 0 (Body msg) = Inr body"
    and h: "Encode le 12 [header_structs (Headers msg)] = Inr h"
    and o: "out = order_byte le # fixed_part le msg (length body) @ h @ pad 8 (12 + length h) @ body" and lo: "length out \<le> 2 ^ 27"
    using EncodeTo_parts [OF e] .
  let ?len = "of_nat (length body) :: u32" and ?m0 = "msg\<lparr>Headers := [], Body := []\<rparr>"
  have c: "check_headers (Headers msg) = None" by (rule IsValid_headers [OF v])
  have m0: "\<lparr>msg_Type = msg_Type msg, msg_Flags = msg_Flags msg, Headers = [], Body = [], serial = serial msg\<rparr> = ?m0" by simp
  obtain n1 where n1: "\<And>m rest. m \<ge> n1 \<Longrightarrow> read_fixed m le (fixed_part le msg (length body) @ rest) = Some (Inr (?m0, ?len, rest))"
    using fixed_read [of le "msg_Type msg" "msg_Flags msg" protoVersion ?len "serial msg"] unfolding m0 fixed_part_def by blast
  have "unat (of_nat (length h - 4) + ?len + 16 :: u32) = length h - 4 + length body + 16"
    using o lo header_length(1) [OF h] by (simp add: unat_word_ariths unat_of_nat)
  then have w: "\<not> (of_nat (length h - 4) + ?len + 16 > (2 ^ 27 :: u32))"
    using o lo header_length(1) [OF h] by (simp add: word_less_nat_alt)
  have l: "length h < 2 ^ 32" "length body < 2 ^ 32" using o lo by simp_all
  from headers_read [OF h d c headers_small [OF c s] l(1) w] obtain n2 where
    n2: "\<And>m rest. m \<ge> n2 \<Longrightarrow> read_headers m le ?len (h @ pad 8 (12 + length h) @ rest) = Some (Inr (Headers msg, rest))" by blast
  from bodies_arrive [OF bo b g l(2)] obtain n3 where
    n3: "\<And>m rest. m \<ge> n3 \<Longrightarrow> Decode m le (signature_of (Headers msg)) 0 (body @ rest) = dret (map received (Body msg)) (0 + length body) rest"
    by blast
  have "DecodeMessage m (out @ rest) = Some (Inr (msg\<lparr>Body := map received (Body msg)\<rparr>, rest))" if m: "m \<ge> max n1 (max n2 n3)" for m rest
  proof -
    let ?h = "h @ pad 8 (12 + length h)"
    have "DecodeMessage m (order_byte le # fixed_part le msg (length body) @ ?h @ body @ rest) = Some (Inr (msg\<lparr>Body := map received (Body msg)\<rparr>, rest))"
    proof (rule DecodeMessage_reads)
      show "signature_of (Headers msg) = '''' \<Longrightarrow> map received (Body msg) = []" using no_signature_no_body g b by simp
      show "IsValid (msg\<lparr>Body := []\<rparr>) = None" by (rule IsValid_Body [OF v]) simp
    qed (use n1 n2 n3 [of m "[]"] m l(2) in simp_all)
    then show ?thesis by (simp add: o)
  qed
  then show ?thesis by blast
qed


definition sample_message :: Message where
  "sample_message = \<lparr>msg_Type = TypeMethodReply, msg_Flags = 0,
     Headers = [(FieldReplySerial, ''u'', GUint32 9), (FieldSignature, ''g'', GSig ''y'')], Body = [GByte 5], serial = 7\<rparr>"

definition sample_bytes :: "byte list" where
  "sample_bytes = [108, 2, 0, 1, 1, 0, 0, 0, 7, 0, 0, 0, 15, 0, 0, 0, 5, 1, 117, 0, 9, 0, 0, 0, 8, 1, 103, 0, 1, 121, 0, 0, 5]"

lemma sample_EncodeTo: "EncodeTo sample_message True = Some (Inr sample_bytes)"
proof -
  let ?h = "[15, 0, 0, 0, 5, 1, 117, 0, 9, 0, 0, 0, 8, 1, 103, 0, 1, 121, 0] :: byte list"
  have v: "IsValid sample_message = None" by code_simp
  have b: "Encode True 0 (Body sample_message) = Inr [5]" by code_simp
  have h: "Encode True 12 [header_structs (Headers sample_message)] = Inr ?h" by code_simp
  have f: "[msg_Type sample_message, msg_Flags sample_message, protoVersion] @ put True 4 (unat (of_nat (length [5 :: byte]) :: u32))
      @ put True 4 (unat (serial sample_message)) = [2, 0, 1, 1, 0, 0, 0, 7, 0, 0, 0]" by code_simp
  show ?thesis
  proof (rule EncodeTo_of_parts [OF v b h])
    show "sample_bytes = order_byte True # fixed_part True sample_message (length [5 :: byte]) @ ?h @ pad 8 (12 + length ?h) @ [5]"
      unfolding fixed_part_def f by code_simp
  qed (simp add: sample_bytes_def)
qed


text \<open>
  What the other side can do with a few bytes. A message that ends inside the padding behind its
  headers makes the reader panic, as \<open>align\<close> is called outside the function that recovers. And the
  check of the size wraps around: with a body of 2^32 - 16 bytes announced, the reader does not answer that
  the message is too long but goes on to read a body of that size.
\<close>

lemma short_messages_that_hurt:
  "DecodeMessage 20 [108, 1, 0, 1, 0, 0, 0, 0, 7, 0, 0, 0, 6, 0, 0, 0, 8, 1, 103, 0, 0, 0] = Some (Inl None)
   \<and> (\<exists>n. DecodeMessage n ([108, 1, 0, 1] @ put True 4 (2 ^ 32 - 16) @ put True 4 7 @ put True 4 0) = Some (Inl (Some ReaderError)))"
proof
  show "DecodeMessage 20 [108, 1, 0, 1, 0, 0, 0, 0, 7, 0, 0, 0, 6, 0, 0, 0, 8, 1, 103, 0, 0, 0] = Some (Inl None)" by code_simp
  let ?len = "4294967280 :: u32"
  obtain n1 where n1: "\<And>m rest. m \<ge> n1 \<Longrightarrow> read_fixed m True (([1, 0, 1] @ put True 4 (unat ?len) @ put True 4 (unat (7 :: u32))) @ rest)
      = Some (Inr (\<lparr>msg_Type = 1, msg_Flags = 0, Headers = [], Body = [], serial = 7\<rparr>, ?len, rest))"
    using fixed_read by blast
  have "Encode True 12 [header_structs []] = Inr (put True 4 0)" by code_simp
  then have "\<exists>n. \<forall>m\<ge>n. \<forall>rest. read_headers m True ?len (put True 4 0 @ pad 8 (12 + length (put True 4 0)) @ rest) = Some (Inr ([], rest))"
    by (rule headers_read) simp_all
  then obtain n2 where n2: "\<And>m rest. m \<ge> n2 \<Longrightarrow> read_headers m True ?len (put True 4 0 @ rest) = Some (Inr ([], rest))"
    by (auto simp: pad_def)
  let ?n = "max n1 n2"
  have r: "read_fixed ?n True ([1, 0, 1] @ put True 4 (2 ^ 32 - 16) @ put True 4 7 @ put True 4 0)
      = Some (Inr (\<lparr>msg_Type = 1, msg_Flags = 0, Headers = [], Body = [], serial = 7\<rparr>, ?len, put True 4 0))"
    using n1 [of ?n "put True 4 0"] by simp
  have o: "108 = order_byte True" by code_simp
  have "DecodeMessage ?n (108 # [1, 0, 1] @ put True 4 (2 ^ 32 - 16) @ put True 4 7 @ put True 4 0) = Some (Inl (Some ReaderError))"
    unfolding DecodeMessage_def list.case Let_def o r [unfolded o] simp_thms if_False if_True using r n2 [of ?n "[]"] by simp
  then show "\<exists>n. DecodeMessage n ([108, 1, 0, 1] @ put True 4 (2 ^ 32 - 16) @ put True 4 7 @ put True 4 0) = Some (Inl (Some ReaderError))"
    by auto
qed

end
