(* ===== verification/DbusTransport.thy ===== *)
theory DbusTransport
  imports DbusMessage
begin

text \<open>
  The transports of the vendored package \<open>github.com/godbus/dbus\<close> (\<open>transport_unix.go\<close>,
  \<open>transport_generic.go\<close>): whole messages with their file descriptors on a socket; and how a connection
  is found by its address (\<open>getTransport\<close>, \<open>getKey\<close>, \<open>sessionBusPlatform\<close>) and shared (\<open>SessionBus\<close>,
  \<open>SystemBus\<close>). The bytes of the socket are a list; what arrives beside them, the result of a write
  and of a dial, the environment and the output of \<open>dbus-launch\<close> are parameters.
\<close>

section \<open>Addresses\<close>

text \<open>\<open>getKey\<close>; \<open>None\<close> is the panic of a slice whose end lies before its start.\<close>

definition getKey :: "string \<Rightarrow> string \<Rightarrow> string option" where
  "getKey s key =
     (case Index s key of
        None \<Rightarrow> Some ''''
      | Some i \<Rightarrow>
          if i + length key + 1 \<ge> length s \<or> s ! (i + length key) \<noteq> CHR ''='' then Some ''''
          else let j = (case Index s '','' of None \<Rightarrow> length s | Some j \<Rightarrow> j);
                   k = i + length key + 1
               in if j < k then None else Some (take (j - k) (drop k s)))"

text \<open>\<open>newUnixTransport\<close>, where \<open>dial\<close> is \<open>net.DialUnix\<close> on a name.\<close>

definition newUnixTransport :: "(string \<Rightarrow> error + 't) \<Rightarrow> string \<Rightarrow> (error + 't) option" where
  "newUnixTransport dial keys =
     (case (getKey keys ''abstract'', getKey keys ''path'') of
        (Some abstract, Some path) \<Rightarrow>
          Some (if abstract = '''' \<and> path = '''' then Inl (Errorf ''dbus: invalid address (neither path nor abstract set)'' [])
            else if path = '''' then dial (''@'' @ abstract)
            else if abstract = '''' then dial path
            else Inl (Errorf ''dbus: invalid address (both path and abstract set)'' []))
      | _ \<Rightarrow> None)"

text \<open>
  \<open>getTransport\<close>: the addresses are tried in turn. The check that a transport is known does not leave
  the turn, so that of an unknown one a nil function is called.
\<close>

fun try_addresses :: "(string \<rightharpoonup> string \<Rightarrow> (error + 't) option) \<Rightarrow> string list \<Rightarrow> error \<Rightarrow> (error + 't) option" where
  "try_addresses transports [] err = Some (Inl err)"
| "try_addresses transports (v # vs) err =
     (case Index v '':'' of
        None \<Rightarrow> try_addresses transports vs (Errorf ''dbus: invalid bus address (no transport)'' [])
      | Some i \<Rightarrow>
          (case transports (take i v) of
             None \<Rightarrow> None
           | Some f \<Rightarrow>
               (case f (drop (i + 1) v) of
                  None \<Rightarrow> None
                | Some (Inl e) \<Rightarrow> try_addresses transports vs e
                | Some (Inr t) \<Rightarrow> Some (Inr t))))"

definition getTransport :: "(string \<rightharpoonup> string \<Rightarrow> (error + 't) option) \<Rightarrow> string \<Rightarrow> (error + 't) option" where
  "getTransport transports address = try_addresses transports (Split address '';'') (Errorf '''' [])"

text \<open>
  The address in the output of \<open>dbus-launch\<close>, from the first equals sign to the first line break.
\<close>

definition sessionBusPlatform :: "error + string \<Rightarrow> (error + string) option" where
  "sessionBusPlatform launched =
     (case launched of
        Inl e \<Rightarrow> Some (Inl e)
      | Inr b \<Rightarrow>
          (case (Index b ''='', Index b ''\<newline>'') of
             (Some i, Some j) \<Rightarrow> if j < i + 1 then None else Some (Inr (take (j - (i + 1)) (drop (i + 1) b)))
           | _ \<Rightarrow> Some (Inl (Errorf ''dbus: couldn't determine address of session bus'' []))))"

text \<open>The addresses that \<open>SessionBusPrivate\<close> and \<open>SystemBusPrivate\<close> dial, by the variable of the environment.\<close>

definition session_address :: "string \<Rightarrow> error + string \<Rightarrow> (error + string) option" where
  "session_address env launched =
     (if env \<noteq> '''' \<and> env \<noteq> ''autolaunch:'' then Some (Inr env) else sessionBusPlatform launched)"

definition system_address :: "string \<Rightarrow> string \<Rightarrow> string" where
  "system_address env default_address = (if env \<noteq> '''' then env else default_address)"

text \<open>
  \<open>SessionBus\<close> and \<open>SystemBus\<close>: the connection that is shared, if there is one, or a new one that is
  authenticated and has said hello; one that failed is closed and not shared. The result is the
  error or the connection, the connection that is shared afterwards, and the one that was closed.
\<close>

definition shared_bus :: "'c option \<Rightarrow> error + 'c \<Rightarrow> ('c \<Rightarrow> error option) \<Rightarrow> ('c \<Rightarrow> error option)
    \<Rightarrow> (error + 'c) \<times> 'c option \<times> 'c option" where
  "shared_bus bus private auth hello =
     (case bus of
        Some conn \<Rightarrow> (Inr conn, bus, None)
      | None \<Rightarrow>
          (case private of
             Inl e \<Rightarrow> (Inl e, None, None)
           | Inr conn \<Rightarrow>
               (case auth conn of
                  Some e \<Rightarrow> (Inl e, None, Some conn)
                | None \<Rightarrow>
                    (case hello conn of
                       Some e \<Rightarrow> (Inl e, None, Some conn)
                     | None \<Rightarrow> (Inr conn, Some conn, None)))))"

text \<open>\<open>dial\<close> is \<open>Dial\<close>: a transport for the address, with a new connection on it.\<close>

definition SessionBus :: "'c option \<Rightarrow> string \<Rightarrow> error + string \<Rightarrow> (string \<Rightarrow> (error + 'c) option) \<Rightarrow> ('c \<Rightarrow> error option)
    \<Rightarrow> ('c \<Rightarrow> error option) \<Rightarrow> ((error + 'c) \<times> 'c option \<times> 'c option) option" where
  "SessionBus bus env launched dial auth hello =
     (if bus \<noteq> None then Some (shared_bus bus (Inl ExitError) auth hello)
      else case session_address env launched of
        None \<Rightarrow> None
      | Some (Inl e) \<Rightarrow> Some (shared_bus bus (Inl e) auth hello)
      | Some (Inr address) \<Rightarrow> map_option (\<lambda>private. shared_bus bus private auth hello) (dial address))"

definition SystemBus :: "'c option \<Rightarrow> string \<Rightarrow> string \<Rightarrow> (string \<Rightarrow> (error + 'c) option) \<Rightarrow> ('c \<Rightarrow> error option)
    \<Rightarrow> ('c \<Rightarrow> error option) \<Rightarrow> ((error + 'c) \<times> 'c option \<times> 'c option) option" where
  "SystemBus bus env default_address dial auth hello =
     (if bus \<noteq> None then Some (shared_bus bus (Inl ExitError) auth hello)
      else map_option (\<lambda>private. shared_bus bus private auth hello) (dial (system_address env default_address)))"

text \<open>A connection is shared only after it was authenticated and has said hello, and then it stays.\<close>

lemma shared_after_hello:
  "shared_bus bus private auth hello = (r, bus', closed) \<Longrightarrow>
     (bus' = None \<longleftrightarrow> (\<exists>e. r = Inl e)) \<and> (\<forall>conn. r = Inr conn \<longrightarrow> bus' = Some conn)
     \<and> (bus = None \<longrightarrow> (\<forall>conn. bus' = Some conn \<longrightarrow> private = Inr conn \<and> auth conn = None \<and> hello conn = None))
     \<and> (\<forall>conn. bus = Some conn \<longrightarrow> bus' = bus \<and> closed = None)"
  by (auto simp: shared_bus_def split: option.splits sum.splits)

text \<open>\<open>getHomeDir\<close>: the cached directory, that of the environment, or the one that is looked up.\<close>

definition getHomeDir :: "string \<Rightarrow> string \<Rightarrow> string \<Rightarrow> string \<times> string" where
  "getHomeDir homeDir env lookup =
     (if homeDir \<noteq> '''' then (homeDir, homeDir)
      else if env \<noteq> '''' then (env, env)
      else (lookup, lookup))"

section \<open>Sending\<close>

datatype transport_error = MessageError msg_error | TransportError string | SocketError error | ShortWrite

text \<open>The file descriptors of a body, and the body with their indices in their place.\<close>

fun take_fds :: "nat \<Rightarrow> gval list \<Rightarrow> gval list \<times> u32 list" where
  "take_fds n [] = ([], [])"
| "take_fds n (v # vs) =
     (case v of
        GFD w \<Rightarrow> (case take_fds (Suc n) vs of (ws, fds) \<Rightarrow> (GFDIndex (of_nat n) # ws, w # fds))
      | _ \<Rightarrow> (case take_fds n vs of (ws, fds) \<Rightarrow> (v # ws, fds)))"

text \<open>
  \<open>SendMessage\<close> of the two transports: what is written to the socket, with the file descriptors beside it,
  and the error that is returned. \<open>written\<close> says how the write of a message with file descriptors
  ends: an error, or whether it was complete. What an error of \<open>EncodeTo\<close> leaves is a write of no
  bytes, or no write, without an error. \<open>None\<close> is the case that \<open>EncodeTo\<close> leaves out.
\<close>

definition with_fds :: "Message \<Rightarrow> gval list \<Rightarrow> u32 list \<Rightarrow> Message" where
  "with_fds msg body fds =
     msg\<lparr>Headers := (if fds = [] then Headers msg else AList.update FieldUnixFDs (''u'', GUint32 (of_nat (length fds))) (Headers msg)),
       Body := body\<rparr>"

definition unix_SendMessage :: "bool \<Rightarrow> (error + bool) \<Rightarrow> Message \<Rightarrow> (transport_error option \<times> byte list \<times> u32 list) option" where
  "unix_SendMessage hasUnixFDs written msg =
     (case take_fds 0 (Body msg) of
        (body, fds) \<Rightarrow>
          if fds \<noteq> [] then
            if \<not> hasUnixFDs then Some (Some (TransportError ''dbus: unix fd passing not enabled''), [], [])
            else map_option (\<lambda>r. ((case written of Inl e \<Rightarrow> Some (SocketError e) | Inr whole \<Rightarrow> if whole then None else Some ShortWrite),
                   (case r of Inl e \<Rightarrow> [] | Inr b \<Rightarrow> b), fds))
                 (EncodeTo (with_fds msg body fds) True)
          else map_option (\<lambda>r. (None, (case r of Inl e \<Rightarrow> [] | Inr b \<Rightarrow> b), [])) (EncodeTo msg True))"

definition generic_SendMessage :: "Message \<Rightarrow> ((transport_error option) \<times> byte list) option" where
  "generic_SendMessage msg =
     (if \<exists>v\<in>set (Body msg). typeOf v = UnixFD then Some (Some (TransportError ''dbus: unix fd passing not enabled''), [])
      else map_option (\<lambda>r. case r of Inl e \<Rightarrow> (Some (MessageError (InvalidMessageError e)), []) | Inr b \<Rightarrow> (None, b)) (EncodeTo msg True))"

section \<open>Receiving\<close>

text \<open>
  What came beside the bytes: the control messages, or the error of their parser, and for each the file
  descriptors it holds, or an error.
\<close>

type_synonym oob = "error + (error + u32 list) list"

type_synonym 'a transport_result = "(transport_error option + 'a) option"

definition of_read :: "'a read_result \<Rightarrow> 'a transport_result" where
  "of_read r = map_option (map_sum (map_option MessageError) id) r"

definition tbind :: "'a transport_result \<Rightarrow> ('a \<Rightarrow> 'b transport_result) \<Rightarrow> 'b transport_result" where
  "tbind r f = (case r of None \<Rightarrow> None | Some (Inl e) \<Rightarrow> Some (Inl e) | Some (Inr x) \<Rightarrow> f x)"

text \<open>The number of file descriptors the headers announce: the last header of that field counts.\<close>

definition announced_fds :: "(byte \<times> string \<times> gval) list \<Rightarrow> u32" where
  "announced_fds hs = foldl (\<lambda>n (k, s, v). if k = FieldUnixFDs then u32_of v else n) 0 hs"

text \<open>The indices in a body are replaced by the file descriptors they stand for.\<close>

fun put_fds :: "u32 \<Rightarrow> u32 list \<Rightarrow> gval list \<Rightarrow> gval list transport_result" where
  "put_fds n fds [] = Some (Inr [])"
| "put_fds n fds (v # vs) =
     (case v of
        GFDIndex j \<Rightarrow>
          if j \<ge> n then Some (Inl (Some (MessageError (InvalidMessageError ''invalid index for unix fd''))))
          else if unat j \<ge> length fds then Some (Inl None)
          else tbind (put_fds n fds vs) (\<lambda>ws. Some (Inr (GFD (fds ! unat j) # ws)))
      | _ \<Rightarrow> tbind (put_fds n fds vs) (\<lambda>ws. Some (Inr (v # ws))))"

text \<open>
  The headers that are decoded to look for file descriptors; an error of \<open>Store\<close> is dropped.
\<close>

definition peek_headers :: "nat \<Rightarrow> bool \<Rightarrow> byte list \<Rightarrow> (byte \<times> string \<times> gval) list transport_result" where
  "peek_headers n le bs =
     tbind (of_read (of_dres (Decode n le ''a(yv)'' 12 bs))) (\<lambda>(vs, pos, bs).
       (case Store vs [headers_var] of
          None \<Rightarrow> Some (Inl None)
        | Some (Inl e) \<Rightarrow> Some (Inr [])
        | Some (Inr ws) \<Rightarrow> Some (Inr (case hd ws of GSlice t xs \<Rightarrow> map header_of xs | _ \<Rightarrow> []))))"

text \<open>
  The buffer for the whole message: its size and the place of the body are sums in 32 bits, and slices
  out of range panic. What is read into it from the socket, and what is left there.
\<close>

definition fill_message :: "byte list \<Rightarrow> byte list \<Rightarrow> u32 \<Rightarrow> u32 \<Rightarrow> byte list \<Rightarrow> (byte list \<times> byte list) transport_result" where
  "fill_message csheader hdr hlen blen bs =
     (let total = unat (16 + hlen + blen); start = unat (16 + hlen) in
      if total < 16 \<or> start > total then Some (Inl None)
      else if length bs < total - start then Some (Inl (Some (MessageError ReaderError)))
      else Some (Inr (take start (csheader @ take (total - 16) hdr) @ take (total - start) bs, drop (total - start) bs)))"

definition unix_ReadMessage :: "nat \<Rightarrow> bool \<Rightarrow> oob \<Rightarrow> byte list \<Rightarrow> (Message \<times> byte list) transport_result" where
  "unix_ReadMessage n hasUnixFDs oob bs =
     (if length bs < 16 then Some (Inl (Some (MessageError ReaderError)))
      else let csheader = take 16 bs; bs = drop 16 bs; b = hd csheader in
        if b \<noteq> order_byte True \<and> b \<noteq> order_byte False then Some (Inl (Some (MessageError (InvalidMessageError ''invalid byte order''))))
        else let le = (b = order_byte True);
                 blen = of_nat (get le (take 4 (drop 4 csheader))) :: u32;
                 hlen = of_nat (get le (drop 12 csheader)) :: u32;
                 hlen = (if hlen mod 8 \<noteq> 0 then hlen + (8 - hlen mod 8) else hlen)
          in if length bs < unat hlen then Some (Inl (Some (MessageError ReaderError)))
             else let hdr = take (unat hlen) bs; bs = drop (unat hlen) bs in
               tbind (peek_headers n le (drop 12 csheader @ hdr)) (\<lambda>headers.
               tbind (fill_message csheader hdr hlen blen bs) (\<lambda>(all, bs).
                 let unixfds = announced_fds headers in
                 if unixfds \<noteq> 0 then
                   (if \<not> hasUnixFDs then Some (Inl (Some (TransportError ''dbus: got unix fds on unsupported transport'')))
                    else case oob of
                      Inl e \<Rightarrow> Some (Inl (Some (SocketError e)))
                    | Inr [Inl e] \<Rightarrow> Some (Inl (Some (SocketError e)))
                    | Inr [Inr fds] \<Rightarrow>
                        tbind (of_read (DecodeMessage n all)) (\<lambda>(msg, u).
                        tbind (put_fds unixfds fds (Body msg)) (\<lambda>body. Some (Inr (msg\<lparr>Body := body\<rparr>, bs))))
                    | _ \<Rightarrow> Some (Inl (Some (TransportError ''dbus: received more than one socket control message''))))
                 else tbind (of_read (DecodeMessage n all)) (\<lambda>(msg, u). Some (Inr (msg, bs))))))"

definition generic_ReadMessage :: "nat \<Rightarrow> byte list \<Rightarrow> (Message \<times> byte list) transport_result" where
  "generic_ReadMessage n bs = of_read (DecodeMessage n bs)"

section \<open>A message with its file descriptors comes back\<close>

lemma tbind_Inr [simp]: "tbind (Some (Inr x)) f = f x"
  by (simp add: tbind_def)

lemma of_read_Inr [simp]: "of_read (Some (Inr x)) = Some (Inr x)"
  by (simp add: of_read_def)

text \<open>What a value at the top of a body is for the receiver.\<close>

definition arrived :: "gval \<Rightarrow> gval" where
  "arrived v = (if typeOf v = UnixFD then v else received v)"

lemma typeOf_UnixFD: "typeOf v = UnixFD \<longleftrightarrow> (\<exists>w. v = GFD w)"
  by (cases v) simp_all

lemma take_fds_not:
  "typeOf v \<noteq> UnixFD \<Longrightarrow> take_fds n (v # vs) = (case take_fds n vs of (ws, fds) \<Rightarrow> (v # ws, fds))"
  by (cases v) simp_all

lemma put_fds_not:
  "(\<forall>j. v \<noteq> GFDIndex j) \<Longrightarrow> put_fds n fds (v # vs) = tbind (put_fds n fds vs) (\<lambda>ws. Some (Inr (v # ws)))"
  by (cases v) simp_all

lemma take_fds_cases:
  assumes "take_fds n (v # vs) = (ws, fds)"
  obtains (fd) w ws' fds' where "v = GFD w" "ws = GFDIndex (of_nat n) # ws'" "fds = w # fds'" "take_fds (Suc n) vs = (ws', fds')"
  | (other) ws' where "typeOf v \<noteq> UnixFD" "ws = v # ws'" "take_fds n vs = (ws', fds)"
proof (cases "typeOf v = UnixFD")
  case True
  with assms show ?thesis by (auto simp: typeOf_UnixFD split: prod.splits intro: fd)
next
  case False
  with assms show ?thesis by (auto simp: take_fds_not simp del: take_fds.simps split: prod.splits intro: other)
qed

text \<open>The file descriptors that are taken out of a body are put back.\<close>

lemma put_take_fds:
  assumes "take_fds (length pre) vs = (ws, fds)" and "length (pre @ fds) < 2 ^ 32"
    and "\<forall>v\<in>set vs. typeOf v = UnixFD \<or> (\<forall>j. received v \<noteq> GFDIndex j)"
  shows "put_fds (of_nat (length (pre @ fds))) (pre @ fds) (map received ws) = Some (Inr (map arrived vs))"
  using assms
proof (induction vs arbitrary: pre ws fds)
  case (Cons v vs)
  from Cons.prems(1) show ?case
  proof (cases rule: take_fds_cases)
    case (fd w ws' fds')
    have "put_fds (of_nat (length ((pre @ [w]) @ fds'))) ((pre @ [w]) @ fds') (map received ws') = Some (Inr (map arrived vs))"
      using Cons.prems fd by (intro Cons.IH) simp_all
    moreover have "unat (of_nat (length pre) :: u32) = length pre" "unat (of_nat (length (pre @ fds)) :: u32) = length (pre @ fds)"
      using Cons.prems(2) by (simp_all only: unat_of_nat len_num1 len_bit0) simp_all
    ultimately show ?thesis using fd by (simp add: word_le_nat_alt arrived_def nth_append)
  next
    case (other ws')
    have "put_fds (of_nat (length (pre @ fds))) (pre @ fds) (map received ws') = Some (Inr (map arrived vs))"
      using Cons.prems other by (intro Cons.IH) simp_all
    moreover have "\<forall>j. received v \<noteq> GFDIndex j" using Cons.prems(3) other by simp
    ultimately show ?thesis using other by (simp add: put_fds_not arrived_def del: put_fds.simps)
  qed
qed simp

lemma no_fds: "take_fds n vs = (ws, []) \<Longrightarrow> ws = vs \<and> (\<forall>v\<in>set vs. typeOf v \<noteq> UnixFD)"
proof (induction vs arbitrary: n ws)
  case (Cons v vs)
  from Cons.prems show ?case by (cases rule: take_fds_cases) (auto dest: Cons.IH)
qed simp

lemma take_fds_types:
  "take_fds n vs = (ws, fds) \<Longrightarrow> SignatureOf (map typeOf ws) = SignatureOf (map typeOf vs)
     \<and> ((\<forall>v\<in>set ws. steady v \<and> nesting (typeOf v) \<le> 64) \<longleftrightarrow> (\<forall>v\<in>set vs. steady v \<and> nesting (typeOf v) \<le> 64))"
proof (induction vs arbitrary: n ws fds)
  case (Cons v vs)
  from Cons.prems show ?case by (cases rule: take_fds_cases) (auto dest!: Cons.IH)
qed simp

text \<open>The headers that \<open>ReadMessage\<close> looks at are those of the message.\<close>

lemma headers_peeked:
  assumes e: "Encode le 12 [header_structs hs] = Inr h" and c: "check_headers hs = None" and l: "length h < 2 ^ 32"
    and s: "\<forall>(k, sig, v)\<in>set hs. getSignature (typeOf v) = Some sig \<and> steady v"
  shows "\<exists>n. \<forall>m\<ge>n. \<forall>rest. peek_headers m le (h @ rest) = Some (Inr hs)"
proof -
  have "\<exists>n. \<forall>m\<ge>n. \<forall>rest. Decode m le ''a(yv)'' 12 (h @ rest) = dret (map received [header_structs hs]) (12 + length h) rest"
    by (rule bodies_arrive [OF e _ header_structs_signature]) (use steady_headers [OF headers_small [OF c s]] nesting_headers l in simp_all)
  then obtain n where n: "\<And>m rest. m \<ge> n \<Longrightarrow> Decode m le ''a(yv)'' 12 (h @ rest) = dret (map received [header_structs hs]) (12 + length h) rest"
    by blast
  have "dynamic (received (header_structs hs)) = received (header_structs hs)" by (simp add: header_structs_def)
  then have "Store (map received [header_structs hs]) [headers_var] = Some (Inr [GSlice (Struct [(True, Uint8), (True, VariantT)])
        (map (\<lambda>(k, sig, v). GStruct [(True, GByte k), (True, GVariant sig (received v))]) hs)])"
    using store_headers [of hs] by (simp add: Store_def)
  moreover have "map header_of (map (\<lambda>(k, sig, v). GStruct [(True, GByte k), (True, GVariant sig (received v))]) hs) = hs"
    using received_headers [OF c] by (simp add: o_def case_prod_unfold)
  ultimately have "peek_headers m le (h @ rest) = Some (Inr hs)" if "m \<ge> n" for m rest
    unfolding peek_headers_def n [OF that] by simp
  then show ?thesis by blast
qed

lemma announced_fds_absent: "FieldUnixFDs \<notin> fst ` set hs \<Longrightarrow> announced_fds hs = 0"
proof -
  have "FieldUnixFDs \<notin> fst ` set hs \<Longrightarrow> foldl (\<lambda>n (k, s, v). if k = FieldUnixFDs then u32_of v else n) n hs = n" for n
    by (induction hs) auto
  then show "FieldUnixFDs \<notin> fst ` set hs \<Longrightarrow> announced_fds hs = 0" by (simp add: announced_fds_def)
qed

lemma announced_fds_last: "announced_fds (hs @ [(FieldUnixFDs, s, GUint32 n)]) = n"
  by (simp add: announced_fds_def)

text \<open>The arithmetic of \<open>ReadMessage\<close> on the parts of a message.\<close>

lemma rounded_length:
  assumes "n < 2 ^ 31"
  shows "(let l = of_nat n :: u32 in if l mod 8 \<noteq> 0 then l + (8 - l mod 8) else l) = of_nat (n + length (pad 8 (16 + n)))"
proof -
  have u: "unat (of_nat n :: u32) = n" using assms by (simp add: unat_of_nat)
  have m: "(of_nat n :: u32) mod 8 = of_nat (n mod 8)"
    by (subst word_arith_nat_mod) (simp add: u)
  have p: "length (pad 8 (16 + n)) = (8 - n mod 8) mod 8" 
  proof -
    have "(16 + n) mod 8 = n mod 8" by presburger
    then show ?thesis by (simp add: pad_eq)
  qed
  show ?thesis
  proof (cases "n mod 8 = 0")
    case True
    then show ?thesis using m p by (simp add: Let_def)
  next
    case False
    then have "(8 :: u32) - of_nat (n mod 8) = of_nat (8 - n mod 8)" by (simp add: of_nat_diff)
    moreover have "(of_nat (n mod 8) :: u32) \<noteq> 0"
    proof -
      have "n mod 8 < 2 ^ 32" by (rule less_trans [of _ 8]) simp_all
      then have "unat (of_nat (n mod 8) :: u32) = n mod 8" by (simp add: unat_of_nat)
      with False show ?thesis by (metis unat_0)
    qed
    ultimately show ?thesis using False m p by (simp add: Let_def)
  qed
qed

lemma unix_read_parts:
  fixes f h body rest :: "byte list"
  defines "hd16 \<equiv> order_byte True # f @ take 4 h" and "hdr \<equiv> drop 4 h @ pad 8 (12 + length h)"
  assumes f: "length f = 11" "take 4 (drop 3 f) = put True 4 (length body)"
    and h: "4 \<le> length h" "take 4 h = put True 4 (length h - 4)" and small: "12 + length h + 8 + length body < 2 ^ 31"
    and peek: "peek_headers m True (h @ pad 8 (12 + length h)) = Some (Inr hs)"
    and dec: "DecodeMessage m (order_byte True # f @ h @ pad 8 (12 + length h) @ body) = Some (Inr (msg, u))"
    and fds: "announced_fds hs \<noteq> 0 \<Longrightarrow> has"
  shows "unix_ReadMessage m has (Inr [Inr fds]) ((order_byte True # f @ h @ pad 8 (12 + length h) @ body) @ rest) =
    (if announced_fds hs \<noteq> 0 then tbind (put_fds (announced_fds hs) fds (Body msg)) (\<lambda>b. Some (Inr (msg\<lparr>Body := b\<rparr>, rest)))
     else Some (Inr (msg, rest)))"
proof -
  let ?out = "(order_byte True # f @ h @ pad 8 (12 + length h) @ body) @ rest" and ?n = "length h - 4"
  have o: "?out = hd16 @ hdr @ body @ rest" using h(1) by (simp add: hd16_def hdr_def)
  have l16: "length hd16 = 16" using f(1) h(1) by (simp add: hd16_def)
  have p8: "length (pad 8 (12 + length h)) < 8" by (simp add: pad_eq)
  have lh: "length hdr = ?n + length (pad 8 (16 + ?n))" using h(1) by (simp add: hdr_def)
  have b: "hd hd16 = order_byte True" by (simp add: hd16_def)
  have g1: "(of_nat (get True (take 4 (drop 4 hd16))) :: u32) = of_nat (length body)"
  proof -
    have "take 4 (drop 4 hd16) = put True 4 (length body)"
      using f h(1) by (simp add: hd16_def drop_Cons')
    moreover have "get True (put True 4 (length body)) = length body" by (rule get_put) (use small in simp)
    ultimately show ?thesis by simp
  qed
  have d12: "drop 12 hd16 = take 4 h" using f(1) by (simp add: hd16_def drop_Cons')
  have g2: "get True (drop 12 hd16) = ?n" unfolding d12 h(2) by (rule get_put) (use small in simp)
  have hlen: "(if (of_nat ?n :: u32) mod 8 \<noteq> 0 then of_nat ?n + (8 - of_nat ?n mod 8) else of_nat ?n) = (of_nat (length hdr) :: u32)"
    using rounded_length [of ?n] small lh by (simp add: Let_def)
  have lhs: "length hdr \<le> length h + 4" using h(1) p8 by (simp add: hdr_def)
  have ulen: "unat (of_nat (length hdr) :: u32) = length hdr" using small lhs by (simp add: unat_of_nat)
  have tot: "unat (16 + of_nat (length hdr) + of_nat (length body) :: u32) = 16 + length hdr + length body"
    "unat (16 + of_nat (length hdr) :: u32) = 16 + length hdr"
    using small lhs by (simp_all add: unat_word_ariths unat_of_nat)
  have fill: "fill_message hd16 hdr (of_nat (length hdr)) (of_nat (length body)) (body @ rest) = Some (Inr (hd16 @ hdr @ body, rest))"
    using l16 by (simp add: fill_message_def tot Let_def)
  have pk: "drop 12 hd16 @ hdr = h @ pad 8 (12 + length h)" unfolding d12 hdr_def by simp
  have al: "hd16 @ hdr @ body = order_byte True # f @ h @ pad 8 (12 + length h) @ body"
    using o by simp
  have t: "take 16 (hd16 @ hdr @ body @ rest) = hd16" "drop 16 (hd16 @ hdr @ body @ rest) = hdr @ body @ rest"
    "\<not> length (hd16 @ hdr @ body @ rest) < 16" "\<not> length (hdr @ body @ rest) < length hdr"
    "take (length hdr) (hdr @ body @ rest) = hdr" "drop (length hdr) (hdr @ body @ rest) = body @ rest"
    using l16 by simp_all
  have ok: "(order_byte True \<noteq> order_byte True \<and> order_byte True \<noteq> order_byte False) = False" "(order_byte True = order_byte True) = True"
    by simp_all
  show ?thesis
    unfolding o unix_ReadMessage_def Let_def t b ok if_False g1 g2 hlen ulen pk peek tbind_Inr fill prod.case al dec of_read_Inr
    using fds l16 by simp
qed

text \<open>What was written is the message with its indices.\<close>

lemma unix_sent:
  assumes "unix_SendMessage has written msg = Some (err, out, fds)" and "out \<noteq> []"
  obtains ws where "take_fds 0 (Body msg) = (ws, fds)" and "EncodeTo (with_fds msg ws fds) True = Some (Inr out)"
    and "fds \<noteq> [] \<longrightarrow> has"
proof -
  obtain ws fds' where t: "take_fds 0 (Body msg) = (ws, fds')" by fastforce
  show ?thesis
  proof (cases "fds' = []")
    case True
    then have "with_fds msg ws [] = msg" using t no_fds by (simp add: with_fds_def)
    with True t assms that show ?thesis by (cases "EncodeTo msg True") (auto simp: unix_SendMessage_def split: sum.split_asm)
  next
    case False
    with t assms that show ?thesis
      by (cases "EncodeTo (with_fds msg ws fds') True") (auto simp: unix_SendMessage_def split: if_split_asm sum.split_asm)
  qed
qed


section \<open>What goes wrong\<close>

lemma take_no_fds: "\<forall>v\<in>set vs. typeOf v \<noteq> UnixFD \<Longrightarrow> take_fds n vs = (vs, [])"
  by (induction vs arbitrary: n) (simp_all add: take_fds_not del: take_fds.simps(2))

text \<open>
  C38: the weak points of the transports. Sixteen bytes from the other side make \<open>ReadMessage\<close> panic,
  since the size of the buffer wraps around; so does a message that ends in the padding behind its
  headers, and an index that the headers announce and no file descriptor came for. \<open>SendMessage\<close> returns no error for a message that is not valid, and sends nothing.
  An address whose key is not the first, or whose transport is not known, makes the client panic.
\<close>

theorem transport_pitfalls:
  "unix_ReadMessage 20 has oob ([108, 1, 0, 1] @ put True 4 (2 ^ 32 - 16) @ put True 4 7 @ put True 4 0) = Some (Inl None)
   \<and> generic_ReadMessage 20 [108, 1, 0, 1, 0, 0, 0, 0, 7, 0, 0, 0, 6, 0, 0, 0, 8, 1, 103, 0, 0, 0] = Some (Inl None)
   \<and> (j < n \<and> length fds \<le> unat j \<longrightarrow> put_fds n fds (GFDIndex j # vs) = Some (Inl None))
   \<and> (IsValid msg = Some e \<and> (\<forall>v\<in>set (Body msg). typeOf v \<noteq> UnixFD) \<longrightarrow> unix_SendMessage has written msg = Some (None, [], []))
   \<and> getKey ''guid=1,path=/run/bus'' ''path'' = None
   \<and> getTransport [''unix'' \<mapsto> dial] ''tcp:host=a'' = None"
proof (intro conjI impI)
  show "unix_ReadMessage 20 has oob ([108, 1, 0, 1] @ put True 4 (2 ^ 32 - 16) @ put True 4 7 @ put True 4 0) = Some (Inl None)"
  proof -
    let ?cs = "[108, 1, 0, 1] @ put True 4 (2 ^ 32 - 16) @ put True 4 7 @ put True 4 0"
    have p: "peek_headers 20 True (put True 4 0) = Some (Inr [])" by code_simp
    have f: "fill_message cs [] 0 4294967280 [] = Some (Inl None)" for cs by (simp add: fill_message_def)
    have o: "order_byte True = 108" by code_simp
    have t: "take 16 ?cs = ?cs" "drop 16 ?cs = []" "drop 12 ?cs = put True 4 0" "take 4 (drop 4 ?cs) = put True 4 (2 ^ 32 - 16)"
      "hd ?cs = 108" by simp_all
    have g: "get True (put True 4 (2 ^ 32 - 16)) = 2 ^ 32 - 16" "get True (put True 4 0) = 0" by (rule get_put, simp)+
    show ?thesis
      unfolding unix_ReadMessage_def Let_def t g o using p f g by (simp add: tbind_def)
  qed
  show "generic_ReadMessage 20 [108, 1, 0, 1, 0, 0, 0, 0, 7, 0, 0, 0, 6, 0, 0, 0, 8, 1, 103, 0, 0, 0] = Some (Inl None)"
    using short_messages_that_hurt by (simp add: generic_ReadMessage_def of_read_def)
  show "put_fds n fds (GFDIndex j # vs) = Some (Inl None)" if "j < n \<and> length fds \<le> unat j" using that by (auto simp: linorder_not_le)
  show "unix_SendMessage has written msg = Some (None, [], [])"
    if "IsValid msg = Some e \<and> (\<forall>v\<in>set (Body msg). typeOf v \<noteq> UnixFD)"
    using that by (simp add: unix_SendMessage_def take_no_fds EncodeTo_def)
  show "getKey ''guid=1,path=/run/bus'' ''path'' = None" by code_simp
  show "getTransport [''unix'' \<mapsto> dial] ''tcp:host=a'' = None" 
  proof -
    have "Split ''tcp:host=a'' '';'' = [''tcp:host=a'']" "Index ''tcp:host=a'' '':'' = Some 3" by code_simp+
    then show ?thesis by (simp add: getTransport_def numeral_3_eq_3)
  qed
qed

section \<open>Witnesses\<close>

definition fd_message :: Message where
  "fd_message = \<lparr>msg_Type = TypeMethodReply, msg_Flags = 0,
     Headers = [(FieldReplySerial, ''u'', GUint32 9), (FieldSignature, ''g'', GSig ''h'')], Body = [GFD 7], serial = 7\<rparr>"

definition fd_bytes :: "byte list" where
  "fd_bytes = [108, 2, 0, 1, 4, 0, 0, 0, 7, 0, 0, 0, 24, 0, 0, 0, 5, 1, 117, 0, 9, 0, 0, 0, 8, 1, 103, 0, 1, 104, 0, 0,
     9, 1, 117, 0, 1, 0, 0, 0, 0, 0, 0, 0]"

lemma fd_EncodeTo: "EncodeTo (with_fds fd_message [GFDIndex 0] [7]) True = Some (Inr fd_bytes)"
proof -
  let ?m = "with_fds fd_message [GFDIndex 0] [7]"
  let ?h = "[24, 0, 0, 0, 5, 1, 117, 0, 9, 0, 0, 0, 8, 1, 103, 0, 1, 104, 0, 0, 9, 1, 117, 0, 1, 0, 0, 0] :: byte list"
  let ?f = "[2, 0, 1, 4, 0, 0, 0, 7, 0, 0, 0] :: byte list"
  have m: "?m = fd_message\<lparr>Headers := [(FieldReplySerial, ''u'', GUint32 9), (FieldSignature, ''g'', GSig ''h''),
      (FieldUnixFDs, ''u'', GUint32 1)], Body := [GFDIndex 0]\<rparr>"
    by (simp add: with_fds_def fd_message_def message_constants)
  have v: "IsValid ?m = None" unfolding m by code_simp
  have b: "Encode True 0 (Body ?m) = Inr [0, 0, 0, 0]" unfolding m by code_simp
  have h: "Encode True 12 [header_structs (Headers ?m)] = Inr ?h"
  proof -
    let ?s = "\<lambda>k sig v. GStruct [(True, GByte k), (True, GVariant sig v)]"
    have e: "encode (?s 5 ''u'' (GUint32 9)) True (Suc 0) 0 = Inr [5, 1, 117, 0, 9, 0, 0, 0]"
      "encode (?s 8 ''g'' (GSig ''h'')) True (Suc 0) 8 = Inr [8, 1, 103, 0, 1, 104, 0]"
      "encode (?s 9 ''u'' (GUint32 1)) True (Suc 0) 15 = Inr [0, 9, 1, 117, 0, 1, 0, 0, 0]" by code_simp+
    have p: "at_type (Slice (Struct fs)) 12 (\<lambda>p. Inr (g p)) = Inr (g 12)" for fs and g :: "nat \<Rightarrow> byte list"
      by (simp add: at_type_def pad_def ebind_def interfacesType_def)
    have z: "put_sized True 8 12 [5, 1, 117, 0, 9, 0, 0, 0, 8, 1, 103, 0, 1, 104, 0, 0, 9, 1, 117, 0, 1, 0, 0, 0] = ?h" by code_simp
    have q: "0 + length [5, 1, 117, 0, 9, 0, 0, 0 :: byte] = 8" "8 + length [8, 1, 103, 0, 1, 104, 0 :: byte] = 15" by simp_all
    have a: "encode_all [encode (?s 5 ''u'' (GUint32 9)), encode (?s 8 ''g'' (GSig ''h'')), encode (?s 9 ''u'' (GUint32 1))] True (Suc 0) 0
        = Inr [5, 1, 117, 0, 9, 0, 0, 0, 8, 1, 103, 0, 1, 104, 0, 0, 9, 1, 117, 0, 1, 0, 0, 0]"
      by (simp only: encode_all.simps ebind_def sum.case e q) simp
    have l: "encode_slice (Struct [(True, Uint8), (True, VariantT)])
        [encode (?s 5 ''u'' (GUint32 9)), encode (?s 8 ''g'' (GSig ''h'')), encode (?s 9 ''u'' (GUint32 1))] True 0
        = (\<lambda>p. Inr (put_sized True 8 p [5, 1, 117, 0, 9, 0, 0, 0, 8, 1, 103, 0, 1, 104, 0, 0, 9, 1, 117, 0, 1, 0, 0, 0]))"
      by (rule ext) (simp add: encode_slice_def a ebind_def del: encode.simps encode_all.simps)
    have hs: "header_structs (Headers ?m) = GSlice (Struct [(True, Uint8), (True, VariantT)])
        [?s 5 ''u'' (GUint32 9), ?s 8 ''g'' (GSig ''h''), ?s 9 ''u'' (GUint32 1)]"
      unfolding m by (simp add: header_structs_def message_constants)
    show ?thesis unfolding hs Encode_def list.map encode.simps(17) encode_all.simps l p z ebind_def by simp
  qed
  have f: "[msg_Type ?m, msg_Flags ?m, protoVersion] @ put True 4 (unat (of_nat (length [0, 0, 0, 0 :: byte]) :: u32))
      @ put True 4 (unat (serial ?m)) = ?f" unfolding m by code_simp
  show ?thesis
  proof (rule EncodeTo_of_parts [OF v b h])
    show "fd_bytes = order_byte True # fixed_part True ?m (length [0, 0, 0, 0 :: byte]) @ ?h @ pad 8 (12 + length ?h) @ [0, 0, 0, 0]"
      unfolding fixed_part_def f by code_simp
  qed (simp add: fd_bytes_def)
qed


theorem transport_pitfalls_witness:
  "unix_SendMessage False (Inr True) (fd_message\<lparr>msg_Type := 0, Body := []\<rparr>) = Some (None, [], [])
   \<and> put_fds 2 [7] [GFDIndex 1] = Some (Inl None)"
proof -
  have "IsValid (fd_message\<lparr>msg_Type := 0, Body := []\<rparr>) = Some ''invalid message type''" by code_simp
  moreover have "(1 :: u32) < 2 \<and> length [7 :: u32] \<le> unat (1 :: u32)" by simp
  moreover have "\<forall>v\<in>set (Body (fd_message\<lparr>msg_Type := 0, Body := []\<rparr>)). typeOf v \<noteq> UnixFD" by simp
  ultimately show ?thesis
    using transport_pitfalls [of False "Inr []" 1 2 "[7]" "[]" "fd_message\<lparr>msg_Type := 0, Body := []\<rparr>" "''invalid message type''"
      "Inr True" "\<lambda>k. Some (Inl ExitError)"] by blast
qed

end
