(* ===== verification/DbusConn.thy ===== *)
theory DbusConn
  imports DbusMessage
begin

text \<open>
  The connections of the vendored package \<open>github.com/godbus/dbus\<close> (\<open>conn.go\<close>, \<open>call.go\<close>, \<open>export.go\<close>):
  method calls that wait for their replies, the two workers, the names and signals of a connection,
  and the objects it exports. An operation is one step on the state of the connection; the
  goroutines are a sequence of such steps. The channel of the messages to be sent is a list, and a
  send on it waits until there is room. \<open>None\<close> is a panic, or a goroutine that waits forever.
\<close>

section \<open>The state\<close>

datatype call_error = ErrClosed | ErrorReply string "gval list" | SendFailed error | ReadFailed msg_error

text \<open>A pending or completed call; \<open>c_Done\<close> is the number of times it was sent on its channel.\<close>

record Call =
  c_Destination :: string
  c_Path :: string
  c_Method :: string
  c_Args :: "gval list"
  c_Err :: "call_error option"
  c_Body :: "gval list"
  c_Done :: nat

record Signal =
  s_Sender :: string
  s_Path :: string
  s_Name :: string
  s_Body :: "gval list"

text \<open>
  The connection. \<open>objs\<close> are the calls that were made, in their order, and \<open>calls\<close> maps serials to
  their positions. The channels of \<open>Signal\<close> and \<open>Eavesdrop\<close> are numbers; \<open>delivered\<close> and \<open>overheard\<close>
  are what was sent on them, \<open>shut\<close> and \<open>shutEaves\<close> those that were closed, and \<open>handling\<close> the messages
  \<open>handleCall\<close> was started with. The exported objects are of any type; \<open>locked\<close> is the lock of their
  map. The other locks are held only inside of an operation.
\<close>

record 'o BusConn =
  objs :: "Call list"
  calls :: "(u32 \<times> nat) list"
  nextSerial :: u32
  serialUsed :: "u32 \<rightharpoonup> bool"
  out :: "Message list"
  closed :: bool
  names :: "string list"
  signals :: "nat list"
  eavesdropped :: "nat option"
  handlers :: "(string \<times> (string \<times> 'o) list) list"
  locked :: bool
  delivered :: "(nat \<times> Signal) list"
  overheard :: "(nat \<times> Message) list"
  handling :: "Message list"
  shut :: "nat list"
  shutEaves :: "nat option"

definition newConn :: "'o BusConn" where
  "newConn = \<lparr>objs = [], calls = [], nextSerial = 1, serialUsed = [0 \<mapsto> True], out = [], closed = False, names = [],
     signals = [], eavesdropped = None, handlers = [], locked = False, delivered = [], overheard = [], handling = [],
     shut = [], shutEaves = None\<rparr>"

section \<open>Serials\<close>

partial_function (option) find_serial :: "(u32 \<rightharpoonup> bool) \<Rightarrow> u32 \<Rightarrow> u32 option" where
  "find_serial used n = (if get_bool used n then find_serial used (n + 1) else Some n)"

declare find_serial.simps [code]

definition getSerial :: "'o BusConn \<Rightarrow> (u32 \<times> 'o BusConn) option" where
  "getSerial c =
     map_option (\<lambda>n. (n, c\<lparr>serialUsed := (serialUsed c)(n \<mapsto> True), nextSerial := n + 1\<rparr>))
       (find_serial (serialUsed c) (nextSerial c))"

definition freeSerial :: "u32 \<Rightarrow> 'o BusConn \<Rightarrow> 'o BusConn" where
  "freeSerial n c = c\<lparr>serialUsed := (serialUsed c)(n := None)\<rparr>"

section \<open>Messages to send\<close>

text \<open>The signature header of a body, if there is one.\<close>

definition signature_header :: "gval list \<Rightarrow> (byte \<times> string \<times> gval) list option" where
  "signature_header body =
     (if body = [] then Some []
      else map_option (\<lambda>s. [(FieldSignature, ''g'', GSig s)]) (SignatureOf (map typeOf body)))"

text \<open>\<open>conn.out <- msg\<close> unless the connection is closed.\<close>

definition enqueue :: "Message \<Rightarrow> 'o BusConn \<Rightarrow> 'o BusConn" where
  "enqueue msg c = (if closed c then c else c\<lparr>out := out c @ [msg]\<rparr>)"

text \<open>What \<open>x, _ := v.(string)\<close> gives for a header, and the same for a path.\<close>

definition header_string :: "Message \<Rightarrow> byte \<Rightarrow> string" where
  "header_string msg k = (case map_of (Headers msg) k of Some (s, GString x) \<Rightarrow> x | _ \<Rightarrow> '''')"

definition header_path :: "Message \<Rightarrow> byte \<Rightarrow> string" where
  "header_path msg k = (case map_of (Headers msg) k of Some (s, GPath x) \<Rightarrow> x | _ \<Rightarrow> '''')"

definition has_string :: "Message \<Rightarrow> byte \<Rightarrow> bool" where
  "has_string msg k = (case map_of (Headers msg) k of Some (s, GString x) \<Rightarrow> True | _ \<Rightarrow> False)"

definition has_path :: "Message \<Rightarrow> byte \<Rightarrow> bool" where
  "has_path msg k = (case map_of (Headers msg) k of Some (s, GPath x) \<Rightarrow> True | _ \<Rightarrow> False)"

section \<open>Calls\<close>

text \<open>A call is complete: its fields are set and it is sent on its channel.\<close>

definition complete :: "nat \<Rightarrow> (Call \<Rightarrow> Call) \<Rightarrow> 'o BusConn \<Rightarrow> 'o BusConn" where
  "complete i f c = c\<lparr>objs := (objs c)[i := (f (objs c ! i))\<lparr>c_Done := Suc (c_Done (objs c ! i))\<rparr>]\<rparr>"

text \<open>The result of \<open>Send\<close> and \<open>Go\<close>: a call that waits for its reply, or one of which only the error counts.\<close>

datatype call_ref = Pending nat | Detached "call_error option"

text \<open>A new call is entered under the serial of its message, and the message goes out.\<close>

definition register :: "Call \<Rightarrow> Message \<Rightarrow> 'o BusConn \<Rightarrow> call_ref \<times> 'o BusConn" where
  "register call msg c =
     (let i = length (objs c);
          c1 = c\<lparr>objs := objs c @ [call], calls := AList.update (serial msg) i (calls c)\<rparr>
      in (Pending i, if closed c then complete i (\<lambda>x. x\<lparr>c_Err := Some ErrClosed\<rparr>) c1 else enqueue msg c1))"

text \<open>
  \<open>Send\<close>; \<open>room\<close> is the capacity of the channel that was given, if one was. A message is sent without
  a call when it is no method call or no reply is expected.
\<close>

definition wants_reply :: "Message \<Rightarrow> bool" where
  "wants_reply msg \<longleftrightarrow> msg_Type msg = TypeMethodCall \<and> and (msg_Flags msg) 1 = 0"

definition Send :: "Message \<Rightarrow> nat option \<Rightarrow> 'o BusConn \<Rightarrow> (call_ref \<times> 'o BusConn) option" where
  "Send msg room c =
     (case getSerial c of
        None \<Rightarrow> None
      | Some (n, c) \<Rightarrow>
          let msg = msg\<lparr>serial := n\<rparr> in
          if wants_reply msg then
            (if room = Some 0 then None
             else Some (register \<lparr>c_Destination = header_string msg FieldDestination, c_Path = header_path msg FieldPath,
                    c_Method = header_string msg FieldInterface @ ''.'' @ header_string msg FieldMember, c_Args = Body msg,
                    c_Err = None, c_Body = [], c_Done = 0\<rparr> msg c))
          else Some (Detached (if closed c then Some ErrClosed else None), enqueue msg c))"

text \<open>\<open>Go\<close> on the object at a path of a destination.\<close>

definition call_message :: "string \<Rightarrow> string \<Rightarrow> string \<Rightarrow> byte \<Rightarrow> gval list \<Rightarrow> u32 \<Rightarrow> (string \<times> Message) option" where
  "call_message dest path meth flags args n =
     (let iface = (case LastIndex meth (CHR ''.'') of None \<Rightarrow> '''' | Some i \<Rightarrow> take i meth);
          meth = (case LastIndex meth (CHR ''.'') of None \<Rightarrow> meth | Some i \<Rightarrow> drop (i + 1) meth)
      in map_option (\<lambda>sig. (meth, \<lparr>msg_Type = TypeMethodCall, msg_Flags = and flags 3,
           Headers = [(FieldPath, ''o'', GPath path), (FieldDestination, ''s'', GString dest), (FieldMember, ''s'', GString meth)]
             @ (if iface = '''' then [] else [(FieldInterface, ''s'', GString iface)]) @ sig,
           Body = args, serial = n\<rparr>)) (signature_header args))"

definition Go :: "string \<Rightarrow> string \<Rightarrow> string \<Rightarrow> byte \<Rightarrow> nat option \<Rightarrow> gval list \<Rightarrow> 'o BusConn \<Rightarrow> (call_ref \<times> 'o BusConn) option" where
  "Go dest path meth flags room args c =
     (case getSerial c of
        None \<Rightarrow> None
      | Some (n, c) \<Rightarrow>
          (case call_message dest path meth flags args n of
             None \<Rightarrow> None
           | Some (name, msg) \<Rightarrow>
               if and (msg_Flags msg) 1 = 0 then
                 (if room = Some 0 then None
                  else Some (register \<lparr>c_Destination = dest, c_Path = path, c_Method = name, c_Args = args,
                         c_Err = None, c_Body = [], c_Done = 0\<rparr> msg c))
               else Some (Detached (if closed c then Some ErrClosed else None), enqueue msg c)))"

text \<open>\<open>GetProperty\<close>, up to its call of \<open>Properties.Get\<close>: the interface and the property of a name.\<close>

definition property_name :: "string \<Rightarrow> string + string \<times> string" where
  "property_name p =
     (case LastIndex p (CHR ''.'') of
        None \<Rightarrow> Inl (''dbus: invalid property '' @ p)
      | Some i \<Rightarrow> if i + 1 = length p then Inl (''dbus: invalid property '' @ p) else Inr (take i p, drop (i + 1) p))"

definition GetProperty :: "string \<Rightarrow> string \<Rightarrow> string \<Rightarrow> 'o BusConn \<Rightarrow> (string + (call_ref \<times> 'o BusConn)) option" where
  "GetProperty dest path p c =
     (case property_name p of
        Inl e \<Rightarrow> Some (Inl e)
      | Inr (iface, name) \<Rightarrow>
          map_option Inr (Go dest path ''org.freedesktop.DBus.Properties.Get'' 0 (Some 1) [GString iface, GString name] c))"

text \<open>The text of an error message: the first value of its body, if that is a string, or its name.\<close>

definition Error_text :: "string \<Rightarrow> gval list \<Rightarrow> string" where
  "Error_text name body = (case body of GString s # vs \<Rightarrow> s | _ \<Rightarrow> name)"

text \<open>\<open>Store\<close> of a call that is complete.\<close>

definition Call_Store :: "Call \<Rightarrow> gval list \<Rightarrow> (call_error + string + gval list) option" where
  "Call_Store call dest =
     (case c_Err call of Some e \<Rightarrow> Some (Inl e) | None \<Rightarrow> map_option Inr (Store (c_Body call) dest))"

text \<open>\<open>sendError\<close> and \<open>sendReply\<close>, with the headers in the order they are made.\<close>

definition answer_message :: "byte \<Rightarrow> string \<Rightarrow> (byte \<times> string \<times> gval) list \<Rightarrow> gval list \<Rightarrow> u32 \<Rightarrow> Message option" where
  "answer_message typ dest hs body n =
     map_option (\<lambda>sig. \<lparr>msg_Type = typ, msg_Flags = 0,
       Headers = (if dest = '''' then [] else [(FieldDestination, ''s'', GString dest)]) @ hs @ sig, Body = body, serial = n\<rparr>)
       (signature_header body)"

definition sendError :: "string \<Rightarrow> gval list \<Rightarrow> string \<Rightarrow> u32 \<Rightarrow> 'o BusConn \<Rightarrow> 'o BusConn option" where
  "sendError name body dest ser c =
     (case getSerial c of
        None \<Rightarrow> None
      | Some (n, c) \<Rightarrow>
          map_option (\<lambda>msg. enqueue msg c)
            (answer_message TypeError dest [(FieldErrorName, ''s'', GString name), (FieldReplySerial, ''u'', GUint32 ser)] body n))"

definition sendReply :: "string \<Rightarrow> u32 \<Rightarrow> gval list \<Rightarrow> 'o BusConn \<Rightarrow> 'o BusConn option" where
  "sendReply dest ser values c =
     (case getSerial c of
        None \<Rightarrow> None
      | Some (n, c) \<Rightarrow>
          map_option (\<lambda>msg. enqueue msg c)
            (answer_message TypeMethodReply dest [(FieldReplySerial, ''u'', GUint32 ser)] values n))"

section \<open>Closing\<close>

text \<open>
  \<open>Close\<close> closes the channels: that of the messages, those of the signals, each as often as it was
  registered, and the one of the eavesdropper. Closing a closed channel panics.
\<close>

definition Close :: "'o BusConn \<Rightarrow> 'o BusConn option" where
  "Close c =
     (if closed c then None
      else if \<not> distinct (signals c) then None
      else Some (c\<lparr>closed := True, shut := signals c, shutEaves := eavesdropped c\<rparr>))"

section \<open>Incoming messages\<close>

text \<open>
  The loop that drops a name while it ranges over the names: the range is over the slice as it was,
  whose array the loop moves; \<open>len\<close> is the length the names have by now.
\<close>

fun drop_name_loop :: "nat \<Rightarrow> nat \<Rightarrow> string \<Rightarrow> string list \<Rightarrow> nat \<Rightarrow> string list option" where
  "drop_name_loop i 0 name arr len = Some (take len arr)"
| "drop_name_loop i (Suc k) name arr len =
     (if arr ! i = name then
        (if len < i + 1 then None
         else drop_name_loop (i + 1) k name (take i arr @ take (len - (i + 1)) (drop (i + 1) arr) @ drop (len - 1) arr) (len - 1))
      else drop_name_loop (i + 1) k name arr len)"

definition drop_name :: "string \<Rightarrow> string list \<Rightarrow> string list option" where
  "drop_name name ns = drop_name_loop 0 (length ns) name ns (length ns)"

text \<open>Whether a message is for this connection.\<close>

definition for_us :: "Message \<Rightarrow> 'o BusConn \<Rightarrow> bool" where
  "for_us msg c \<longleftrightarrow>
     (let dest = header_string msg FieldDestination in dest = '''' \<or> names c = [] \<or> dest \<in> set (names c))"

definition in_reply :: "Message \<Rightarrow> 'o BusConn \<Rightarrow> 'o BusConn option" where
  "in_reply msg c =
     (case map_of (Headers msg) FieldReplySerial of
        Some (s, GUint32 n) \<Rightarrow>
          (case map_of (calls c) n of
             None \<Rightarrow> Some c
           | Some i \<Rightarrow>
               let c = complete i (\<lambda>x. if msg_Type msg = TypeError
                     then x\<lparr>c_Err := Some (ErrorReply (header_string msg FieldErrorName) (Body msg))\<rparr>
                     else x\<lparr>c_Body := Body msg\<rparr>) c
               in Some ((freeSerial n c)\<lparr>calls := AList.delete n (calls c)\<rparr>))
      | _ \<Rightarrow> None)"

text \<open>
  A signal goes to every registered channel that is ready for it; the loss of a name is a signal of
  the bus. The first value of the body may be missing, or no string.
\<close>

definition in_signal :: "(nat \<Rightarrow> bool) \<Rightarrow> Message \<Rightarrow> 'o BusConn \<Rightarrow> 'o BusConn option" where
  "in_signal ready msg c =
     (if \<not> (has_string msg FieldInterface \<and> has_string msg FieldMember) then None
      else let iface = header_string msg FieldInterface; member = header_string msg FieldMember;
               sender = header_string msg FieldSender;
               names' = (if iface = ''org.freedesktop.DBus'' \<and> member = ''NameLost'' \<and> sender = ''org.freedesktop.DBus'' then
                  (case Body msg of [] \<Rightarrow> None | v # vs \<Rightarrow> drop_name (case v of GString s \<Rightarrow> s | _ \<Rightarrow> '''') (names c))
                  else Some (names c))
      in case names' of
           None \<Rightarrow> None
         | Some ns \<Rightarrow>
             if \<not> has_path msg FieldPath then None
             else if set (signals c) \<inter> set (shut c) \<noteq> {} then None
             else let signal = \<lparr>s_Sender = sender, s_Path = header_path msg FieldPath, s_Name = iface @ ''.'' @ member, s_Body = Body msg\<rparr>
                  in Some (c\<lparr>names := ns, delivered := delivered c @ map (\<lambda>ch. (ch, signal)) (filter ready (signals c))\<rparr>))"

definition in_message :: "(nat \<Rightarrow> bool) \<Rightarrow> Message \<Rightarrow> 'o BusConn \<Rightarrow> 'o BusConn option" where
  "in_message ready msg c =
     (case eavesdropped c of
        Some ch \<Rightarrow>
          if shutEaves c = Some ch then None
          else Some (if ready ch then c\<lparr>overheard := overheard c @ [(ch, msg)]\<rparr> else c)
      | None \<Rightarrow>
          if \<not> for_us msg c then Some c
          else if msg_Type msg = TypeMethodReply \<or> msg_Type msg = TypeError then in_reply msg c
          else if msg_Type msg = TypeSignal then in_signal ready msg c
          else if msg_Type msg = TypeMethodCall then Some (c\<lparr>handling := handling c @ [msg]\<rparr>)
          else Some c)"

text \<open>The end of the loop: an error of the reader other than an invalid message closes the connection.\<close>

definition in_error :: "msg_error \<Rightarrow> 'o BusConn \<Rightarrow> 'o BusConn option" where
  "in_error e c =
     (case e of
        InvalidMessageError s \<Rightarrow> Some c
      | _ \<Rightarrow> map_option (\<lambda>c. foldl (\<lambda>c (n, i). complete i (\<lambda>x. x\<lparr>c_Err := Some (ReadFailed e)\<rparr>) c) c (calls c)) (Close c))"

section \<open>Outgoing messages\<close>

text \<open>A turn of \<open>outWorker\<close>: the first message is sent, with the result of \<open>SendMessage\<close>.\<close>

definition out_step :: "error option \<Rightarrow> 'o BusConn \<Rightarrow> 'o BusConn" where
  "out_step r c =
     (case out c of
        [] \<Rightarrow> c
      | msg # rest \<Rightarrow>
          let c = c\<lparr>out := rest\<rparr> in
          (case r of
             Some e \<Rightarrow>
               freeSerial (serial msg)
                 (case map_of (calls c) (serial msg) of
                    Some i \<Rightarrow> complete i (\<lambda>x. x\<lparr>c_Err := Some (SendFailed e)\<rparr>) c
                  | None \<Rightarrow> c)
           | None \<Rightarrow> if msg_Type msg \<noteq> TypeMethodCall then freeSerial (serial msg) c else c))"

section \<open>Names, channels\<close>

definition Eavesdrop :: "nat option \<Rightarrow> 'o BusConn \<Rightarrow> 'o BusConn" where
  "Eavesdrop ch c = c\<lparr>eavesdropped := ch\<rparr>"

definition Signal_register :: "nat \<Rightarrow> 'o BusConn \<Rightarrow> 'o BusConn" where
  "Signal_register ch c = c\<lparr>signals := signals c @ [ch]\<rparr>"

definition Names :: "'o BusConn \<Rightarrow> string list" where
  "Names c = names c"

text \<open>\<open>Hello\<close>, \<open>RequestName\<close> and \<open>ReleaseName\<close>, from the point where their call is complete.\<close>

definition Hello_done :: "Call \<Rightarrow> 'o BusConn \<Rightarrow> ((call_error + string) option \<times> 'o BusConn) option" where
  "Hello_done call c =
     (case Call_Store call [GString ''''] of
        None \<Rightarrow> None
      | Some (Inl e) \<Rightarrow> Some (Some (Inl e), c)
      | Some (Inr (Inl e)) \<Rightarrow> Some (Some (Inr e), c)
      | Some (Inr (Inr vs)) \<Rightarrow> Some (None, c\<lparr>names := [case hd vs of GString s \<Rightarrow> s | _ \<Rightarrow> '''']\<rparr>))"

definition RequestName_done :: "string \<Rightarrow> Call \<Rightarrow> 'o BusConn \<Rightarrow> (((call_error + string) + u32) \<times> 'o BusConn) option" where
  "RequestName_done name call c =
     (case Call_Store call [GUint32 0] of
        None \<Rightarrow> None
      | Some (Inl e) \<Rightarrow> Some (Inl (Inl e), c)
      | Some (Inr (Inl e)) \<Rightarrow> Some (Inl (Inr e), c)
      | Some (Inr (Inr vs)) \<Rightarrow>
          let r = u32_of (hd vs) in Some (Inr r, if r = 1 then c\<lparr>names := names c @ [name]\<rparr> else c))"

definition ReleaseName_done :: "string \<Rightarrow> Call \<Rightarrow> 'o BusConn \<Rightarrow> (((call_error + string) + u32) \<times> 'o BusConn) option" where
  "ReleaseName_done name call c =
     (case Call_Store call [GUint32 0] of
        None \<Rightarrow> None
      | Some (Inl e) \<Rightarrow> Some (Inl (Inl e), c)
      | Some (Inr (Inl e)) \<Rightarrow> Some (Inl (Inr e), c)
      | Some (Inr (Inr vs)) \<Rightarrow>
          let r = u32_of (hd vs) in
          if r = 1 then map_option (\<lambda>ns. (Inr r, c\<lparr>names := ns\<rparr>)) (drop_name name (names c))
          else Some (Inr r, c))"

section \<open>Exported objects\<close>

text \<open>
  An object has methods; a method has the zero values of its parameters, where \<open>None\<close> stands for one
  of type \<open>Sender\<close>, and what it returns: an error or values. Methods whose last result is no \<open>*Error\<close> are not
  there for \<open>exportedMethod\<close>.
\<close>

type_synonym meth = "gval option list \<times> (gval list \<Rightarrow> (string \<times> gval list) + gval list)"

type_synonym 'o methods = "'o \<Rightarrow> string \<Rightarrow> meth option"

definition Export :: "'o option \<Rightarrow> string \<Rightarrow> string \<Rightarrow> 'o BusConn \<Rightarrow> (string option \<times> 'o BusConn) option" where
  "Export v path iface c =
     (if \<not> ObjectPath_IsValid path then Some (Some ''dbus: invalid path name'', c)
      else if locked c then None
      else let c = c\<lparr>locked := True\<rparr>; obj = map_of (handlers c) path in
        (case v of
           None \<Rightarrow>
             Some (None, case obj of
               None \<Rightarrow> c
             | Some ifs \<Rightarrow>
                 let ifs' = AList.delete iface ifs in
                 c\<lparr>handlers := if ifs' = [] then AList.delete path (handlers c) else AList.update path ifs' (handlers c)\<rparr>)
         | Some x \<Rightarrow>
             Some (None, c\<lparr>handlers := AList.update path (AList.update iface x (case obj of None \<Rightarrow> [] | Some ifs \<Rightarrow> ifs)) (handlers c),
               locked := False\<rparr>)))"

definition Emit :: "string \<Rightarrow> string \<Rightarrow> gval list \<Rightarrow> 'o BusConn \<Rightarrow> ((call_error + string) option \<times> 'o BusConn) option" where
  "Emit path name values c =
     (if \<not> ObjectPath_IsValid path then Some (Some (Inr ''dbus: invalid object path''), c)
      else case LastIndex name (CHR ''.'') of
        None \<Rightarrow> Some (Some (Inr ''dbus: invalid method name''), c)
      | Some i \<Rightarrow>
          let iface = take i name; member = drop (i + 1) name in
          if \<not> isValidMember member then Some (Some (Inr ''dbus: invalid method name''), c)
          else if \<not> isValidInterface iface then Some (Some (Inr ''dbus: invalid interface name''), c)
          else (case getSerial c of
                  None \<Rightarrow> None
                | Some (n, c) \<Rightarrow>
                    (case signature_header values of
                       None \<Rightarrow> None
                     | Some sig \<Rightarrow>
                         Some (if closed c then Some (Inl ErrClosed) else None,
                           enqueue \<lparr>msg_Type = TypeSignal, msg_Flags = 0,
                             Headers = [(FieldInterface, ''s'', GString iface), (FieldMember, ''s'', GString member), (FieldPath, ''o'', GPath path)] @ sig,
                             Body = values, serial = n\<rparr> c))))"

text \<open>Which method a call is for: that of the interface it names, or the first the object has.\<close>

definition find_method :: "'o methods \<Rightarrow> (string \<times> 'o) list \<Rightarrow> bool \<Rightarrow> string \<Rightarrow> string \<Rightarrow> meth option" where
  "find_method ms obj hasIface iface name =
     (if hasIface then (case map_of obj iface of None \<Rightarrow> None | Some x \<Rightarrow> ms x name)
      else (case filter (\<lambda>(i, x). ms x name \<noteq> None) obj of [] \<Rightarrow> None | (i, x) # rest \<Rightarrow> ms x name))"

text \<open>The values of the parameters: the sender where it is asked for, and what was stored for the others.\<close>

fun fill_params :: "gval option list \<Rightarrow> string \<Rightarrow> gval list \<Rightarrow> gval list" where
  "fill_params [] sender vs = []"
| "fill_params (None # ps) sender vs = GString sender # fill_params ps sender vs"
| "fill_params (Some p # ps) sender (v # vs) = v # fill_params ps sender vs"
| "fill_params (Some p # ps) sender [] = p # fill_params ps sender []"

definition reply_to :: "Message \<Rightarrow> gval list \<Rightarrow> 'o BusConn \<Rightarrow> 'o BusConn option" where
  "reply_to msg ret c =
     (case getSerial c of
        None \<Rightarrow> None
      | Some (n, c) \<Rightarrow>
          (case signature_header ret of
             None \<Rightarrow> None
           | Some sig \<Rightarrow>
               Some (enqueue \<lparr>msg_Type = TypeMethodReply, msg_Flags = 0,
                 Headers = (if has_string msg FieldSender then [(FieldDestination, the (map_of (Headers msg) FieldSender))] else [])
                   @ [(FieldReplySerial, ''u'', GUint32 (serial msg))] @ sig, Body = ret, serial = n\<rparr> c)))"

text \<open>\<open>unicode.IsLower\<close> of the first letter; the names of valid messages are ASCII.\<close>

definition is_lower :: "char \<Rightarrow> bool" where
  "is_lower ch \<longleftrightarrow> 97 \<le> (of_char ch :: nat) \<and> (of_char ch :: nat) \<le> 122"

definition unknownMethod :: "string \<Rightarrow> u32 \<Rightarrow> 'o BusConn \<Rightarrow> 'o BusConn option" where
  "unknownMethod = sendError ''org.freedesktop.DBus.Error.UnknownMethod'' [GString ''Unknown / invalid method'']"

definition noObject :: "string \<Rightarrow> u32 \<Rightarrow> 'o BusConn \<Rightarrow> 'o BusConn option" where
  "noObject = sendError ''org.freedesktop.DBus.Error.NoSuchObject'' [GString ''No such object'']"

definition invalidArg :: "string \<Rightarrow> u32 \<Rightarrow> 'o BusConn \<Rightarrow> 'o BusConn option" where
  "invalidArg = sendError ''org.freedesktop.DBus.Error.InvalidArgs'' [GString ''Invalid type / number of args'']"

definition call_method :: "meth \<Rightarrow> Message \<Rightarrow> 'o BusConn \<Rightarrow> 'o BusConn option" where
  "call_method m msg c =
     (let sender = header_string msg FieldSender; decode = map the (filter (\<lambda>p. p \<noteq> None) (fst m)) in
      if length decode \<noteq> length (Body msg) then invalidArg sender (serial msg) c
      else case Store (Body msg) decode of
             None \<Rightarrow> None
           | Some (Inl e) \<Rightarrow> invalidArg sender (serial msg) c
           | Some (Inr ws) \<Rightarrow>
               (case snd m (fill_params (fst m) sender ws) of
                  Inl (name, body) \<Rightarrow> sendError name body sender (serial msg) c
                | Inr ret \<Rightarrow> if and (msg_Flags msg) 1 = 0 then reply_to msg ret c else Some c))"

definition peer_call :: "string \<Rightarrow> Message \<Rightarrow> 'o BusConn \<Rightarrow> 'o BusConn option" where
  "peer_call uuid msg c =
     (let name = header_string msg FieldMember; sender = header_string msg FieldSender in
      if name = ''Ping'' then sendReply sender (serial msg) [] c
      else if name = ''GetMachineId'' then sendReply sender (serial msg) [GString uuid] c
      else unknownMethod sender (serial msg) c)"

definition dispatch_call :: "'o methods \<Rightarrow> Message \<Rightarrow> 'o BusConn \<Rightarrow> 'o BusConn option" where
  "dispatch_call ms msg c =
     (let name = header_string msg FieldMember; sender = header_string msg FieldSender in
      if locked c then None
      else case map_of (handlers c) (header_path msg FieldPath) of
             None \<Rightarrow> noObject sender (serial msg) c
           | Some obj \<Rightarrow>
               (case find_method ms obj (has_string msg FieldInterface) (header_string msg FieldInterface) name of
                  None \<Rightarrow> unknownMethod sender (serial msg) c
                | Some m \<Rightarrow> call_method m msg c))"

text \<open>After the error for a name that cannot be a method there is no return.\<close>

definition handleCall :: "'o methods \<Rightarrow> string \<Rightarrow> Message \<Rightarrow> 'o BusConn \<Rightarrow> 'o BusConn option" where
  "handleCall ms uuid msg c =
     (if \<not> (has_string msg FieldMember \<and> has_path msg FieldPath) then None
      else if header_string msg FieldInterface = ''org.freedesktop.DBus.Peer'' then peer_call uuid msg c
      else let name = header_string msg FieldMember in
        (case (if name = '''' \<or> is_lower (hd name) then unknownMethod (header_string msg FieldSender) (serial msg) c else Some c) of
           None \<Rightarrow> None
         | Some c \<Rightarrow> dispatch_call ms msg c))"

end
