(* ===== verification/DbusCalls.thy ===== *)
theory DbusCalls
  imports DbusConn
begin

text \<open>
  What holds of the connections of \<open>DbusConn\<close>: a serial is not in use when it is given out and stays in
  use while a call waits for its reply, so that a reply completes the call it is for; messages that
  were accepted do not make the reader panic; and what goes wrong when a connection is closed, an
  object is withdrawn or a call names no method.
\<close>

section \<open>Serials\<close>

lemma find_serial_unused:
  assumes "find_serial used n = Some k"
  shows "\<not> get_bool used k"
  by (rule find_serial.raw_induct [OF _ assms]) (auto split: if_split_asm)

lemma find_serial_reaches: "\<not> get_bool used (n + of_nat k) \<Longrightarrow> find_serial used n \<noteq> None"
proof (induction k arbitrary: n)
  case 0
  then show ?case by (subst find_serial.simps) simp
next
  case (Suc k)
  then have "find_serial used (n + 1) \<noteq> None" by (simp add: algebra_simps)
  then show ?case by (subst find_serial.simps) auto
qed

lemma find_serial_returns: "find_serial used n \<noteq> None \<longleftrightarrow> (\<exists>k. \<not> get_bool used k)"
proof
  assume "find_serial used n \<noteq> None"
  then show "\<exists>k. \<not> get_bool used k" using find_serial_unused by blast
next
  assume "\<exists>k. \<not> get_bool used k"
  then obtain k where "\<not> get_bool used k" by blast
  then have "\<not> get_bool used (n + of_nat (unat (k - n)))" by simp
  then show "find_serial used n \<noteq> None" by (rule find_serial_reaches)
qed

lemma getSerial_Some:
  "getSerial c = Some (n, c') \<longleftrightarrow>
     find_serial (serialUsed c) (nextSerial c) = Some n
     \<and> c' = c\<lparr>serialUsed := (serialUsed c)(n \<mapsto> True), nextSerial := n + 1\<rparr>"
  by (auto simp: getSerial_def)

section \<open>The calls that wait\<close>

text \<open>
  A call waits while it was never sent on its channel. It is then registered under one serial, which is
  in use; the serials of the messages to be sent are in use as well, and different; and a message
  that will free its serial has no waiting call under it.
\<close>

definition conn_inv :: "'o BusConn \<Rightarrow> bool" where
  "conn_inv c \<longleftrightarrow>
     get_bool (serialUsed c) 0
     \<and> (\<forall>(n, i)\<in>set (calls c). i < length (objs c) \<and> n \<noteq> 0 \<and> (c_Done (objs c ! i) = 0 \<longrightarrow> get_bool (serialUsed c) n))
     \<and> distinct (map fst (calls c)) \<and> distinct (map snd (calls c))
     \<and> (\<forall>i<length (objs c). c_Done (objs c ! i) = 0 \<longrightarrow> i \<in> snd ` set (calls c))
     \<and> distinct (map serial (out c)) \<and> (\<forall>m\<in>set (out c). serial m \<noteq> 0 \<and> get_bool (serialUsed c) (serial m))
     \<and> (\<forall>m\<in>set (out c). msg_Type m \<noteq> TypeMethodCall \<longrightarrow>
          (\<forall>i. (serial m, i) \<in> set (calls c) \<longrightarrow> c_Done (objs c ! i) > 0))
     \<and> (closed c \<or> shut c = [] \<and> shutEaves c = None)"

lemma conn_invI:
  assumes "get_bool (serialUsed c) 0" and "distinct (map fst (calls c))" and "distinct (map snd (calls c))"
    and "\<And>n i. (n, i) \<in> set (calls c) \<Longrightarrow> i < length (objs c) \<and> n \<noteq> 0 \<and> (c_Done (objs c ! i) = 0 \<longrightarrow> get_bool (serialUsed c) n)"
    and "\<And>i. i < length (objs c) \<Longrightarrow> c_Done (objs c ! i) = 0 \<Longrightarrow> i \<in> snd ` set (calls c)"
    and "distinct (map serial (out c))" and "\<And>m. m \<in> set (out c) \<Longrightarrow> serial m \<noteq> 0 \<and> get_bool (serialUsed c) (serial m)"
    and "\<And>m i. m \<in> set (out c) \<Longrightarrow> msg_Type m \<noteq> TypeMethodCall \<Longrightarrow> (serial m, i) \<in> set (calls c) \<Longrightarrow> c_Done (objs c ! i) > 0"
    and "closed c \<or> shut c = [] \<and> shutEaves c = None"
  shows "conn_inv c"
  unfolding conn_inv_def using assms by (intro conjI ballI allI impI; (clarify)?; simp)

lemma conn_invD:
  assumes "conn_inv c"
  shows "get_bool (serialUsed c) 0" and "distinct (map fst (calls c))" and "distinct (map snd (calls c))"
    and "(n, i) \<in> set (calls c) \<Longrightarrow> i < length (objs c) \<and> n \<noteq> 0 \<and> (c_Done (objs c ! i) = 0 \<longrightarrow> get_bool (serialUsed c) n)"
    and "i < length (objs c) \<Longrightarrow> c_Done (objs c ! i) = 0 \<Longrightarrow> i \<in> snd ` set (calls c)"
    and "distinct (map serial (out c))" and "m \<in> set (out c) \<Longrightarrow> serial m \<noteq> 0 \<and> get_bool (serialUsed c) (serial m)"
    and "m \<in> set (out c) \<Longrightarrow> msg_Type m \<noteq> TypeMethodCall \<Longrightarrow> (serial m, i) \<in> set (calls c) \<Longrightarrow> c_Done (objs c ! i) > 0"
    and "closed c \<or> shut c = [] \<and> shutEaves c = None"
  using assms unfolding conn_inv_def by (simp_all add: split_beta) force+

lemma newConn_inv: "conn_inv newConn"
  by (simp add: conn_inv_def newConn_def)

lemma set_update_distinct:
  "distinct (map fst al) \<Longrightarrow> (k, v) \<in> set (AList.update n i al) \<longleftrightarrow> (if k = n then v = i else (k, v) \<in> set al)"
  by (induction al) (auto simp: image_iff)

lemma distinct_snd_update:
  "distinct (map snd al) \<Longrightarrow> i \<notin> snd ` set al \<Longrightarrow> distinct (map snd (AList.update n i al))"
proof (induction al)
  case (Cons p al)
  have "snd ` set (AList.update n i al) \<subseteq> insert i (snd ` set al)"
    by (induction al) auto
  with Cons show ?case by (cases p) auto
qed simp

lemma snd_update_keeps:
  "distinct (map fst al) \<Longrightarrow> j \<in> snd ` set al \<Longrightarrow> (n, j) \<notin> set al \<Longrightarrow> j \<in> snd ` set (AList.update n i al)"
  by (auto simp: image_iff set_update_distinct)

text \<open>What a new serial is, and what it does to the connection.\<close>

lemma getSerial_conn:
  assumes "getSerial c = Some (n, c')"
  shows "\<not> get_bool (serialUsed c) n" and "serialUsed c' = (serialUsed c)(n \<mapsto> True)" and "objs c' = objs c"
    and "calls c' = calls c" and "out c' = out c" and "closed c' = closed c" and "shut c' = shut c" and "shutEaves c' = shutEaves c"
  using assms find_serial_unused by (auto simp: getSerial_Some)

lemma getSerial_inv:
  assumes inv: "conn_inv c" and get: "getSerial c = Some (n, c')"
  shows "conn_inv c'" and "n \<noteq> 0" and "get_bool (serialUsed c') n" and "n \<notin> serial ` set (out c')"
    and "\<forall>i. (n, i) \<in> set (calls c') \<longrightarrow> c_Done (objs c' ! i) > 0"
proof -
  note g = getSerial_conn [OF get]
  show "conn_inv c'" using inv unfolding conn_inv_def g by (simp add: split_beta)
  show "n \<noteq> 0" using g(1) inv by (auto simp: conn_inv_def)
  show "get_bool (serialUsed c') n" by (simp add: g)
  show "n \<notin> serial ` set (out c')" using g(1) inv by (auto simp: g(2-5) conn_inv_def)
  show "\<forall>i. (n, i) \<in> set (calls c') \<longrightarrow> c_Done (objs c' ! i) > 0" using g(1) inv by (fastforce simp: g(2-5) conn_inv_def)
qed

lemma enqueue_inv:
  assumes "conn_inv c" and "serial msg \<noteq> 0" and "get_bool (serialUsed c) (serial msg)" and "serial msg \<notin> serial ` set (out c)"
    and "msg_Type msg \<noteq> TypeMethodCall \<longrightarrow> (\<forall>i. (serial msg, i) \<in> set (calls c) \<longrightarrow> c_Done (objs c ! i) > 0)"
  shows "conn_inv (enqueue msg c)"
  using assms unfolding conn_inv_def enqueue_def by (simp add: split_beta ball_Un) blast

text \<open>A message with a new serial may be sent, unless it is a call that waits.\<close>

lemma send_inv: "conn_inv c \<Longrightarrow> getSerial c = Some (serial msg, c') \<Longrightarrow> conn_inv (enqueue msg c')"
  using getSerial_inv by (intro enqueue_inv) blast+

text \<open>Calls are only completed, never made to wait again.\<close>

lemma nth_list_update': "xs[i := x] ! j = (if i = j \<and> j < length xs then x else xs ! j)"
  by (cases "i < length xs") (auto simp: nth_list_update list_update_beyond)

lemma complete_inv:
  assumes "conn_inv c"
  shows "conn_inv (complete i f c)"
proof -
  have "c_Done ((objs c)[i := (f (objs c ! i))\<lparr>c_Done := Suc (c_Done (objs c ! i))\<rparr>] ! j) = 0 \<Longrightarrow> c_Done (objs c ! j) = 0"
    and "0 < c_Done (objs c ! j) \<Longrightarrow> 0 < c_Done ((objs c)[i := (f (objs c ! i))\<lparr>c_Done := Suc (c_Done (objs c ! i))\<rparr>] ! j)"
    for j by (auto simp: nth_list_update' split: if_splits)
  with assms show ?thesis unfolding conn_inv_def complete_def by (simp add: split_beta)
qed

lemma register_inv:
  assumes inv: "conn_inv c" and get: "getSerial c = Some (serial msg, c')"
    and mt: "msg_Type msg = TypeMethodCall" and nc: "c_Done call = 0"
  shows "conn_inv (snd (register call msg c'))"
proof -
  note g = getSerial_inv [OF inv get]
  let ?i = "length (objs c')" and ?n = "serial msg"
  let ?c1 = "c'\<lparr>objs := objs c' @ [call], calls := AList.update ?n ?i (calls c')\<rparr>"
  have d: "distinct (map fst (calls c'))" "distinct (map snd (calls c'))" using g(1) by (auto simp: conn_inv_def)
  have b: "i < ?i" if "(n, i) \<in> set (calls c')" for n i using that g(1) by (auto simp: conn_inv_def)
  then have fresh: "?i \<notin> snd ` set (calls c')" by fastforce
  note u = set_update_distinct [OF d(1), of _ _ ?n ?i]
  have k: "j \<in> snd ` set (AList.update ?n ?i (calls c'))" if "j < Suc ?i" "c_Done ((objs c' @ [call]) ! j) = 0" for j
  proof (cases "j = ?i")
    case True
    then show ?thesis using u [of ?n ?i] by (force simp: image_iff)
  next
    case False
    with that have j: "j < ?i" "c_Done (objs c' ! j) = 0" by (simp_all add: nth_append)
    then have "j \<in> snd ` set (calls c')" using g(1) by (auto simp: conn_inv_def)
    moreover have "(?n, j) \<notin> set (calls c')" using j g(5) by fastforce
    ultimately show ?thesis by (rule snd_update_keeps [OF d(1)])
  qed
  have "conn_inv ?c1"
  proof (rule conn_invI)
    fix n i assume "(n, i) \<in> set (calls ?c1)"
    then show "i < length (objs ?c1) \<and> n \<noteq> 0 \<and> (c_Done (objs ?c1 ! i) = 0 \<longrightarrow> get_bool (serialUsed ?c1) n)"
      using g(2,3) b conn_invD(4) [OF g(1), of n i] by (auto simp: u nth_append split: if_splits)
  next
    fix m i assume "m \<in> set (out ?c1)" "msg_Type m \<noteq> TypeMethodCall" "(serial m, i) \<in> set (calls ?c1)"
    then show "c_Done (objs ?c1 ! i) > 0"
      using g(4) b conn_invD(8) [OF g(1), of m i] by (auto simp: u nth_append image_iff split: if_splits)
  qed (use k conn_invD [OF g(1)] in \<open>simp_all add: AList.distinct_update distinct_snd_update [OF d(2) fresh]\<close>)
  moreover have "conn_inv (enqueue msg ?c1)"
    using calculation g mt by (intro enqueue_inv) auto
  ultimately show ?thesis by (simp add: register_def Let_def complete_inv)
qed

text \<open>
  What an operation does to the calls: none is forgotten, a complete one stays complete, and one that
  waits stays under its serial.
\<close>

definition goes_on :: "'o BusConn \<Rightarrow> 'o BusConn \<Rightarrow> bool" where
  "goes_on c c' \<longleftrightarrow> conn_inv c' \<and> length (objs c) \<le> length (objs c')
     \<and> (\<forall>i<length (objs c). c_Done (objs c ! i) \<le> c_Done (objs c' ! i)
          \<and> (c_Done (objs c' ! i) = 0 \<longrightarrow> (\<forall>n. (n, i) \<in> set (calls c) \<longrightarrow> (n, i) \<in> set (calls c'))))"

lemma goes_on_same:
  "conn_inv c \<Longrightarrow> objs c' = objs c \<Longrightarrow> calls c' = calls c \<Longrightarrow> serialUsed c' = serialUsed c \<Longrightarrow> out c' = out c
    \<Longrightarrow> closed c' \<or> \<not> closed c \<and> shut c' = shut c \<and> shutEaves c' = shutEaves c \<Longrightarrow> goes_on c c'"
  unfolding goes_on_def conn_inv_def by (elim conjE disjE) simp_all

lemma goes_on_refl: "conn_inv c \<Longrightarrow> goes_on c c"
  by (simp add: goes_on_def)

lemma goes_on_trans:
  assumes "goes_on a b" and "goes_on b c"
  shows "goes_on a c"
proof -
  have "c_Done (objs a ! i) \<le> c_Done (objs c ! i)
      \<and> (c_Done (objs c ! i) = 0 \<longrightarrow> (\<forall>n. (n, i) \<in> set (calls a) \<longrightarrow> (n, i) \<in> set (calls c)))" if "i < length (objs a)" for i
  proof -
    have "c_Done (objs a ! i) \<le> c_Done (objs b ! i)" "c_Done (objs b ! i) \<le> c_Done (objs c ! i)"
      "c_Done (objs b ! i) = 0 \<longrightarrow> (\<forall>n. (n, i) \<in> set (calls a) \<longrightarrow> (n, i) \<in> set (calls b))"
      "c_Done (objs c ! i) = 0 \<longrightarrow> (\<forall>n. (n, i) \<in> set (calls b) \<longrightarrow> (n, i) \<in> set (calls c))"
      using that assms by (auto simp: goes_on_def)
    then show ?thesis by auto
  qed
  then show ?thesis using assms by (simp add: goes_on_def)
qed

lemma goes_on_inv: "goes_on c c' \<Longrightarrow> conn_inv c'"
  by (simp add: goes_on_def)

lemma send_goes_on: "conn_inv c \<Longrightarrow> getSerial c = Some (serial msg, c') \<Longrightarrow> goes_on c (enqueue msg c')"
  using send_inv [of c msg c'] getSerial_conn [of c "serial msg" c'] by (simp add: goes_on_def enqueue_def)

lemma complete_goes_on: "conn_inv c \<Longrightarrow> goes_on c (complete i f c)"
  using complete_inv [of c i f] by (simp add: goes_on_def complete_def nth_list_update')

lemma register_goes_on:
  assumes inv: "conn_inv c" and get: "getSerial c = Some (serial msg, c')"
    and mt: "msg_Type msg = TypeMethodCall" and nc: "c_Done call = 0"
  shows "goes_on c (snd (register call msg c'))"
proof -
  note g = getSerial_conn [OF get]
  have "(n, i) \<in> set (AList.update (serial msg) (length (objs c)) (calls c))"
    if "i < length (objs c)" "(n, i) \<in> set (calls c)" "c_Done (objs c ! i) = 0" for n i
    using that conn_invD(4) [OF inv, of n i] g(1) by (auto simp: set_update_distinct conn_invD(2) [OF inv])
  then show ?thesis
    using register_inv [OF inv get mt nc] unfolding goes_on_def register_def
    by (auto simp: Let_def g complete_def enqueue_def nth_append nth_list_update')
qed

text \<open>A serial that no waiting call and no message has can be given back, and its call forgotten.\<close>

lemma freeSerial_goes_on:
  assumes inv: "conn_inv c" and n: "n \<noteq> 0" "n \<notin> serial ` set (out c)" and w: "\<And>i. (n, i) \<in> set (calls c) \<Longrightarrow> c_Done (objs c ! i) > 0"
  shows "goes_on c (freeSerial n c)"
proof -
  have "conn_inv (freeSerial n c)"
  proof (rule conn_invI)
    fix k i assume "(k, i) \<in> set (calls (freeSerial n c))"
    then show "i < length (objs (freeSerial n c)) \<and> k \<noteq> 0
        \<and> (c_Done (objs (freeSerial n c) ! i) = 0 \<longrightarrow> get_bool (serialUsed (freeSerial n c)) k)"
      using conn_invD(4) [OF inv, of k i] w [of i] by (auto simp: freeSerial_def get_bool_def)
  next
    fix m assume "m \<in> set (out (freeSerial n c))"
    then show "serial m \<noteq> 0 \<and> get_bool (serialUsed (freeSerial n c)) (serial m)"
      using conn_invD(7) [OF inv, of m] n by (auto simp: freeSerial_def get_bool_def)
  qed (use conn_invD [OF inv] n in \<open>simp_all add: freeSerial_def get_bool_def\<close>)
  then show ?thesis by (simp add: goes_on_def freeSerial_def)
qed

lemma forget_goes_on:
  assumes inv: "conn_inv c" and w: "\<And>i. (n, i) \<in> set (calls c) \<Longrightarrow> c_Done (objs c ! i) > 0"
  shows "goes_on c (c\<lparr>calls := AList.delete n (calls c)\<rparr>)"
proof -
  have "conn_inv (c\<lparr>calls := AList.delete n (calls c)\<rparr>)"
  proof (rule conn_invI)
    fix i assume "i < length (objs (c\<lparr>calls := AList.delete n (calls c)\<rparr>))" "c_Done (objs (c\<lparr>calls := AList.delete n (calls c)\<rparr>) ! i) = 0"
    then show "i \<in> snd ` set (calls (c\<lparr>calls := AList.delete n (calls c)\<rparr>))"
      using conn_invD(5) [OF inv, of i] w by (force simp: AList.delete_eq)
  qed (use conn_invD [OF inv] in \<open>auto simp: AList.delete_eq distinct_map_filter\<close>)
  then show ?thesis using w by (fastforce simp: goes_on_def AList.delete_eq)
qed

lemma calls_unique:
  "conn_inv c \<Longrightarrow> map_of (calls c) n = Some i \<Longrightarrow> (n, j) \<in> set (calls c) \<Longrightarrow> j = i"
  by (simp add: conn_invD(2))

text \<open>A reply completes the call that it is for, if there is one, and its serial is free again.\<close>

lemma in_reply_goes_on:
  assumes inv: "conn_inv c" and r: "in_reply msg c = Some c'"
    and sent: "\<And>s n. map_of (Headers msg) FieldReplySerial = Some (s, GUint32 n) \<Longrightarrow> n \<notin> serial ` set (out c)"
  shows "goes_on c c'"
proof -
  from r obtain s n where hd: "map_of (Headers msg) FieldReplySerial = Some (s, GUint32 n)"
    by (auto simp: in_reply_def split: option.splits gval.splits)
  show ?thesis
  proof (cases "map_of (calls c) n")
    case None
    with r hd inv show ?thesis by (simp add: in_reply_def goes_on_refl)
  next
    case (Some i)
    let ?f = "\<lambda>x. if msg_Type msg = TypeError
      then x\<lparr>c_Err := Some (ErrorReply (header_string msg FieldErrorName) (Body msg))\<rparr> else x\<lparr>c_Body := Body msg\<rparr>"
    let ?c1 = "complete i ?f c" and ?c2 = "freeSerial n (complete i ?f c)"
    have c': "c' = ?c2\<lparr>calls := AList.delete n (calls ?c2)\<rparr>"
      using r hd Some by (simp add: in_reply_def freeSerial_def Let_def)
    have i: "i < length (objs c)" "n \<noteq> 0" using conn_invD(4) [OF inv, of n i] Some by (auto dest: map_of_SomeD)
    have w: "c_Done (objs ?c1 ! j) > 0" if "(n, j) \<in> set (calls c)" for j
      using calls_unique [OF inv Some that] i by (simp add: complete_def)
    have g1: "goes_on c ?c1" using inv by (rule complete_goes_on)
    have g2: "goes_on ?c1 ?c2" using goes_on_inv [OF g1] i(2) sent [OF hd] w
      by (intro freeSerial_goes_on) (simp_all add: complete_def)
    have g3: "goes_on ?c2 c'" unfolding c' using goes_on_inv [OF g2] w
      by (intro forget_goes_on) (simp_all add: complete_def freeSerial_def)
    from goes_on_trans [OF goes_on_trans [OF g1 g2] g3] show ?thesis .
  qed
qed

text \<open>A turn of the writer frees only serials under which no call waits.\<close>

lemma out_rest_goes_on: "conn_inv c \<Longrightarrow> out c = msg # rest \<Longrightarrow> goes_on c (c\<lparr>out := rest\<rparr>)"
  by (simp add: goes_on_def conn_inv_def)

lemma out_step_goes_on:
  assumes inv: "conn_inv c"
  shows "goes_on c (out_step r c)"
proof (cases "out c")
  case Nil
  with inv show ?thesis by (simp add: out_step_def goes_on_refl)
next
  case (Cons msg rest)
  let ?c = "c\<lparr>out := rest\<rparr>" and ?n = "serial msg"
  have g: "goes_on c ?c" by (rule out_rest_goes_on [OF inv Cons])
  note inv' = goes_on_inv [OF g]
  have n: "?n \<noteq> 0" "?n \<notin> serial ` set rest" using conn_invD(6) [OF inv] conn_invD(7) [OF inv, of msg] by (auto simp: Cons)
  show ?thesis
  proof (cases r)
    case None
    show ?thesis
    proof (cases "msg_Type msg = TypeMethodCall")
      case False
      then have "goes_on ?c (freeSerial ?n ?c)"
        using conn_invD(8) [OF inv, of msg] n by (intro freeSerial_goes_on [OF inv']) (simp_all add: Cons)
      with g False None Cons show ?thesis by (auto simp: out_step_def Let_def intro: goes_on_trans)
    qed (use g None Cons in \<open>simp add: out_step_def Let_def\<close>)
  next
    case (Some e)
    show ?thesis
    proof (cases "map_of (calls c) ?n")
      case None
      then have "goes_on ?c (freeSerial ?n ?c)"
        using n by (intro freeSerial_goes_on [OF inv']) (auto simp: map_of_eq_None_iff image_iff)
      with g None Some Cons show ?thesis by (auto simp: out_step_def Let_def intro: goes_on_trans)
    next
      case (Some i)
      let ?d = "complete i (\<lambda>x. x\<lparr>c_Err := Some (SendFailed e)\<rparr>) ?c"
      have i: "i < length (objs c)" using conn_invD(4) [OF inv, of ?n i] Some by (auto dest: map_of_SomeD)
      have g': "goes_on ?c ?d" by (rule complete_goes_on [OF inv'])
      have "goes_on ?d (freeSerial ?n ?d)"
        using n calls_unique [OF inv Some] i by (intro freeSerial_goes_on [OF goes_on_inv [OF g']]) (auto simp: complete_def)
      with goes_on_trans [OF g g'] \<open>r = Some e\<close> Some Cons show ?thesis
        by (auto simp: out_step_def Let_def intro: goes_on_trans)
    qed
  qed
qed

lemma Close_goes_on: "conn_inv c \<Longrightarrow> Close c = Some c' \<Longrightarrow> goes_on c c'"
  by (auto simp: Close_def split: if_splits intro: goes_on_same)

lemma in_error_goes_on:
  assumes inv: "conn_inv c" and r: "in_error e c = Some c'"
  shows "goes_on c c'"
proof -
  have fold: "goes_on d (foldl (\<lambda>c (n, i). complete i f c) d ps)" if "conn_inv d" for d ps and f :: "Call \<Rightarrow> Call"
    using that
  proof (induction ps arbitrary: d)
    case (Cons p ps)
    from complete_goes_on [OF Cons.prems] Cons.IH [OF complete_inv [OF Cons.prems]] show ?case
      by (cases p) (simp, blast intro: goes_on_trans)
  qed (simp add: goes_on_refl)
  show ?thesis
  proof (cases "\<exists>s. e = InvalidMessageError s")
    case True
    with inv r show ?thesis by (auto simp: in_error_def goes_on_refl)
  next
    case False
    with r obtain d where "Close c = Some d" "c' = foldl (\<lambda>c (n, i). complete i (\<lambda>x. x\<lparr>c_Err := Some (ReadFailed e)\<rparr>) c) d (calls d)"
      by (auto simp: in_error_def split: msg_error.splits)
    then show ?thesis using fold Close_goes_on [OF inv] goes_on_inv by (blast intro: goes_on_trans)
  qed
qed

section \<open>Operations that send\<close>

lemma sends_goes_on:
  "conn_inv c \<Longrightarrow> getSerial c = Some (n, c1) \<Longrightarrow> serial msg = n \<Longrightarrow> goes_on c (enqueue msg c1)"
  using send_goes_on by blast

lemma sendError_goes_on: "conn_inv c \<Longrightarrow> sendError name body dest ser c = Some c' \<Longrightarrow> goes_on c c'"
  by (auto simp: sendError_def answer_message_def split: option.splits intro!: sends_goes_on)

lemma sendReply_goes_on: "conn_inv c \<Longrightarrow> sendReply dest ser vs c = Some c' \<Longrightarrow> goes_on c c'"
  by (auto simp: sendReply_def answer_message_def split: option.splits intro!: sends_goes_on)

lemma reply_to_goes_on: "conn_inv c \<Longrightarrow> reply_to msg ret c = Some c' \<Longrightarrow> goes_on c c'"
  by (auto simp: reply_to_def split: option.splits intro!: sends_goes_on)

lemma Emit_goes_on: "conn_inv c \<Longrightarrow> Emit path name vs c = Some (r, c') \<Longrightarrow> goes_on c c'"
  by (auto simp: Emit_def Let_def split: option.splits if_splits intro!: sends_goes_on goes_on_refl)

lemma Send_goes_on:
  assumes "conn_inv c" and "Send msg room c = Some (r, c')"
  shows "goes_on c c'"
proof -
  obtain n c1 where get: "getSerial c = Some (n, c1)" using assms(2) by (auto simp: Send_def split: option.splits)
  show ?thesis
  proof (cases "wants_reply (msg\<lparr>serial := n\<rparr>)")
    case True
    with assms get show ?thesis
      using register_goes_on [OF assms(1), of "msg\<lparr>serial := n\<rparr>" c1]
      by (auto simp: Send_def Let_def wants_reply_def split: if_splits dest!: arg_cong [where f = snd])
  next
    case False
    with assms get show ?thesis by (auto simp: Send_def Let_def intro!: sends_goes_on)
  qed
qed

lemma call_message_parts:
  "call_message dest path meth flags args n = Some (name, msg) \<Longrightarrow> serial msg = n \<and> msg_Type msg = TypeMethodCall"
  by (auto simp: call_message_def Let_def)

lemma Go_goes_on:
  assumes "conn_inv c" and "Go dest path meth flags room args c = Some (r, c')"
  shows "goes_on c c'"
proof -
  obtain n c1 name msg where get: "getSerial c = Some (n, c1)" and msg: "call_message dest path meth flags args n = Some (name, msg)"
    using assms(2) by (auto simp: Go_def split: option.splits)
  note m = call_message_parts [OF msg]
  have reg: "register call msg c1 = (r, c') \<Longrightarrow> c_Done call = 0 \<Longrightarrow> goes_on c c'" for call
    using register_goes_on [OF assms(1), of msg c1 call] get m by simp
  show ?thesis using assms get msg m
    by (auto simp: Go_def split: if_splits intro!: sends_goes_on dest: reg)
qed

lemma handleCall_goes_on:
  assumes "conn_inv c" and "handleCall ms uuid msg c = Some c'"
  shows "goes_on c c'"
proof -
  have call: "goes_on c c'" if "conn_inv c" "call_method m msg c = Some c'" for m c
    using that unfolding call_method_def Let_def invalidArg_def
    by (auto split: if_splits option.splits sum.splits prod.splits
        intro: sendError_goes_on reply_to_goes_on goes_on_refl)
  have dispatch: "goes_on c c'" if "conn_inv c" "dispatch_call ms msg c = Some c'" for c
    using that unfolding dispatch_call_def Let_def noObject_def unknownMethod_def
    by (auto split: if_splits option.splits intro: call sendError_goes_on)
  have peer: "goes_on c c'" if "conn_inv c" "peer_call uuid msg c = Some c'" for c
    using that unfolding peer_call_def Let_def unknownMethod_def
    by (auto split: if_splits intro: sendReply_goes_on sendError_goes_on)
  show ?thesis using assms unfolding handleCall_def Let_def
    by (auto simp: unknownMethod_def split: if_splits option.splits
        intro: peer dispatch goes_on_trans sendError_goes_on goes_on_inv)
qed

section \<open>Runs of a connection\<close>

text \<open>What can happen to a connection, in any order.\<close>

datatype 'o event = ESend Message "nat option" | EGo string string string byte "nat option" "gval list"
  | EEmit string string "gval list" | EIncoming "nat \<Rightarrow> bool" Message | EReadError msg_error | EWrite "error option"
  | EHandle Message | EExport "'o option" string string | ESignal nat | EEavesdrop "nat option" | EClose
  | EHello Call | ERequestName string Call | EReleaseName string Call

fun conn_step :: "'o methods \<Rightarrow> string \<Rightarrow> 'o event \<Rightarrow> 'o BusConn \<Rightarrow> 'o BusConn option" where
  "conn_step ms uuid (ESend msg room) c = map_option snd (Send msg room c)"
| "conn_step ms uuid (EGo dest path meth flags room args) c = map_option snd (Go dest path meth flags room args c)"
| "conn_step ms uuid (EEmit path name values) c = map_option snd (Emit path name values c)"
| "conn_step ms uuid (EIncoming ready msg) c = in_message ready msg c"
| "conn_step ms uuid (EReadError e) c = in_error e c"
| "conn_step ms uuid (EWrite r) c = Some (out_step r c)"
| "conn_step ms uuid (EHandle msg) c = handleCall ms uuid msg c"
| "conn_step ms uuid (EExport v path iface) c = map_option snd (Export v path iface c)"
| "conn_step ms uuid (ESignal ch) c = Some (Signal_register ch c)"
| "conn_step ms uuid (EEavesdrop ch) c = Some (Eavesdrop ch c)"
| "conn_step ms uuid EClose c = Close c"
| "conn_step ms uuid (EHello call) c = map_option snd (Hello_done call c)"
| "conn_step ms uuid (ERequestName name call) c = map_option snd (RequestName_done name call c)"
| "conn_step ms uuid (EReleaseName name call) c = map_option snd (ReleaseName_done name call c)"

text \<open>The peer answers a message only after it was sent.\<close>

fun answers_sent :: "'o event \<Rightarrow> 'o BusConn \<Rightarrow> bool" where
  "answers_sent (EIncoming ready msg) c \<longleftrightarrow>
     (case map_of (Headers msg) FieldReplySerial of Some (s, GUint32 n) \<Rightarrow> n \<notin> serial ` set (out c) | _ \<Rightarrow> True)"
| "answers_sent e c \<longleftrightarrow> True"

inductive conn_steps :: "'o methods \<Rightarrow> string \<Rightarrow> 'o BusConn \<Rightarrow> 'o BusConn \<Rightarrow> bool" for ms uuid where
  start: "conn_steps ms uuid c c"
| step: "conn_steps ms uuid c d \<Longrightarrow> answers_sent e d \<Longrightarrow> conn_step ms uuid e d = Some d' \<Longrightarrow> conn_steps ms uuid c d'"

lemma in_signal_goes_on: "conn_inv c \<Longrightarrow> in_signal ready msg c = Some c' \<Longrightarrow> goes_on c c'"
  by (auto simp: in_signal_def Let_def split: if_splits option.splits intro: goes_on_same)

lemma in_message_goes_on:
  assumes inv: "conn_inv c" and r: "in_message ready msg c = Some c'" and sent: "answers_sent (EIncoming ready msg) c"
  shows "goes_on c c'"
proof -
  have s: "map_of (Headers msg) FieldReplySerial = Some (s, GUint32 n) \<Longrightarrow> n \<notin> serial ` set (out c)" for s n
    using sent by simp
  show ?thesis using r in_reply_goes_on [OF inv _ s] inv unfolding in_message_def
    by (auto split: option.splits if_splits intro: goes_on_same goes_on_refl in_signal_goes_on)
qed

lemma Export_goes_on: "conn_inv c \<Longrightarrow> Export v path iface c = Some (r, c') \<Longrightarrow> goes_on c c'"
  by (auto simp: Export_def Let_def split: if_splits option.splits intro: goes_on_same)

lemma names_goes_on:
  "conn_inv c \<Longrightarrow> Hello_done call c = Some (r, c') \<Longrightarrow> goes_on c c'"
  "conn_inv c \<Longrightarrow> RequestName_done name call c = Some (r', c') \<Longrightarrow> goes_on c c'"
  "conn_inv c \<Longrightarrow> ReleaseName_done name call c = Some (r', c') \<Longrightarrow> goes_on c c'"
  by (auto simp: Hello_done_def RequestName_done_def ReleaseName_done_def Let_def split: if_splits option.splits sum.splits
      intro: goes_on_same goes_on_refl)

lemma conn_step_goes_on:
  assumes inv: "conn_inv c" and st: "conn_step ms uuid e c = Some c'" and ans: "answers_sent e c"
  shows "goes_on c c'"
  using st ans inv
  by (cases e)
    (auto simp: Signal_register_def Eavesdrop_def intro: Send_goes_on Go_goes_on Emit_goes_on in_error_goes_on out_step_goes_on
      handleCall_goes_on Export_goes_on Close_goes_on names_goes_on goes_on_same in_message_goes_on simp del: answers_sent.simps(1))

lemma conn_steps_goes_on: "conn_steps ms uuid c d \<Longrightarrow> conn_inv c \<Longrightarrow> goes_on c d"
proof (induction rule: conn_steps.induct)
  case (step c d e d')
  then show ?case using conn_step_goes_on goes_on_inv by (blast intro: goes_on_trans)
qed (rule goes_on_refl)

section \<open>A call and its reply\<close>

lemma started_call:
  assumes "conn_inv c" and "Send msg room c = Some (Pending i, c1) \<or> Go dest path meth flags room args c = Some (Pending i, c1)"
    and get: "getSerial c = Some (n, c0)"
  shows "(n, i) \<in> set (calls c1) \<and> i < length (objs c1)
    \<and> (c_Done (objs c1 ! i) = 0 \<longrightarrow> (\<exists>m. out c1 = out c @ [m] \<and> serial m = n \<and> msg_Type m = TypeMethodCall))"
proof -
  have reg: "(n, i) \<in> set (calls c1) \<and> i < length (objs c1) \<and> (c_Done (objs c1 ! i) = 0 \<longrightarrow> out c1 = out c @ [m])"
    if "register call m c0 = (Pending i, c1)" "serial m = n" for call m
    using that set_update_distinct [OF conn_invD(2) [OF assms(1)]] getSerial_conn [OF get]
    by (auto simp: register_def Let_def complete_def enqueue_def split: if_splits)
  show ?thesis using assms(2)
  proof
    assume "Send msg room c = Some (Pending i, c1)"
    then show ?thesis using get by (auto simp: Send_def Let_def wants_reply_def split: if_splits dest: reg)
  next
    assume "Go dest path meth flags room args c = Some (Pending i, c1)"
    moreover obtain name m where "call_message dest path meth flags args n = Some (name, m)"
      using calculation get by (auto simp: Go_def split: option.splits)
    ultimately obtain call where "register call m c0 = (Pending i, c1)" "serial m = n" "msg_Type m = TypeMethodCall"
      using get call_message_parts by (auto simp: Go_def split: if_splits)
    then show ?thesis using reg by blast
  qed
qed

text \<open>
  C33: a reply finds its call. In every run of a connection whose peer answers only messages that were
  sent, the message of a call goes out under a serial that is not 0; while the call waits, that serial
  is not given out again and stands for this call; and a reply with it completes this call, with its
  own body, once, and no other.
\<close>

theorem replies_reach_their_calls:
  assumes "conn_steps ms uuid newConn c"
    and "Send msg room c = Some (Pending i, c1) \<or> Go dest path meth flags room args c = Some (Pending i, c1)"
    and "getSerial c = Some (n, c0)" and "conn_steps ms uuid c1 d" and "c_Done (objs d ! i) = 0"
  shows "n \<noteq> 0 \<and> (\<exists>m. out c1 = out c @ [m] \<and> serial m = n \<and> msg_Type m = TypeMethodCall)
    \<and> map_of (calls d) n = Some i \<and> (\<forall>k d'. getSerial d = Some (k, d') \<longrightarrow> k \<noteq> n)
    \<and> (\<forall>ready reply s. msg_Type reply = TypeMethodReply \<and> map_of (Headers reply) FieldReplySerial = Some (s, GUint32 n)
          \<and> for_us reply d \<and> eavesdropped d = None \<longrightarrow>
        (\<exists>d'. in_message ready reply d = Some d' \<and> map_of (calls d') n = None
          \<and> objs d' = (objs d)[i := (objs d ! i)\<lparr>c_Body := Body reply, c_Done := 1\<rparr>]))"
proof -
  have inv: "conn_inv c" using assms(1) newConn_inv by (blast dest: conn_steps_goes_on goes_on_inv)
  have "goes_on c c1" using assms(2) Send_goes_on [OF inv] Go_goes_on [OF inv] by blast
  then have g: "goes_on c1 d" using assms(4) by (blast dest: conn_steps_goes_on goes_on_inv)
  note inv' = goes_on_inv [OF g]
  have st: "(n, i) \<in> set (calls c1)" "i < length (objs c1)"
    "c_Done (objs c1 ! i) = 0 \<longrightarrow> (\<exists>m. out c1 = out c @ [m] \<and> serial m = n \<and> msg_Type m = TypeMethodCall)"
    using started_call [OF inv assms(2,3)] by auto
  have d0: "c_Done (objs c1 ! i) = 0" and nd: "(n, i) \<in> set (calls d)"
    using g st(1,2) assms(5) by (auto simp: goes_on_def)
  have m: "map_of (calls d) n = Some i" using nd conn_invD(2) [OF inv'] by simp
  have "k \<noteq> n" if "getSerial d = Some (k, d')" for k d'
    using getSerial_conn(1) [OF that] conn_invD(4) [OF inv' nd] assms(5) by auto
  then show ?thesis using d0 st(3) m conn_invD(4) [OF inv' nd] assms(5)
    by (auto simp: in_message_def in_reply_def Let_def complete_def freeSerial_def message_constants AList.delete_conv)
qed

section \<open>Incoming messages that are valid\<close>

lemma drop_name_loop_absent:
  "\<forall>j. i \<le> j \<and> j < i + k \<longrightarrow> arr ! j \<noteq> name \<Longrightarrow> drop_name_loop i k name arr len = Some (take len arr)"
  by (induction k arbitrary: i) auto

lemma drop_name_loop_distinct:
  assumes "distinct arr" and "i + k = length arr" and "name \<notin> set (take i arr)"
  shows "drop_name_loop i k name arr (length arr) = Some (remove1 name arr)"
  using assms
proof (induction k arbitrary: i)
  case 0
  then show ?case by (simp add: remove1_idem)
next
  case (Suc k)
  then have i: "i < length arr" by simp
  let ?arr = "take i arr @ take (length arr - (i + 1)) (drop (i + 1) arr) @ drop (length arr - 1) arr"
  show ?case
  proof (cases "arr ! i = name")
    case True
    have arr: "arr = take i arr @ name # drop (Suc i) arr" using i True id_take_nth_drop by blast
    have nm: "name \<notin> set (drop (Suc i) arr)" using Suc.prems(1) arr by (metis distinct_append distinct.simps(2))
    have "?arr ! j \<noteq> name" if "i + 1 \<le> j" "j < i + 1 + k" for j
    proof -
      let ?tl = "take (length arr - (i + 1)) (drop (i + 1) arr) @ drop (length arr - 1) arr"
      have "?arr ! j = ?tl ! (j - i)" using that i by (simp add: nth_append)
      moreover have "j - i < length ?tl" using that Suc.prems(2) by simp
      ultimately have "?arr ! j \<in> set ?tl" by (metis nth_mem)
      moreover have "set (drop (length arr - 1) arr) \<subseteq> set (drop (Suc i) arr)"
        using that Suc.prems(2) by (intro set_drop_subset_set_drop) simp
      ultimately show ?thesis using nm by auto
    qed
    then have "drop_name_loop (i + 1) k name ?arr (length arr - 1) = Some (take (length arr - 1) ?arr)"
      by (intro drop_name_loop_absent) blast
    moreover have "take (length arr - 1) ?arr = take i arr @ drop (Suc i) arr" using i by simp
    moreover have "remove1 name arr = take i arr @ drop (Suc i) arr"
      using Suc.prems(3) by (subst arr) (simp add: remove1_append)
    ultimately show ?thesis using True i by simp
  next
    case False
    then have "name \<notin> set (take (Suc i) arr)" using Suc.prems(3) i by (auto simp: take_Suc_conv_app_nth)
    with False Suc.IH [of "Suc i"] Suc.prems show ?thesis by simp
  qed
qed

lemma drop_name_distinct: "distinct ns \<Longrightarrow> drop_name name ns = Some (remove1 name ns)"
  by (simp add: drop_name_def drop_name_loop_distinct)

lemma typeOf_iff:
  "typeOf v = String \<longleftrightarrow> (\<exists>s. v = GString s)" "typeOf v = ObjectPath \<longleftrightarrow> (\<exists>s. v = GPath s)"
  "typeOf v = Uint32 \<longleftrightarrow> (\<exists>n. v = GUint32 n)"
  by (cases v; simp)+

text \<open>A header of a valid message has the type of its field.\<close>

lemma IsValid_header:
  assumes "IsValid msg = None" and "map_of (Headers msg) k = Some (s, v)"
  shows "Some (typeOf v) = fieldTypes k"
  using assms check_headers_types [OF IsValid_headers] by (metis map_of_SomeD)

lemma IsValid_required:
  assumes "IsValid msg = None" and "k \<in> set (requiredFields (msg_Type msg))"
  shows "map_of (Headers msg) k \<noteq> None"
proof -
  have "check_required ks hs = None \<Longrightarrow> k \<in> set ks \<Longrightarrow> map_of hs k \<noteq> None" for ks hs
    by (induction ks) (auto split: if_splits)
  then show ?thesis using assms by (auto simp: IsValid_def split: if_splits option.splits)
qed

lemma valid_reply:
  assumes "IsValid msg = None" and "msg_Type msg = TypeMethodReply \<or> msg_Type msg = TypeError"
  obtains s n where "map_of (Headers msg) FieldReplySerial = Some (s, GUint32 n)"
proof -
  have "map_of (Headers msg) FieldReplySerial \<noteq> None"
    using assms by (intro IsValid_required) (auto simp: requiredFields_def message_constants)
  then obtain s v where "map_of (Headers msg) FieldReplySerial = Some (s, v)" by auto
  with IsValid_header [OF assms(1) this] that show ?thesis
    by (auto simp: fieldTypes_def message_constants typeOf_iff)
qed

lemma valid_names:
  assumes "IsValid msg = None" and "k \<in> set (requiredFields (msg_Type msg))"
  shows "fieldTypes k = Some String \<Longrightarrow> has_string msg k" and "fieldTypes k = Some ObjectPath \<Longrightarrow> has_path msg k"
proof -
  obtain s v where hd: "map_of (Headers msg) k = Some (s, v)" using IsValid_required [OF assms] by auto
  with IsValid_header [OF assms(1) hd] show "fieldTypes k = Some String \<Longrightarrow> has_string msg k"
    and "fieldTypes k = Some ObjectPath \<Longrightarrow> has_path msg k"
    by (auto simp: has_string_def has_path_def typeOf_iff)
qed

lemma valid_signal:
  assumes "IsValid msg = None" and "msg_Type msg = TypeSignal"
  shows "has_string msg FieldInterface" "has_string msg FieldMember" "has_path msg FieldPath"
  using assms(2) by (auto intro!: valid_names [OF assms(1)] simp: requiredFields_def fieldTypes_def message_constants)

lemma valid_call:
  assumes "IsValid msg = None" and "msg_Type msg = TypeMethodCall"
  shows "has_string msg FieldMember" "has_path msg FieldPath"
  using assms(2) by (auto intro!: valid_names [OF assms(1)] simp: requiredFields_def fieldTypes_def message_constants)

text \<open>The signal by which the bus takes a name away.\<close>

definition name_lost :: "Message \<Rightarrow> bool" where
  "name_lost msg \<longleftrightarrow> msg_Type msg = TypeSignal \<and> header_string msg FieldInterface = ''org.freedesktop.DBus''
     \<and> header_string msg FieldMember = ''NameLost'' \<and> header_string msg FieldSender = ''org.freedesktop.DBus''"


section \<open>What goes wrong\<close>

lemma closed_twice:
  assumes "\<not> closed c" and "distinct (signals c)"
  shows "\<exists>c1. Close c = Some c1 \<and> (\<forall>e. (\<forall>s. e \<noteq> InvalidMessageError s) \<longrightarrow> in_error e c1 = None)"
  using assms by (auto simp: Close_def in_error_def split: msg_error.splits)

lemma withdrawn_locks:
  assumes "\<not> locked c" and "ObjectPath_IsValid path"
  shows "\<exists>c1. Export None path iface c = Some (None, c1) \<and> (\<forall>v i. Export v path i c1 = None) \<and> (\<forall>msg. dispatch_call ms msg c1 = None)"
  using assms by (auto simp: Export_def dispatch_call_def Let_def split: option.splits)

lemma error_body_signature: "SignatureOf [String] = Some ''s''"
  by code_simp

lemma sendError_out:
  assumes "getSerial c = Some (n, c1)" and "\<not> closed c"
  shows "\<exists>m. sendError name [GString text] dest ser c = Some (c1\<lparr>out := out c @ [m]\<rparr>) \<and> msg_Type m = TypeError
    \<and> map_of (Headers m) FieldReplySerial = Some (''u'', GUint32 ser)"
  using assms getSerial_conn [OF assms(1)]
  by (auto simp: sendError_def answer_message_def signature_header_def error_body_signature enqueue_def message_constants)

text \<open>
  C40: what a user of a connection runs into. After \<open>Close\<close>, the error that the reader then meets makes it
  close the connection again, which panics. An object that is withdrawn leaves the lock of the
  exported objects held: later exports and calls wait forever. And a call whose name cannot be that of a
  method is answered twice.
\<close>

theorem connection_pitfalls:
  assumes "\<not> closed c" and "\<not> locked c" and "distinct (signals c)" and "ObjectPath_IsValid path"
    and "getSerial c = Some (n1, c1)" and "getSerial c1 = Some (n2, c2)"
    and "has_string msg FieldMember" and "has_path msg FieldPath"
    and "header_string msg FieldInterface \<noteq> ''org.freedesktop.DBus.Peer''"
    and "header_string msg FieldMember = '''' \<or> is_lower (hd (header_string msg FieldMember))"
    and "map_of (handlers c) (header_path msg FieldPath) = None"
  shows "(\<exists>d. Close c = Some d \<and> (\<forall>e. (\<forall>s. e \<noteq> InvalidMessageError s) \<longrightarrow> in_error e d = None))
    \<and> (\<exists>d. Export None path iface c = Some (None, d) \<and> (\<forall>v i. Export v path i d = None) \<and> (\<forall>m. dispatch_call ms m d = None))
    \<and> (\<exists>d m1 m2. handleCall ms uuid msg c = Some d \<and> out d = out c @ [m1, m2]
         \<and> (\<forall>m\<in>{m1, m2}. msg_Type m = TypeError \<and> map_of (Headers m) FieldReplySerial = Some (''u'', GUint32 (serial msg))))"
proof (intro conjI closed_twice withdrawn_locks assms)
  let ?ser = "serial msg" and ?dest = "header_string msg FieldSender"
  obtain m1 where m1: "unknownMethod ?dest ?ser c = Some (c1\<lparr>out := out c @ [m1]\<rparr>)" "msg_Type m1 = TypeError"
      "map_of (Headers m1) FieldReplySerial = Some (''u'', GUint32 ?ser)"
    using sendError_out [OF assms(5,1)] unfolding unknownMethod_def by blast
  let ?d = "c1\<lparr>out := out c @ [m1]\<rparr>"
  note g = getSerial_conn [OF assms(5)]
  have "getSerial ?d = Some (n2, c2\<lparr>out := out c @ [m1]\<rparr>)" "\<not> closed ?d"
    using assms(1,6) g by (auto simp: getSerial_def)
  from sendError_out [OF this] obtain m2 where m2: "noObject ?dest ?ser ?d = Some (c2\<lparr>out := (out c @ [m1]) @ [m2]\<rparr>)"
      "msg_Type m2 = TypeError" "map_of (Headers m2) FieldReplySerial = Some (''u'', GUint32 ?ser)"
    unfolding noObject_def using that by (simp del: append_assoc) blast
  have "\<not> locked ?d" "handlers ?d = handlers c" using assms(2,5) by (auto simp: getSerial_Some)
  then have "handleCall ms uuid msg c = Some (c2\<lparr>out := (out c @ [m1]) @ [m2]\<rparr>)"
    using m1(1) m2(1) assms(7-11) by (simp add: handleCall_def dispatch_call_def Let_def del: append_assoc)
  with m1 m2 show "\<exists>d m1 m2. handleCall ms uuid msg c = Some d \<and> out d = out c @ [m1, m2]
         \<and> (\<forall>m\<in>{m1, m2}. msg_Type m = TypeError \<and> map_of (Headers m) FieldReplySerial = Some (''u'', GUint32 (serial msg)))"
    by (intro exI [of _ "c2\<lparr>out := (out c @ [m1]) @ [m2]\<rparr>"] exI [of _ m1] exI [of _ m2]) simp
qed

section \<open>Witnesses\<close>

definition hello_conn :: "nat BusConn" where
  "hello_conn = snd (the (Go ''org.freedesktop.DBus'' ''/org/freedesktop/DBus'' ''org.freedesktop.DBus.Hello'' 0 (Some 1) [] newConn))"

definition hello_reply :: Message where
  "hello_reply = \<lparr>msg_Type = TypeMethodReply, msg_Flags = 0,
     Headers = [(FieldReplySerial, ''u'', GUint32 1), (FieldSignature, ''g'', GSig ''s'')], Body = [GString '':1.5''], serial = 1\<rparr>"

lemma getSerial_new: "getSerial newConn = Some (1, newConn\<lparr>serialUsed := [0 \<mapsto> True, 1 \<mapsto> True], nextSerial := 2\<rparr>)"
  by (simp add: getSerial_def newConn_def find_serial.simps)

lemma hello_sent: "Go ''org.freedesktop.DBus'' ''/org/freedesktop/DBus'' ''org.freedesktop.DBus.Hello'' 0 (Some 1) [] newConn
    = Some (Pending 0, hello_conn)"
  by (simp add: hello_conn_def Go_def getSerial_new call_message_def Let_def signature_header_def register_def)
    (simp add: newConn_def)

lemma hello_steps: "conn_steps ms uuid hello_conn (out_step None hello_conn)"
  using conn_steps.step [OF conn_steps.start, where e = "EWrite None"] by simp

lemma hello_facts:
  "objs (out_step None hello_conn) = [\<lparr>c_Destination = ''org.freedesktop.DBus'', c_Path = ''/org/freedesktop/DBus'',
     c_Method = ''Hello'', c_Args = [], c_Err = None, c_Body = [], c_Done = 0\<rparr>]"
  "for_us hello_reply (out_step None hello_conn)" "eavesdropped (out_step None hello_conn) = None"
  by (simp_all add: hello_conn_def Go_def getSerial_new call_message_def Let_def signature_header_def register_def)
    (simp_all add: newConn_def enqueue_def out_step_def for_us_def hello_reply_def header_string_def message_constants)

theorem replies_reach_their_calls_witness:
  "(\<exists>m. out hello_conn = out (newConn :: nat BusConn) @ [m] \<and> serial m = 1 \<and> msg_Type m = TypeMethodCall)
   \<and> map_of (calls (out_step None hello_conn)) 1 = Some 0
   \<and> (\<exists>d'. in_message (\<lambda>ch. True) hello_reply (out_step None hello_conn) = Some d' \<and> map_of (calls d') 1 = None
        \<and> map c_Body (objs d') = [[GString '':1.5'']])"
proof -
  have hd: "msg_Type hello_reply = TypeMethodReply" "map_of (Headers hello_reply) FieldReplySerial = Some (''u'', GUint32 1)"
    "Body hello_reply = [GString '':1.5'']" by (simp_all add: hello_reply_def)
  have z: "c_Done (objs (out_step None hello_conn) ! 0) = 0" by (simp add: hello_facts)
  note t = replies_reach_their_calls [OF conn_steps.start disjI2 [OF hello_sent] getSerial_new hello_steps z]
  have "\<exists>d'. in_message (\<lambda>ch. True) hello_reply (out_step None hello_conn) = Some d' \<and> map_of (calls d') 1 = None
      \<and> objs d' = (objs (out_step None hello_conn))[0 := (objs (out_step None hello_conn) ! 0)\<lparr>c_Body := Body hello_reply, c_Done := 1\<rparr>]"
    using t [THEN conjunct2, THEN conjunct2, THEN conjunct2, THEN conjunct2] hd hello_facts(2,3) by blast
  with t hd(3) hello_facts(1) show ?thesis by auto
qed


definition lower_call :: Message where
  "lower_call = \<lparr>msg_Type = TypeMethodCall, msg_Flags = 0,
     Headers = [(FieldPath, ''o'', GPath ''/''), (FieldMember, ''s'', GString ''get'')], Body = [], serial = 9\<rparr>"

theorem connection_pitfalls_witness:
  "\<exists>d m1 m2. handleCall (\<lambda>x n. None) ''id'' lower_call (newConn :: nat BusConn) = Some d \<and> out d = [m1, m2]
     \<and> msg_Type m1 = TypeError \<and> msg_Type m2 = TypeError"
proof -
  let ?c1 = "(newConn :: nat BusConn)\<lparr>serialUsed := [0 \<mapsto> True, 1 \<mapsto> True], nextSerial := 2\<rparr>"
  have g: "getSerial ?c1 = Some (2, ?c1\<lparr>serialUsed := [0 \<mapsto> True, 1 \<mapsto> True, 2 \<mapsto> True], nextSerial := 3\<rparr>)"
    by (simp add: getSerial_def find_serial.simps)
  have n: "\<not> closed (newConn :: nat BusConn)" "\<not> locked (newConn :: nat BusConn)" "distinct (signals (newConn :: nat BusConn))"
    "map_of (handlers (newConn :: nat BusConn)) (header_path lower_call FieldPath) = None" "out (newConn :: nat BusConn) = []"
    by (simp_all add: newConn_def)
  have p: "ObjectPath_IsValid ''/''" by code_simp
  have h: "has_string lower_call FieldMember" "has_path lower_call FieldPath"
    "header_string lower_call FieldInterface \<noteq> ''org.freedesktop.DBus.Peer''"
    "header_string lower_call FieldMember = '''' \<or> is_lower (hd (header_string lower_call FieldMember))"
    by (code_simp)+
  from connection_pitfalls [OF n(1-3) p getSerial_new g h n(4), of undefined "\<lambda>x n. None" "''id''"] n(5) show ?thesis by auto
qed

end
