(* ===== verification/DbusProp.thy ===== *)
theory DbusProp
  imports DbusCalls
begin

text \<open>
  Properties of exported objects, \<open>github.com/godbus/dbus/prop\<close> (\<open>prop.go\<close>): they are read and set by
  the other side, and their changes are announced by signals of the connection. An operation has the
  lock of the properties while it runs; \<open>None\<close> is a panic.
\<close>

section \<open>The properties\<close>

type_synonym dbus_error = "string \<times> gval list"

definition EmitFalse :: byte where "EmitFalse = 0"
definition EmitTrue :: byte where "EmitTrue = 1"
definition EmitInvalidates :: byte where "EmitInvalidates = 2"

definition ErrIfaceNotFound :: dbus_error where
  "ErrIfaceNotFound = (''org.freedesktop.DBus.Properties.Error.InterfaceNotFound'', [])"
definition ErrPropNotFound :: dbus_error where
  "ErrPropNotFound = (''org.freedesktop.DBus.Properties.Error.PropertyNotFound'', [])"
definition ErrReadOnly :: dbus_error where
  "ErrReadOnly = (''org.freedesktop.DBus.Properties.Error.ReadOnly'', [])"
definition ErrInvalidArg :: dbus_error where
  "ErrInvalidArg = (''org.freedesktop.DBus.Properties.Error.InvalidArg'', [])"

text \<open>A callback is a function of the interface, the name and the value of a change.\<close>

record Prop =
  Value :: gval
  Writable :: bool
  EmitOn :: byte
  Callback :: "(string \<Rightarrow> string \<Rightarrow> gval \<Rightarrow> dbus_error option) option"

text \<open>The two levels of the map; every name has a property of its own.\<close>

record Properties =
  props :: "(string \<times> (string \<times> Prop) list) list"
  props_path :: string

definition prop_of :: "Properties \<Rightarrow> string \<Rightarrow> string \<Rightarrow> Prop option" where
  "prop_of p iface name = (case map_of (props p) iface of None \<Rightarrow> None | Some m \<Rightarrow> map_of m name)"

definition MakeVariant :: "gval \<Rightarrow> (string \<times> gval) option" where
  "MakeVariant v = map_option (\<lambda>s. (s, v)) (SignatureOf [typeOf v])"

text \<open>\<open>New\<close> exports the properties; the error of \<open>Export\<close> is dropped.\<close>

definition New :: "'o \<Rightarrow> string \<Rightarrow> (string \<times> (string \<times> Prop) list) list \<Rightarrow> 'o BusConn \<Rightarrow> (Properties \<times> 'o BusConn) option" where
  "New obj path m c =
     map_option (\<lambda>(e, c). (\<lparr>props = m, props_path = path\<rparr>, c)) (Export (Some obj) path ''org.freedesktop.DBus.Properties'' c)"

section \<open>Reading\<close>

definition Get :: "string \<Rightarrow> string \<Rightarrow> Properties \<Rightarrow> (dbus_error + string \<times> gval) option" where
  "Get iface name p =
     (case map_of (props p) iface of
        None \<Rightarrow> Some (Inl ErrIfaceNotFound)
      | Some m \<Rightarrow>
          (case map_of m name of
             None \<Rightarrow> Some (Inl ErrPropNotFound)
           | Some prop \<Rightarrow> map_option Inr (MakeVariant (Value prop))))"

fun all_variants :: "(string \<times> Prop) list \<Rightarrow> (string \<times> string \<times> gval) list option" where
  "all_variants [] = Some []"
| "all_variants ((k, prop) # m) =
     (case MakeVariant (Value prop) of
        None \<Rightarrow> None
      | Some v \<Rightarrow> map_option (\<lambda>vs. (k, v) # vs) (all_variants m))"

definition GetAll :: "string \<Rightarrow> Properties \<Rightarrow> (dbus_error + (string \<times> string \<times> gval) list) option" where
  "GetAll iface p =
     (case map_of (props p) iface of
        None \<Rightarrow> Some (Inl ErrIfaceNotFound)
      | Some m \<Rightarrow> map_option Inr (all_variants m))"

definition GetMust :: "string \<Rightarrow> string \<Rightarrow> Properties \<Rightarrow> gval option" where
  "GetMust iface name p = map_option Value (prop_of p iface name)"

text \<open>\<open>Introspection\<close>: the name, the type and the access of each property.\<close>

fun described :: "(string \<times> Prop) list \<Rightarrow> (string \<times> string \<times> string) list option" where
  "described [] = Some []"
| "described ((k, prop) # m) =
     (case SignatureOf [typeOf (Value prop)] of
        None \<Rightarrow> None
      | Some s \<Rightarrow> map_option (\<lambda>ds. (k, s, if Writable prop then ''readwrite'' else ''read'') # ds) (described m))"

definition Introspection :: "string \<Rightarrow> Properties \<Rightarrow> (string \<times> string \<times> string) list option" where
  "Introspection iface p = described (case map_of (props p) iface of None \<Rightarrow> [] | Some m \<Rightarrow> m)"

section \<open>Setting\<close>

definition put_value :: "string \<Rightarrow> string \<Rightarrow> gval \<Rightarrow> Properties \<Rightarrow> Properties" where
  "put_value iface name v p =
     (case map_of (props p) iface of
        None \<Rightarrow> p
      | Some m \<Rightarrow>
          (case map_of m name of
             None \<Rightarrow> p
           | Some prop \<Rightarrow> p\<lparr>props := AList.update iface (AList.update name (prop\<lparr>Value := v\<rparr>) m) (props p)\<rparr>))"

text \<open>The values of the signal that announces a change.\<close>

definition changed_values :: "string \<Rightarrow> (string \<times> string \<times> gval) list \<Rightarrow> string list \<Rightarrow> gval list" where
  "changed_values iface changed invalid =
     [GString iface, GMap String VariantT (map (\<lambda>(k, s, v). (GString k, GVariant s v)) changed), GSlice String (map GString invalid)]"

definition announce :: "string \<Rightarrow> gval list \<Rightarrow> 'o BusConn \<Rightarrow> 'o BusConn option" where
  "announce path values c = map_option snd (Emit path ''org.freedesktop.DBus.Properties.PropertiesChanged'' values c)"

definition set_prop :: "string \<Rightarrow> string \<Rightarrow> gval \<Rightarrow> Properties \<times> 'o BusConn \<Rightarrow> (Properties \<times> 'o BusConn) option" where
  "set_prop iface name v = (\<lambda>(p, c).
     (case prop_of p iface name of
        None \<Rightarrow> None
      | Some prop \<Rightarrow>
          let p = put_value iface name v p in
          if EmitOn prop = EmitFalse then Some (p, c)
          else if EmitOn prop = EmitInvalidates then
            map_option (\<lambda>c. (p, c)) (announce (props_path p) (changed_values iface [] [name]) c)
          else if EmitOn prop = EmitTrue then
            (case MakeVariant v of
               None \<Rightarrow> None
             | Some x \<Rightarrow> map_option (\<lambda>c. (p, c)) (announce (props_path p) (changed_values iface [(name, x)] []) c))
          else None))"

definition SetMust :: "string \<Rightarrow> string \<Rightarrow> gval \<Rightarrow> Properties \<times> 'o BusConn \<Rightarrow> (Properties \<times> 'o BusConn) option" where
  "SetMust = set_prop"

definition Set_prop :: "string \<Rightarrow> string \<Rightarrow> string \<times> gval \<Rightarrow> Properties \<times> 'o BusConn \<Rightarrow> (dbus_error option \<times> Properties \<times> 'o BusConn) option" where
  "Set_prop iface name newv = (\<lambda>(p, c).
     (case map_of (props p) iface of
        None \<Rightarrow> Some (Some ErrIfaceNotFound, p, c)
      | Some m \<Rightarrow>
          (case map_of m name of
             None \<Rightarrow> Some (Some ErrPropNotFound, p, c)
           | Some prop \<Rightarrow>
               if \<not> Writable prop then Some (Some ErrReadOnly, p, c)
               else (case SignatureOf [typeOf (Value prop)] of
                 None \<Rightarrow> None
               | Some s \<Rightarrow>
                   if fst newv \<noteq> s then Some (Some ErrInvalidArg, p, c)
                   else (case (case Callback prop of None \<Rightarrow> None | Some f \<Rightarrow> f iface name (snd newv)) of
                     Some e \<Rightarrow> Some (Some e, p, c)
                   | None \<Rightarrow> map_option (\<lambda>r. (None, r)) (set_prop iface name (snd newv) (p, c)))))))"

section \<open>Changes are announced\<close>

lemma prop_of_put:
  assumes "prop_of p iface name = Some prop"
  shows "prop_of (put_value iface name v p) i n = (if (i, n) = (iface, name) then Some (prop\<lparr>Value := v\<rparr>) else prop_of p i n)"
  using assms by (auto simp: prop_of_def put_value_def AList.update_conv' split: option.splits)

lemma props_path_put [simp]: "props_path (put_value iface name v p) = props_path p"
  by (simp add: put_value_def split: option.splits)

lemma announce_name:
  "LastIndex ''org.freedesktop.DBus.Properties.PropertiesChanged'' (CHR ''.'') = Some 31"
  "isValidMember ''PropertiesChanged''" "isValidInterface ''org.freedesktop.DBus.Properties''"
  by code_simp+

text \<open>A signal of an object is a valid message.\<close>

lemma signal_valid:
  assumes "ObjectPath_IsValid path" and "isValidMember member" and "isValidInterface iface"
    and "signature_header values = Some sig"
  shows "IsValid \<lparr>msg_Type = TypeSignal, msg_Flags = 0,
     Headers = [(FieldInterface, ''s'', GString iface), (FieldMember, ''s'', GString member), (FieldPath, ''o'', GPath path)] @ sig,
     Body = values, serial = n\<rparr> = None"
proof (cases "values = []")
  case True
  with assms show ?thesis
    by (simp add: signature_header_def IsValid_def header_name_def name_ok_def requiredFields_def fieldTypes_def message_constants word_le_nat_alt)
next
  case False
  with assms(4) obtain s where "sig = [(FieldSignature, ''g'', GSig s)]" by (auto simp: signature_header_def)
  with assms(1-3) show ?thesis
    by (simp add: IsValid_def header_name_def name_ok_def requiredFields_def fieldTypes_def message_constants word_le_nat_alt)
qed

lemma announced:
  assumes "announce path values c = Some c'" and "\<not> closed c" and "ObjectPath_IsValid path"
  shows "\<exists>m. out c' = out c @ [m] \<and> IsValid m = None \<and> msg_Type m = TypeSignal \<and> Body m = values"
proof -
  from assms obtain n c1 sig where get: "getSerial c = Some (n, c1)" and sig: "signature_header values = Some sig"
    by (auto simp: announce_def Emit_def Let_def announce_name split: option.splits)
  have "\<not> closed c1" "out c1 = out c" using getSerial_conn [OF get] assms(2) by simp_all
  with assms get sig show ?thesis
    using signal_valid [OF assms(3) announce_name(2,3) sig, of n]
    by (auto simp: announce_def Emit_def Let_def announce_name enqueue_def)
qed


section \<open>Witness\<close>

definition one_prop :: Prop where
  "one_prop = \<lparr>Value = GUint32 1, Writable = True, EmitOn = EmitTrue, Callback = None\<rparr>"

definition one_props :: Properties where
  "one_props = \<lparr>props = [(''a.b'', [(''N'', one_prop)])], props_path = ''/o''\<rparr>"


end
