(* ===== verification/Spec2Isabelle.thy ===== *)
theory Spec2Isabelle
  imports SubnetMaster VnidMaster Controller OpenFlow NodeMain Master Proxy Admin KErrors DbusTypes DbusAuth DbusTransport DbusProp
begin

text \<open>
  A verification development for openshift-sdn, the network plugin of OpenShift 3. A master gives
  every node a subnet of the cluster network and every project a virtual network id (VNID); every
  node keeps an Open vSwitch bridge whose OpenFlow rules carry the packets of its pods and keep
  projects with different ids apart. This theory imports all the others and holds what spans them.

  \<^bold>\<open>The program and the theories.\<close> Paths are under \<open>src/\<close>.

  \<^item> \<open>GoStrings\<close>, \<open>GoFmt\<close>, \<open>GoNet\<close>: what the source uses of Go's standard library (\<open>strings\<close>,
    \<open>strconv\<close>, \<open>Sprintf\<close>, \<open>net.IP\<close>, \<open>net.IPNet\<close>, \<open>ParseCIDR\<close>). \<open>Prelude\<close>: machine integers, errors
    (a result is \<open>error + 'a\<close>; a panic of the Go program is \<open>None\<close>), runs of handlers over events.
  \<^item> \<open>NetCommon\<close>, \<open>SubnetAllocator\<close>, \<open>NetIDAllocator\<close>: \<open>pkg/netutils\<close>. Subnets are handed out on
    32-bit words, bit for bit. \<open>IdPool\<close> is the contract both allocators keep, as a locale.
  \<^item> \<open>Exec\<close>, \<open>Ovs\<close>, \<open>IpCmd\<close>: \<open>pkg/exec\<close>, \<open>pkg/ovs\<close>, \<open>pkg/ipcmd\<close>. Commands are run against a world
    that is a parameter, and each call is recorded in order. \<open>Transaction\<close> is the contract of the
    two transaction types: they run as an abstract transaction up to the first failure.
  \<^item> \<open>Api\<close>, \<open>MemoryApi\<close>, \<open>Registry\<close>: the objects of the API server and \<open>plugins/osdn/registry.go\<close>.
    The clients are records of calls on an unknown server; \<open>MemoryApi\<close> is the server that keeps what
    it is given, on which witnesses and the locale interpretations are evaluated.
  \<^item> \<open>VnidMap\<close>, \<open>VnidMaster\<close>, \<open>VnidNode\<close>: \<open>plugins/osdn/vnids.go\<close>. \<open>SubnetMaster\<close>, \<open>SubnetNode\<close>:
    \<open>plugins/osdn/subnets.go\<close>. \<open>Controller\<close>: \<open>controller.go\<close>, the exact commands a node runs on its
    host. \<open>Plugin\<close>: \<open>plugin.go\<close>, the calls of the kubelet. \<open>IPTables\<close>: \<open>node_iptables.go\<close>. \<open>Proxy\<close>:
    \<open>proxy.go\<close>. \<open>Master\<close>: \<open>master.go\<close>. \<open>NodeMain\<close>: \<open>node.go\<close>.
  \<^item> \<open>OpenFlow\<close>: the rules of \<open>controller.go\<close> and of the script \<open>plugins/osdn/bin/openshift-sdn-ovs\<close>
    as data, with the documented semantics of OpenFlow tables.
  \<^item> \<open>Admin\<close>: the commands of \<open>pkg/cmd/admin/network\<close>.
  \<^item> Vendored packages under \<open>Godeps/_workspace/src\<close> whose logic is of the kind one verifies.
    \<open>KErrors\<close>: error aggregates. The package \<open>dbus\<close>, through which a node learns that the firewall was
    reloaded: \<open>DbusSig\<close>, signatures of types (\<open>sig.go\<close>); \<open>DbusWire\<close>, the wire format, with
    \<open>DbusRoundtrip\<close> and \<open>DbusTypes\<close> on what the decoder makes of it (\<open>encoder.go\<close>, \<open>decoder.go\<close>);
    \<open>DbusMessage\<close>, whole messages (\<open>message.go\<close>, \<open>Store\<close> of \<open>dbus.go\<close>); \<open>DbusAuth\<close>, the authentication
    (\<open>auth*.go\<close>); \<open>DbusConn\<close>, the connections, their calls and the exported objects (\<open>conn.go\<close>,
    \<open>call.go\<close>, \<open>export.go\<close>), with \<open>DbusCalls\<close> on their runs; \<open>DbusTransport\<close>, messages with file
    descriptors over a socket, addresses and shared connections (\<open>transport_*.go\<close>); \<open>DbusProp\<close>, the
    properties of objects (\<open>prop/prop.go\<close>).

  \<^bold>\<open>How the state corresponds.\<close> A Go struct is a record with the same fields; a map with string keys
  is an association list where its order is observable and a map otherwise; a goroutine that reads
  an event queue is a handler of one event, and a run of it is a fold over the events, in the order
  in which the queue delivers them (\<open>run\<close> of \<open>Prelude\<close>). Calls of the API server, of the operating
  system, of the resolver and of docker are arguments of the definitions.

  \<^bold>\<open>What the lemmas show.\<close> Each component has lemmas for every branch of its operations, its
  invariant and the fact that every operation keeps it: ids and subnets in use are in the range
  and belong to one owner (\<open>VnidMaster\<close>, \<open>SubnetMaster\<close>, the two allocators), the node's table and
  its tracked pods follow the events (\<open>VnidNode\<close>, \<open>Proxy\<close>). The operations of a connection are an
  inductive step relation, with an invariant that each of them keeps (\<open>DbusCalls\<close>). The commands of a node are connected to
  rules (\<open>rules_sent\<close> of \<open>OpenFlow\<close>), and the rules to packets: packets between tenants are dropped,
  packets within a tenant are delivered. Several theorems show a flaw of the code, by an exact run;
  their texts say so.

  \<^bold>\<open>Loops and bounds.\<close> Loops over lists are structural recursion. The search of the subnet allocator
  runs over at most as many numbers as there are subnets, and its termination is a theorem
  (\<open>GetNetwork_capacity\<close>). The search of the net id allocator may run forever when its range ends at the
  largest \<open>uint\<close>, so it is a partial function; within any other range it is total. The polling
  loops have the bounds of the source: 20 tries for a VNID (\<open>WaitAndGetVNID\<close>), 12 for the own
  subnet (\<open>initSelfSubnet\<close>), 60 for the readiness of pods. The signature checker consumes a
  character in every call, so the length of the string is enough fuel; that is proved. The loops
  of the decoder may run forever (\<open>empty_structs_never_end\<close>), so it has fuel; for what the encoder
  writes, all fuel from some point on gives the result (\<open>message_roundtrip\<close>), and more fuel never
  changes a result (\<open>Decode_fuel\<close>). The search for a serial is a partial function; it returns as long
  as a serial is free (\<open>find_serial_returns\<close>).

  \<^bold>\<open>Not modelled.\<close> Sleeping, logging and the layout of log messages; locks (each handler runs to its
  end); \<open>pkg/cmd/admin/network/pod_network.go\<close> and the constructors of the commands, which only
  register them with \<open>cobra\<close>; \<open>plugins/osdn/api/types.go\<close>, which declares interfaces; the vendored
  \<open>glog\<close>, whose work is to write files; of the vendored \<open>dbus\<close> the descriptions of objects in XML and
  the text form of variants, which the program does not use (it reaches the package only through the
  firewall's listener for reloads); of the shell scripts all but the rules of a pod; \<open>hack/\<close>, the
  packaging files and the tests.
\<close>

text \<open>The administrator joins p2 to p1 while the master runs.\<close>

definition join_p2_p1 :: "(OsdnMaster \<times> memory) option \<Rightarrow> (OsdnMaster \<times> memory) option" where
  "join_p2_p1 s = map_option (\<lambda>(m, w). (m, snd (join_Run memory_api names_builder (join_options ''p2'' ''p1'') w))) s"

end
